(* ===== verification/WB_Prelude.thy ===== *)
theory WB_Prelude
  imports Main
begin

text \<open>
  The vocabulary shared by every theory of the development: the exceptions the plugin
  raises, and the programs it runs.

  A plugin function that touches the outside world is a \<open>prog\<close>: from a state it either
  does not return (\<open>None\<close>) or returns a state together with a value (\<open>Inr\<close>) or an
  exception (\<open>Inl\<close>). The state holds what the Python process itself keeps (the cached
  \<open>nodes.yaml\<close>, the clean-up stack of the running test) and, as the component \<open>world\<close>
  of an arbitrary type, everything outside the process: compute hosts, Nova, Neutron, Glance,
  Cinder, Placement, the database and the clock. What the outside world does when it is called
  is never fixed here; it is a parameter of the definitions that call it.
\<close>

section \<open>Exceptions\<close>

text \<open>
  The four classes of \<^verbatim>\<open>whitebox_tempest_plugin/exceptions.py\<close>, the exceptions of
  \<^verbatim>\<open>tempest.lib\<close> that the sources name, and the built-in exceptions that a
  statement of the sources can raise. \<open>OtherError\<close> stands for anything else an external call
  may raise.
\<close>

datatype exn =
    CtrlplaneAddressResolutionError string
  | MissingServiceSectionException string
  | InvalidCPUSpec string
  | MigrationException
  | TimeoutException
  | SSHExecCommandFailed string
  | ValueError
  | KeyError string
  | IndexError
  | TypeError
  | AttributeError
  | UnboundLocalError
  | AssertionError
  | PlainException string
  | OtherError string

type_synonym 'a result = "exn + 'a"

text \<open>A sequence of fallible pure steps stops at the first exception.\<close>

fun bind_res :: "'a result \<Rightarrow> ('a \<Rightarrow> 'b result) \<Rightarrow> 'b result" where
  "bind_res (Inl e) f = Inl e"
| "bind_res (Inr x) f = f x"

fun map_res :: "('a \<Rightarrow> 'b result) \<Rightarrow> 'a list \<Rightarrow> 'b list result" where
  "map_res f [] = Inr []"
| "map_res f (x # xs) = bind_res (f x) (\<lambda>y. bind_res (map_res f xs) (\<lambda>ys. Inr (y # ys)))"

lemma bind_res_Inr_iff:
  "bind_res m f = Inr y \<longleftrightarrow> (\<exists>x. m = Inr x \<and> f x = Inr y)"
  by (cases m) auto

lemma bind_res_Inl_iff:
  "bind_res m f = Inl e \<longleftrightarrow> m = Inl e \<or> (\<exists>x. m = Inr x \<and> f x = Inl e)"
  by (cases m) auto

lemma map_res_Inr:
  assumes "\<And>x. x \<in> set xs \<Longrightarrow> f x = Inr (g x)"
  shows "map_res f xs = Inr (map g xs)"
  using assms by (induction xs) auto

lemma map_res_values:
  assumes "map_res f xs = Inr ys"
  obtains g where "ys = map g xs" and "\<And>x. x \<in> set xs \<Longrightarrow> f x = Inr (g x)"
proof -
  have "ys = map (\<lambda>x. projr (f x)) xs \<and> (\<forall>x \<in> set xs. f x = Inr (projr (f x)))"
    using assms
  proof (induction xs arbitrary: ys)
    case (Cons x xs)
    then show ?case by (cases "f x"; cases "map_res f xs") auto
  qed simp
  then show ?thesis by (intro that [of "\<lambda>x. projr (f x)"]) auto
qed

lemma map_res_Inr_iff:
  "map_res f xs = Inr ys \<longleftrightarrow> list_all2 (\<lambda>x y. f x = Inr y) xs ys"
  by (induction xs arbitrary: ys)
    (auto simp: bind_res_Inr_iff list_all2_Cons1)

text \<open>A loop over the elements of a list with an accumulator, left at the first exception.\<close>

fun fold_res :: "('a \<Rightarrow> 'b \<Rightarrow> 'a result) \<Rightarrow> 'a \<Rightarrow> 'b list \<Rightarrow> 'a result" where
  "fold_res f a [] = Inr a"
| "fold_res f a (x # xs) = bind_res (f a x) (\<lambda>a'. fold_res f a' xs)"

lemma fold_res_Inr:
  assumes "\<And>a x. x \<in> set xs \<Longrightarrow> f a x = Inr (g x a)"
  shows "fold_res f a xs = Inr (fold g xs a)"
  using assms by (induction xs arbitrary: a) simp_all

lemma fold_res_append: "fold_res f a (xs @ ys) = bind_res (fold_res f a xs) (\<lambda>a'. fold_res f a' ys)"
proof (induction xs arbitrary: a)
  case (Cons x xs)
  then show ?case by (cases "f a x") simp_all
qed simp

text \<open>\<^verbatim>\<open>xs[i]\<close> for an index that is not negative.\<close>

definition py_nth :: "'a list \<Rightarrow> nat \<Rightarrow> 'a result" where
  "py_nth xs i = (if i < length xs then Inr (xs ! i) else Inl IndexError)"

section \<open>Programs\<close>

text \<open>
  The process state. \<open>'n\<close> is the type of the parsed \<open>nodes.yaml\<close>, \<open>'c\<close> the type of a
  registered clean-up; both are fixed by the theories that introduce them.
\<close>

record ('n, 'c, 'w) st =
  nodes_cache :: "'n option"
  cleanups :: "'c list"
  world :: 'w

type_synonym ('s, 'a) prog = "'s \<Rightarrow> ('a result \<times> 's) option"

text \<open>A call of code outside the repository: it acts on the outside world only, and returns.\<close>

type_synonym ('w, 'a) ext = "'w \<Rightarrow> 'a result \<times> 'w"

definition ret :: "'a \<Rightarrow> ('s, 'a) prog" where
  "ret x = (\<lambda>s. Some (Inr x, s))"

definition raise :: "exn \<Rightarrow> ('s, 'a) prog" where
  "raise e = (\<lambda>s. Some (Inl e, s))"

definition of_result :: "'a result \<Rightarrow> ('s, 'a) prog" where
  "of_result r = (\<lambda>s. Some (r, s))"

definition bnd :: "('s, 'a) prog \<Rightarrow> ('a \<Rightarrow> ('s, 'b) prog) \<Rightarrow> ('s, 'b) prog" where
  "bnd m f = (\<lambda>s. case m s of
       None \<Rightarrow> None
     | Some (Inl e, s') \<Rightarrow> Some (Inl e, s')
     | Some (Inr x, s') \<Rightarrow> f x s')"

definition seqp :: "('s, 'a) prog \<Rightarrow> ('s, 'b) prog \<Rightarrow> ('s, 'b) prog" where
  "seqp m n = bnd m (\<lambda>_. n)"

definition external :: "('w, 'a) ext \<Rightarrow> (('n, 'c, 'w) st, 'a) prog" where
  "external f = (\<lambda>s. case f (world s) of (r, w) \<Rightarrow> Some (r, s\<lparr>world := w\<rparr>))"

text \<open>
  \<^verbatim>\<open>try: m; finally: fin\<close>. The final part always runs; an exception it raises replaces the
  outcome of \<open>m\<close>.
\<close>

definition try_finally :: "('s, 'a) prog \<Rightarrow> ('s, unit) prog \<Rightarrow> ('s, 'a) prog" where
  "try_finally m fin = (\<lambda>s. case m s of
       None \<Rightarrow> None
     | Some (r, s') \<Rightarrow> (case fin s' of
           None \<Rightarrow> None
         | Some (Inl e, s'') \<Rightarrow> Some (Inl e, s'')
         | Some (Inr _, s'') \<Rightarrow> Some (r, s'')))"

text \<open>\<^verbatim>\<open>try: m; except ...\<close>: \<open>h\<close> sees every exception and re-raises those it does not handle.\<close>

definition try_except :: "('s, 'a) prog \<Rightarrow> (exn \<Rightarrow> ('s, 'a) prog) \<Rightarrow> ('s, 'a) prog" where
  "try_except m h = (\<lambda>s. case m s of
       None \<Rightarrow> None
     | Some (Inl e, s') \<Rightarrow> h e s'
     | Some (Inr x, s') \<Rightarrow> Some (Inr x, s'))"

text \<open>A \<^verbatim>\<open>for\<close> loop that collects a value per element, and one run for its effects.\<close>

fun mapM :: "('a \<Rightarrow> ('s, 'b) prog) \<Rightarrow> 'a list \<Rightarrow> ('s, 'b list) prog" where
  "mapM f [] = ret []"
| "mapM f (x # xs) = bnd (f x) (\<lambda>y. bnd (mapM f xs) (\<lambda>ys. ret (y # ys)))"

fun forM :: "('a \<Rightarrow> ('s, unit) prog) \<Rightarrow> 'a list \<Rightarrow> ('s, unit) prog" where
  "forM f [] = ret ()"
| "forM f (x # xs) = seqp (f x) (forM f xs)"

text \<open>The assertion methods of a test: a failed check raises.\<close>

definition check :: "bool \<Rightarrow> ('s, unit) prog" where
  "check b = (if b then ret () else raise AssertionError)"

text \<open>A loop over a list that updates a local variable.\<close>

primrec foldM :: "('a \<Rightarrow> 'b \<Rightarrow> ('s, 'a) prog) \<Rightarrow> 'a \<Rightarrow> 'b list \<Rightarrow> ('s, 'a) prog" where
  "foldM f a [] = ret a"
| "foldM f a (x # xs) = bnd (f a x) (\<lambda>a'. foldM f a' xs)"

section \<open>The laws of programs\<close>

named_theorems prog_simps \<open>running a program on a state\<close>

lemma run_ret [prog_simps]: "ret x s = Some (Inr x, s)"
  by (simp add: ret_def)

lemma run_raise [prog_simps]: "raise e s = Some (Inl e, s)"
  by (simp add: raise_def)

lemma run_of_result [prog_simps]: "of_result r s = Some (r, s)"
  by (simp add: of_result_def)

lemma run_check [prog_simps]:
  "check b s = Some (if b then Inr () else Inl AssertionError, s)"
  by (simp add: check_def prog_simps)

lemma bnd_ret [simp]: "bnd (ret x) f = f x"
  by (simp add: bnd_def ret_def)

lemma bnd_raise [simp]: "bnd (raise e) f = raise e"
  by (simp add: bnd_def raise_def)

lemma bnd_ret_right [simp]: "bnd m ret = m"
  by (rule ext) (simp add: bnd_def ret_def split: option.splits prod.splits sum.splits)

lemma bnd_assoc [simp]: "bnd (bnd m f) g = bnd m (\<lambda>x. bnd (f x) g)"
  by (rule ext) (simp add: bnd_def split: option.splits prod.splits sum.splits)

lemma run_bnd_Inr: "m s = Some (Inr x, s') \<Longrightarrow> bnd m f s = f x s'"
  by (simp add: bnd_def)

lemma run_bnd_Inl: "m s = Some (Inl e, s') \<Longrightarrow> bnd m f s = Some (Inl e, s')"
  by (simp add: bnd_def)

lemma run_seqp_Inr: "m s = Some (Inr x, s') \<Longrightarrow> seqp m n s = n s'"
  by (simp add: seqp_def bnd_def)

lemma run_seqp_Inl: "m s = Some (Inl e, s') \<Longrightarrow> seqp m n s = Some (Inl e, s')"
  by (simp add: seqp_def bnd_def)

lemmas run_steps = run_bnd_Inr run_bnd_Inl run_seqp_Inr run_seqp_Inl

text \<open>A loop whose turns all succeed computes the fold of what they compute.\<close>

lemma run_foldM:
  assumes "\<And>a x s. x \<in> set xs \<Longrightarrow> \<exists>s'. f a x s = Some (Inr (g a x), s')"
  shows "\<exists>s'. foldM f a xs s = Some (Inr (foldl g a xs), s')"
  using assms
proof (induction xs arbitrary: a s)
  case (Cons x xs)
  obtain s1 where s1: "f a x s = Some (Inr (g a x), s1)"
    using Cons.prems [of x a s] by auto
  have "\<exists>s'. foldM f (g a x) xs s1 = Some (Inr (foldl g (g a x) xs), s')"
    by (rule Cons.IH) (use Cons.prems in auto)
  with s1 show ?case by (simp add: bnd_def)
qed (simp add: ret_def)

lemma bnd_Some_iff:
  "bnd m f s = Some (r, s2) \<longleftrightarrow>
     (\<exists>e. m s = Some (Inl e, s2) \<and> r = Inl e) \<or>
     (\<exists>x s1. m s = Some (Inr x, s1) \<and> f x s1 = Some (r, s2))"
  by (auto simp: bnd_def split: option.splits prod.splits sum.splits)

lemma bnd_Inr_iff:
  "bnd m f s = Some (Inr y, s2) \<longleftrightarrow>
     (\<exists>x s1. m s = Some (Inr x, s1) \<and> f x s1 = Some (Inr y, s2))"
  by (auto simp: bnd_Some_iff)

lemma seqp_Inr_iff:
  "seqp m n s = Some (Inr y, s2) \<longleftrightarrow>
     (\<exists>x s1. m s = Some (Inr x, s1) \<and> n s1 = Some (Inr y, s2))"
  by (simp add: seqp_def bnd_Inr_iff)

lemma bnd_InrE:
  assumes "bnd m f s = Some (Inr y, s2)"
  obtains x s1 where "m s = Some (Inr x, s1)" and "f x s1 = Some (Inr y, s2)"
  using assms by (auto simp: bnd_Inr_iff)

lemma seqp_InrE:
  assumes "seqp m n s = Some (Inr y, s2)"
  obtains x s1 where "m s = Some (Inr x, s1)" and "n s1 = Some (Inr y, s2)"
  using assms by (auto simp: seqp_Inr_iff)

lemma run_external [prog_simps]:
  "external f s = Some (fst (f (world s)), s\<lparr>world := snd (f (world s))\<rparr>)"
  by (simp add: external_def split_beta)

lemma run_try_finally:
  assumes "m s = Some (r, s1)" and "fin s1 = Some (Inr u, s2)"
  shows "try_finally m fin s = Some (r, s2)"
  using assms by (simp add: try_finally_def)

lemma run_try_finally_Inl:
  assumes "m s = Some (r, s1)" and "fin s1 = Some (Inl e, s2)"
  shows "try_finally m fin s = Some (Inl e, s2)"
  using assms by (simp add: try_finally_def)

lemma try_finally_Some:
  assumes "try_finally m fin s = Some (r, s2)"
  obtains r1 s1 q where "m s = Some (r1, s1)" and "fin s1 = Some (q, s2)"
    and "r = (case q of Inl e \<Rightarrow> Inl e | Inr _ \<Rightarrow> r1)"
  using assms by (auto simp: try_finally_def split: option.splits prod.splits sum.splits)

text \<open>
  Invariants of programs: \<open>keeps I m\<close> says that every run of \<open>m\<close> from a state with \<open>I\<close>
  that returns, normally or by an exception, ends in a state with \<open>I\<close>.
\<close>

definition keeps :: "('s \<Rightarrow> bool) \<Rightarrow> ('s, 'a) prog \<Rightarrow> bool" where
  "keeps I m \<longleftrightarrow> (\<forall>s r s'. I s \<longrightarrow> m s = Some (r, s') \<longrightarrow> I s')"

named_theorems keeps_intros \<open>programs that keep an invariant\<close>

lemma keepsD: "keeps I m \<Longrightarrow> I s \<Longrightarrow> m s = Some (r, s') \<Longrightarrow> I s'"
  by (auto simp: keeps_def)

lemma keeps_ret [keeps_intros]: "keeps I (ret x)"
  by (simp add: keeps_def ret_def)

lemma keeps_raise [keeps_intros]: "keeps I (raise e)"
  by (simp add: keeps_def raise_def)

lemma keeps_of_result [keeps_intros]: "keeps I (of_result r)"
  by (simp add: keeps_def of_result_def)

lemma keeps_check [keeps_intros]: "keeps I (check b)"
  by (simp add: keeps_def prog_simps)

lemma keeps_bnd [keeps_intros]:
  assumes "keeps I m" and "\<And>x. keeps I (f x)"
  shows "keeps I (bnd m f)"
  unfolding keeps_def bnd_Some_iff using assms by (blast dest: keepsD)

lemma keeps_seqp [keeps_intros]:
  "keeps I m \<Longrightarrow> keeps I n \<Longrightarrow> keeps I (seqp m n)"
  by (simp add: seqp_def keeps_bnd)

lemma keeps_try_finally [keeps_intros]:
  assumes "keeps I m" and "keeps I fin"
  shows "keeps I (try_finally m fin)"
  unfolding keeps_def
proof (intro allI impI)
  fix s r s'
  assume "I s" and "try_finally m fin s = Some (r, s')"
  then show "I s'" using assms by (elim try_finally_Some) (auto dest: keepsD)
qed

lemma keeps_try_except [keeps_intros]:
  assumes "keeps I m" and "\<And>e. keeps I (h e)"
  shows "keeps I (try_except m h)"
  unfolding keeps_def
proof (intro allI impI)
  fix s r s'
  assume I: "I s" and run: "try_except m h s = Some (r, s')"
  then obtain r1 s1 where m: "m s = Some (r1, s1)"
    by (auto simp: try_except_def split: option.splits)
  with assms(1) I have "I s1" by (rule keepsD)
  with run m show "I s'"
    using assms(2) by (cases r1) (auto simp: try_except_def dest: keepsD)
qed

lemma keeps_mapM [keeps_intros]:
  assumes "\<And>x. x \<in> set xs \<Longrightarrow> keeps I (f x)"
  shows "keeps I (mapM f xs)"
  using assms by (induction xs) (simp_all add: keeps_ret keeps_bnd)

lemma keeps_forM [keeps_intros]:
  assumes "\<And>x. x \<in> set xs \<Longrightarrow> keeps I (f x)"
  shows "keeps I (forM f xs)"
  using assms by (induction xs) (simp_all add: keeps_ret keeps_seqp)

lemma keeps_external:
  "(\<And>w. P w \<Longrightarrow> P (snd (f w))) \<Longrightarrow> keeps (\<lambda>s. P (world s)) (external f)"
  by (auto simp: keeps_def prog_simps)

lemma keeps_If [keeps_intros]:
  "keeps I m \<Longrightarrow> keeps I n \<Longrightarrow> keeps I (if b then m else n)"
  by simp

text \<open>Programs that always return.\<close>

definition always_returns :: "('s, 'a) prog \<Rightarrow> bool" where
  "always_returns m \<longleftrightarrow> (\<forall>s. \<exists>r s'. m s = Some (r, s'))"

named_theorems returns_intros \<open>programs that always return\<close>

lemma always_returnsD: "always_returns m \<Longrightarrow> \<exists>r s'. m s = Some (r, s')"
  by (simp add: always_returns_def)

lemma returns_basic [returns_intros]:
  "always_returns (ret x)" "always_returns (raise e)" "always_returns (of_result r)"
  "always_returns (check b)" "always_returns (external f)"
  by (simp_all add: always_returns_def prog_simps)

lemma returns_bnd [returns_intros]:
  assumes "always_returns m" and "\<And>x. always_returns (f x)"
  shows "always_returns (bnd m f)"
  unfolding always_returns_def
proof
  fix s
  obtain r s' where "m s = Some (r, s')" using always_returnsD [OF assms(1)] by blast
  then show "\<exists>r s'. bnd m f s = Some (r, s')"
    using always_returnsD [OF assms(2)] by (cases r) (simp_all add: bnd_def)
qed

lemma returns_seqp [returns_intros]:
  "always_returns m \<Longrightarrow> always_returns n \<Longrightarrow> always_returns (seqp m n)"
  by (simp add: seqp_def returns_bnd)

lemma returns_try_finally [returns_intros]:
  assumes "always_returns m" and "always_returns fin"
  shows "always_returns (try_finally m fin)"
  unfolding always_returns_def
proof
  fix s
  obtain r s1 where m: "m s = Some (r, s1)" using always_returnsD [OF assms(1)] by blast
  obtain q s2 where "fin s1 = Some (q, s2)" using always_returnsD [OF assms(2)] by blast
  with m show "\<exists>r s'. try_finally m fin s = Some (r, s')"
    by (cases q) (simp_all add: try_finally_def)
qed

lemma returns_try_except [returns_intros]:
  assumes "always_returns m" and "\<And>e. always_returns (h e)"
  shows "always_returns (try_except m h)"
  unfolding always_returns_def
proof
  fix s
  obtain r s1 where m: "m s = Some (r, s1)" using always_returnsD [OF assms(1)] by blast
  then show "\<exists>r s'. try_except m h s = Some (r, s')"
    using always_returnsD [OF assms(2)] by (cases r) (simp_all add: try_except_def)
qed

lemma returns_mapM [returns_intros]:
  "(\<And>x. always_returns (f x)) \<Longrightarrow> always_returns (mapM f xs)"
  by (induction xs) (simp_all add: returns_basic returns_bnd)

lemma returns_forM [returns_intros]:
  "(\<And>x. always_returns (f x)) \<Longrightarrow> always_returns (forM f xs)"
  by (induction xs) (simp_all add: returns_basic returns_seqp)

lemma returns_If [returns_intros]:
  "always_returns m \<Longrightarrow> always_returns n \<Longrightarrow> always_returns (if b then m else n)"
  by simp

section \<open>Context managers\<close>

text \<open>
  A generator-based context manager (\<^verbatim>\<open>@contextlib.contextmanager\<close>): entering it runs the code
  up to \<^verbatim>\<open>yield\<close> and gives the yielded value together with the code after it, which runs when the
  \<^verbatim>\<open>with\<close> block is left, on the normal and on the exceptional way out.
\<close>

type_synonym ('s, 'v) cm = "('s, 'v \<times> ('s, unit) prog) prog"

definition with_cm :: "('s, 'v) cm \<Rightarrow> ('v \<Rightarrow> ('s, 'a) prog) \<Rightarrow> ('s, 'a) prog" where
  "with_cm c body = bnd c (\<lambda>(v, leave). try_finally (body v) leave)"

text \<open>
  A context manager whose code is inside the \<^verbatim>\<open>with\<close> block of another one. If the inner one cannot be
  entered, the outer one is left; otherwise both are left together, the inner one first.
\<close>

definition nest_cm :: "('s, 'u) cm \<Rightarrow> ('u \<Rightarrow> ('s, 'v) cm) \<Rightarrow> ('s, 'v) cm" where
  "nest_cm outer inner = bnd outer (\<lambda>(u, leave_outer).
     bnd (try_except (inner u) (\<lambda>e. seqp leave_outer (raise e))) (\<lambda>(v, leave_inner).
     ret (v, try_finally leave_inner leave_outer)))"

lemma try_finally_assoc:
  "try_finally (try_finally m f) g = try_finally m (try_finally f g)"
proof
  fix s
  show "try_finally (try_finally m f) g s = try_finally m (try_finally f g) s"
  proof (cases "m s")
    case (Some p)
    obtain r s1 where m: "m s = Some (r, s1)" using Some by (cases p) simp
    show ?thesis
    proof (cases "f s1")
      case None
      with m show ?thesis by (simp add: try_finally_def)
    next
      case (Some q)
      then obtain q1 s2 where f: "f s1 = Some (q1, s2)" by (cases q) simp
      show ?thesis using m f
        by (cases q1; cases "g s2") (auto simp: try_finally_def split: sum.split)
    qed
  qed (simp add: try_finally_def)
qed

lemma with_nest_cm: "with_cm (nest_cm outer inner) body = with_cm outer (\<lambda>u. with_cm (inner u) body)"
proof
  fix s
  have inner: "bnd (bnd (try_except (inner u) (\<lambda>e. seqp lo (raise e))) (\<lambda>(v, li). ret (v, try_finally li lo)))
        (\<lambda>(v, leave). try_finally (body v) leave) s1 =
      try_finally (bnd (inner u) (\<lambda>(v, leave). try_finally (body v) leave)) lo s1" for u lo s1
  proof (cases "inner u s1")
    case (Some p)
    then obtain q s2 where i: "inner u s1 = Some (q, s2)" by (cases p) simp
    show ?thesis
    proof (cases q)
      case (Inl e)
      with i show ?thesis
        by (cases "lo s2") (auto simp: bnd_def try_except_def try_finally_def seqp_def raise_def split: sum.split)
    next
      case (Inr vl)
      obtain v li where vl: "vl = (v, li)" by (cases vl)
      have "bnd (bnd (try_except (inner u) (\<lambda>e. seqp lo (raise e))) (\<lambda>(v, li). ret (v, try_finally li lo)))
          (\<lambda>(v, leave). try_finally (body v) leave) s1 = try_finally (body v) (try_finally li lo) s2"
        using i Inr by (simp add: vl bnd_def try_except_def ret_def)
      moreover have "try_finally (bnd (inner u) (\<lambda>(v, leave). try_finally (body v) leave)) lo s1 =
          try_finally (try_finally (body v) li) lo s2"
        using i Inr by (simp add: vl bnd_def try_finally_def)
      ultimately show ?thesis by (simp add: try_finally_assoc)
    qed
  qed (simp add: bnd_def try_except_def try_finally_def)
  show "with_cm (nest_cm outer inner) body s = with_cm outer (\<lambda>u. with_cm (inner u) body) s"
  proof (cases "outer s")
    case (Some p)
    then obtain q s1 where run: "outer s = Some (q, s1)" by (cases p) simp
    then show ?thesis
      using inner by (cases q) (auto simp: with_cm_def nest_cm_def bnd_def split: prod.split)
  qed (simp add: with_cm_def nest_cm_def bnd_def)
qed

lemma try_finally_Inr:
  assumes "try_finally m fin s = Some (Inr v, s')"
  shows "\<exists>s1. m s = Some (Inr v, s1)"
  using assms by (auto simp: try_finally_def split: option.splits prod.splits sum.splits)

lemma with_cm_Inr:
  assumes "with_cm c body s = Some (Inr v, s')"
  shows "\<exists>x leave s1 s2. c s = Some (Inr (x, leave), s1) \<and> body x s1 = Some (Inr v, s2)"
  using assms unfolding with_cm_def bnd_Inr_iff by (auto dest!: try_finally_Inr)

text \<open>
  \<^verbatim>\<open>contextlib.ExitStack\<close>: leaving it calls the collected exits, the last entered first. An
  exception raised by one exit replaces the one in flight; the remaining exits still run.
\<close>

fun unwind :: "('s, unit) prog list \<Rightarrow> 'a result \<Rightarrow> 's \<Rightarrow> ('a result \<times> 's) option" where
  "unwind [] r s = Some (r, s)"
| "unwind (leave # rest) r s = (case leave s of
       None \<Rightarrow> None
     | Some (Inl e, s') \<Rightarrow> unwind rest (Inl e) s'
     | Some (Inr _, s') \<Rightarrow> unwind rest r s')"

fun with_stack ::
  "('s, 'v) cm list \<Rightarrow> 'v list \<Rightarrow> ('s, unit) prog list \<Rightarrow> ('v list \<Rightarrow> ('s, 'a) prog) \<Rightarrow> ('s, 'a) prog"
where
  "with_stack [] vs stack body s = (case body (rev vs) s of
       None \<Rightarrow> None
     | Some (r, s') \<Rightarrow> unwind stack r s')"
| "with_stack (c # cs) vs stack body s = (case c s of
       None \<Rightarrow> None
     | Some (Inl e, s') \<Rightarrow> unwind stack (Inl e) s'
     | Some (Inr (v, leave), s') \<Rightarrow> with_stack cs (v # vs) (leave # stack) body s')"

text \<open>Entering through the stack is entering the managers one inside the other.\<close>

lemma unwind_append:
  "unwind (stack @ rest) r s =
     (case unwind stack r s of None \<Rightarrow> None | Some (r', s') \<Rightarrow> unwind rest r' s')"
  by (induction stack arbitrary: r s) (auto split: option.splits prod.splits sum.splits)

lemma with_stack_push:
  "with_stack cs (vs @ us) (stack @ rest) body s =
     (case with_stack cs vs stack (\<lambda>ws. body (rev us @ ws)) s of
        None \<Rightarrow> None
      | Some (r, s') \<Rightarrow> unwind rest r s')"
proof (induction cs arbitrary: vs stack s)
  case Nil
  show ?case
    by (simp add: unwind_append split: option.split prod.split)
next
  case (Cons c cs)
  have IH: "with_stack cs (v # vs @ us) (l # stack @ rest) body s' =
      (case with_stack cs (v # vs) (l # stack) (\<lambda>ws. body (rev us @ ws)) s' of
        None \<Rightarrow> None | Some (r, s') \<Rightarrow> unwind rest r s')" for v l s'
    using Cons.IH [of "v # vs" "l # stack" s'] by simp
  show ?case
    by (simp add: unwind_append IH split: option.split prod.split sum.split)
qed

lemma with_stack_Cons:
  "with_stack (c # cs) [] [] body =
     with_cm c (\<lambda>v. with_stack cs [] [] (\<lambda>vs. body (v # vs)))"
proof
  fix s
  have push: "with_stack cs [v] [leave] body s' =
      try_finally (with_stack cs [] [] (\<lambda>vs. body (v # vs))) leave s'" for v leave s'
  proof -
    have "with_stack cs [v] [leave] body s' =
        (case with_stack cs [] [] (\<lambda>ws. body (v # ws)) s' of
          None \<Rightarrow> None | Some (r, s') \<Rightarrow> unwind [leave] r s')"
      using with_stack_push [of cs "[]" "[v]" "[]" "[leave]" body s'] by simp
    then show ?thesis
      by (simp only: try_finally_def unwind.simps)
  qed
  show "with_stack (c # cs) [] [] body s =
      with_cm c (\<lambda>v. with_stack cs [] [] (\<lambda>vs. body (v # vs))) s"
    by (simp add: with_cm_def bnd_def push split: option.split prod.split sum.split)
qed

lemma with_stack_Nil: "with_stack [] [] [] body = body []"
  by (rule ext) (auto split: option.splits prod.splits)

text \<open>A context manager that keeps an invariant when it is entered and when it is left.\<close>

definition keeps_cm :: "('s \<Rightarrow> bool) \<Rightarrow> ('s, 'v) cm \<Rightarrow> bool" where
  "keeps_cm I c \<longleftrightarrow> keeps I c \<and> (\<forall>s v leave s'. c s = Some (Inr (v, leave), s') \<longrightarrow> keeps I leave)"

lemma keeps_with_cm [keeps_intros]:
  assumes c: "keeps_cm I c" and body: "\<And>v. keeps I (body v)"
  shows "keeps I (with_cm c body)"
  unfolding keeps_def
proof (intro allI impI)
  fix s r s'
  assume I: "I s" and run: "with_cm c body s = Some (r, s')"
  then consider e where "c s = Some (Inl e, s')"
    | v leave s1 where "c s = Some (Inr (v, leave), s1)" "try_finally (body v) leave s1 = Some (r, s')"
    unfolding with_cm_def bnd_Some_iff by auto
  then show "I s'"
  proof cases
    case 1
    then show ?thesis using c I by (auto simp: keeps_cm_def dest: keepsD)
  next
    case 2
    from 2(1) have "keeps I leave" using c unfolding keeps_cm_def by blast
    moreover have "I s1" using c I 2(1) by (auto simp: keeps_cm_def dest: keepsD)
    ultimately have "keeps I leave" "I s1" .
    with 2(2) body show ?thesis by (blast dest: keepsD [OF keeps_try_finally])
  qed
qed

lemma returns_with_cm:
  assumes "always_returns c" and "\<And>s v leave s'. c s = Some (Inr (v, leave), s') \<Longrightarrow> always_returns leave"
    and "\<And>v. always_returns (body v)"
  shows "always_returns (with_cm c body)"
  unfolding always_returns_def
proof
  fix s
  obtain r s1 where c: "c s = Some (r, s1)" using always_returnsD [OF assms(1)] by blast
  show "\<exists>r s'. with_cm c body s = Some (r, s')"
  proof (cases r)
    case (Inl e)
    with c show ?thesis by (simp add: with_cm_def bnd_def)
  next
    case (Inr p)
    obtain v leave where p: "p = (v, leave)" by (cases p)
    have "c s = Some (Inr (v, leave), s1)" using c Inr p by simp
    from always_returnsD [OF returns_try_finally [OF assms(3) assms(2) [OF this]]]
    obtain q s2 where "try_finally (body v) leave s1 = Some (q, s2)"
      by metis
    with c Inr p show ?thesis by (simp add: with_cm_def bnd_def)
  qed
qed

lemma keeps_with_stack [keeps_intros]:
  assumes "\<And>c. c \<in> set cs \<Longrightarrow> keeps_cm I c" and "\<And>vs. keeps I (body vs)"
  shows "keeps I (with_stack cs [] [] body)"
  using assms
proof (induction cs arbitrary: body)
  case Nil
  then show ?case by (simp only: with_stack_Nil)
next
  case (Cons c cs)
  then show ?case by (simp only: with_stack_Cons) (intro keeps_with_cm; simp)
qed

section \<open>Loops\<close>

text \<open>
  A \<^verbatim>\<open>while\<close> loop, given by one turn of it: \<open>Inl\<close> leaves the loop with a result, \<open>Inr\<close> goes on. A
  loop that never ends has the value \<open>None\<close>.
\<close>

partial_function (option) iterate :: "('x \<Rightarrow> 'r + 'x) \<Rightarrow> 'x \<Rightarrow> 'r option" where
  "iterate step x = (case step x of Inl r \<Rightarrow> Some r | Inr y \<Rightarrow> iterate step y)"

text \<open>\<open>turns step n x r\<close>: from \<open>x\<close> the loop goes on \<open>n\<close> times and then leaves with \<open>r\<close>.\<close>

inductive turns :: "('x \<Rightarrow> 'r + 'x) \<Rightarrow> nat \<Rightarrow> 'x \<Rightarrow> 'r \<Rightarrow> bool" for step where
  leave: "step x = Inl r \<Longrightarrow> turns step 0 x r"
| go_on: "step x = Inr y \<Longrightarrow> turns step n y r \<Longrightarrow> turns step (Suc n) x r"

inductive_cases turnsE: "turns step n x r"

lemma iterate_turns: "turns step n x r \<Longrightarrow> iterate step x = Some r"
  by (induction rule: turns.induct) (simp_all add: iterate.simps)

lemma iterate_Some_turns:
  fixes step :: "'x \<Rightarrow> 'r + 'x"
  assumes "iterate step x = Some r"
  shows "\<exists>n. turns step n x r"
proof -
  have "(case (step, x) of (step, x) \<Rightarrow> \<lambda>r. \<exists>n. turns step n x r) r"
  proof (rule iterate.raw_induct [where P = "\<lambda>step x r. \<exists>n. turns step n x r"])
    show "(case (step, x) of (step, x) \<Rightarrow> iterate step x) = Some r"
      using assms by simp
  next
    fix f :: "('x \<Rightarrow> 'r + 'x) \<Rightarrow> 'x \<Rightarrow> 'r option" and step x r
    assume IH: "\<And>step x r. f step x = Some r \<Longrightarrow> \<exists>n. turns step n x r"
      and eq: "(case step x of Inl r \<Rightarrow> Some r | Inr y \<Rightarrow> f step y) = Some r"
    show "\<exists>n. turns step n x r"
    proof (cases "step x")
      case (Inl q)
      with eq show ?thesis by (auto intro: turns.leave)
    next
      case (Inr y)
      with eq IH [of step y r] show ?thesis by (auto intro: turns.go_on)
    qed
  qed
  then show ?thesis by simp
qed

text \<open>What holds at the start and is kept by every turn holds in the turn that leaves the loop.\<close>

lemma iterate_invariant:
  assumes "iterate step x = Some r" and "I x"
    and "\<And>y z. I y \<Longrightarrow> step y = Inr z \<Longrightarrow> I z"
  shows "\<exists>y. I y \<and> step y = Inl r"
proof -
  from iterate_Some_turns [OF assms(1)] obtain n where "turns step n x r" ..
  then show ?thesis
    using assms(2) by (induction rule: turns.induct) (auto intro: assms(3))
qed

text \<open>A loop whose turns keep an invariant, with parameters that depend on the first state.\<close>

lemma keeps_iterate:
  assumes "\<And>q s s'. I s \<Longrightarrow> step q s = Inr s' \<Longrightarrow> I s'"
    and "\<And>q s r s'. I s \<Longrightarrow> step q s = Inl (r, s') \<Longrightarrow> I s'"
  shows "keeps I (\<lambda>s. iterate (step (f s)) s)"
  unfolding keeps_def
proof (intro allI impI)
  fix s r s'
  assume "I s" and run: "iterate (step (f s)) s = Some (r, s')"
  have "\<exists>y. I y \<and> step (f s) y = Inl (r, s')"
    by (rule iterate_invariant [where I = I and x = s]) (use run \<open>I s\<close> assms(1) in blast)+
  then show "I s'" by (auto intro: assms(2))
qed

text \<open>
  The contract of a polling loop. Under the condition \<open>ok\<close> on its parameters every turn that goes
  on leaves less time than there was before; such a loop returns, after a bounded number of turns.
\<close>

locale polling =
  fixes ok :: "'p \<Rightarrow> bool"
    and step :: "'p \<Rightarrow> 'x \<Rightarrow> 'r + 'x"
    and time_left :: "'p \<Rightarrow> 'x \<Rightarrow> nat"
  assumes progress: "ok p \<Longrightarrow> step p x = Inr y \<Longrightarrow> time_left p y < time_left p x"
begin

lemma bounded:
  assumes "ok p"
  shows "\<exists>n r. n \<le> time_left p x \<and> turns (step p) n x r"
proof (induction "time_left p x" arbitrary: x rule: less_induct)
  case less
  show ?case
  proof (cases "step p x")
    case (Inl r)
    then show ?thesis by (blast intro: turns.leave)
  next
    case (Inr y)
    then have lt: "time_left p y < time_left p x"
      by (rule progress [OF assms])
    then obtain n r where "n \<le> time_left p y" and "turns (step p) n y r"
      using less by blast
    with Inr lt show ?thesis
      by (intro exI [of _ "Suc n"] exI [of _ r]) (auto intro: turns.go_on)
  qed
qed

lemma returns: "ok p \<Longrightarrow> \<exists>r. iterate (step p) x = Some r"
  using bounded [of p x] by (auto dest: iterate_turns)

end

end
