(* ===== verification/PyStr.thy ===== *)
theory PyStr
  imports WB_Prelude "HOL-Library.Sublist"
begin

text \<open>
  The string operations of Python that the plugin uses, on strings of code points below 256 (one
  \<open>char\<close> each): \<^verbatim>\<open>strip\<close>, \<^verbatim>\<open>split\<close>, \<^verbatim>\<open>join\<close>, \<^verbatim>\<open>in\<close>, \<^verbatim>\<open>replace\<close>, \<^verbatim>\<open>startswith\<close>, \<^verbatim>\<open>lower\<close>,
  \<^verbatim>\<open>splitlines\<close>, \<^verbatim>\<open>StringIO.readlines\<close>, \<^verbatim>\<open>int(s)\<close> and \<^verbatim>\<open>str(n)\<close>. The lemmas are the facts
  about them that the components share: splitting undoes joining, reading a number undoes
  printing it, and what stripping leaves alone.
\<close>

section \<open>Characters\<close>

abbreviation newline :: char where "newline \<equiv> CHR 0x0A"

definition py_isspace :: "char \<Rightarrow> bool" where
  "py_isspace c = (let n = (of_char c :: nat) in
     (9 \<le> n \<and> n \<le> 13) \<or> (28 \<le> n \<and> n \<le> 32) \<or> n = 133 \<or> n = 160)"

text \<open>The white space that \<^verbatim>\<open>int\<close> skips is smaller: the separators 28 to 31 are not part of it.\<close>

definition int_isspace :: "char \<Rightarrow> bool" where
  "int_isspace c = (let n = (of_char c :: nat) in
     (9 \<le> n \<and> n \<le> 13) \<or> n = 32 \<or> n = 133 \<or> n = 160)"

definition is_digit :: "char \<Rightarrow> bool" where
  "is_digit c = (let n = (of_char c :: nat) in 48 \<le> n \<and> n \<le> 57)"

definition digit_val :: "char \<Rightarrow> int" where
  "digit_val c = int (of_char c) - 48"

definition digit_char :: "nat \<Rightarrow> char" where
  "digit_char d = char_of (48 + d)"

lemma of_digit_char [simp]: "d < 10 \<Longrightarrow> (of_char (digit_char d) :: nat) = 48 + d"
  by (simp add: digit_char_def)

lemma is_digit_digit_char [simp]: "d < 10 \<Longrightarrow> is_digit (digit_char d)"
  by (simp add: is_digit_def)

lemma digit_val_digit_char [simp]: "d < 10 \<Longrightarrow> digit_val (digit_char d) = int d"
  by (simp add: digit_val_def)

lemma int_space_is_space: "int_isspace c \<Longrightarrow> py_isspace c"
  by (auto simp: int_isspace_def py_isspace_def Let_def)

lemma digit_not_space: "is_digit c \<Longrightarrow> \<not> py_isspace c"
  by (auto simp: is_digit_def py_isspace_def Let_def)

section \<open>Stripping\<close>

definition strip_by :: "(char \<Rightarrow> bool) \<Rightarrow> string \<Rightarrow> string" where
  "strip_by p s = rev (dropWhile p (rev (dropWhile p s)))"

abbreviation py_strip :: "string \<Rightarrow> string" where
  "py_strip \<equiv> strip_by py_isspace"

definition py_lstrip :: "string \<Rightarrow> string" where
  "py_lstrip s = dropWhile py_isspace s"

lemma strip_by_id:
  assumes "\<And>c. c \<in> set s \<Longrightarrow> \<not> p c"
  shows "strip_by p s = s"
proof -
  have none: "dropWhile p t = t" if "\<And>c. c \<in> set t \<Longrightarrow> \<not> p c" for t
    using that by (cases t) auto
  show ?thesis
    using none [of s] none [of "rev s"] assms by (simp add: strip_by_def)
qed

lemma strip_by_snoc:
  assumes "p c"
  shows "strip_by p (s @ [c]) = strip_by p s"
proof (cases "\<forall>x \<in> set s. p x")
  case True
  with assms show ?thesis by (simp add: strip_by_def dropWhile_append2 dropWhile_eq_Nil_conv [THEN iffD2])
next
  case False
  then have "dropWhile p (s @ [c]) = dropWhile p s @ [c]" by auto
  with assms show ?thesis by (simp add: strip_by_def)
qed

lemma strip_by_spaces:
  assumes "\<And>c. c \<in> set t \<Longrightarrow> p c"
  shows "strip_by p (s @ t) = strip_by p s"
  using assms
proof (induction t rule: rev_induct)
  case (snoc c t)
  then show ?case using strip_by_snoc [of p c "s @ t"] by simp
qed simp

text \<open>\<^verbatim>\<open>s.rstrip()\<close>\<close>

definition py_rstrip :: "string \<Rightarrow> string" where
  "py_rstrip s = rev (dropWhile py_isspace (rev s))"

lemma strip_rstrip: "py_strip (py_rstrip s) = py_strip s"
proof -
  have "rev (takeWhile py_isspace (rev s) @ dropWhile py_isspace (rev s)) = s"
    by (simp only: takeWhile_dropWhile_id rev_rev_ident)
  then have "s = py_rstrip s @ rev (takeWhile py_isspace (rev s))"
    unfolding py_rstrip_def rev_append by (rule sym)
  moreover have "\<And>c. c \<in> set (rev (takeWhile py_isspace (rev s))) \<Longrightarrow> py_isspace c"
    by (auto dest: set_takeWhileD)
  ultimately show ?thesis
    using strip_by_spaces [of "rev (takeWhile py_isspace (rev s))" py_isspace "py_rstrip s"] by metis
qed

lemma strip_visible:
  assumes "\<not> py_isspace x" and "\<not> py_isspace c"
  shows "py_strip (x # u @ c # v) = x # u @ c # py_rstrip v"
proof -
  have "dropWhile py_isspace (rev v @ c # rev u @ [x]) = dropWhile py_isspace (rev v) @ c # rev u @ [x]"
    using assms(2) by (induction v rule: rev_induct) auto
  with assms(1) show ?thesis by (simp add: strip_by_def py_rstrip_def)
qed

lemma set_strip_by: "set (strip_by p s) \<subseteq> set s"
proof -
  have sub: "set (dropWhile p t) \<subseteq> set t" for t
    by (rule subsetI) (rule set_dropWhileD)
  show ?thesis
    using sub [of s] sub [of "rev (dropWhile p s)"] by (simp add: strip_by_def)
qed

lemma strip_by_Nil [simp]: "strip_by p [] = []"
  by (simp add: strip_by_def)

lemma strip_by_append_space:
  assumes "\<And>c. c \<in> set s \<Longrightarrow> \<not> p c" and "\<And>c. c \<in> set t \<Longrightarrow> p c"
  shows "strip_by p (s @ t) = s"
proof (cases s)
  case Nil
  with assms(2) show ?thesis by (auto simp: strip_by_def dest: set_dropWhileD)
next
  case (Cons x xs)
  have "dropWhile p (s @ t) = s @ t"
    using assms(1) Cons by simp
  moreover have "dropWhile p (rev t @ rev s) = dropWhile p (rev s)"
    using assms(2) by (intro dropWhile_append2) simp
  moreover have "rev (dropWhile p (rev s)) = s"
    using strip_by_id [of s p] assms(1) Cons by (simp add: strip_by_def)
  ultimately show ?thesis by (simp add: strip_by_def)
qed

section \<open>Splitting and joining\<close>

text \<open>\<^verbatim>\<open>s.split(c)\<close>, \<^verbatim>\<open>s.split(c, 1)\<close> and \<^verbatim>\<open>s.split()\<close>.\<close>

fun split_on :: "char \<Rightarrow> string \<Rightarrow> string list" where
  "split_on c [] = [[]]"
| "split_on c (x # xs) =
     (if x = c then [] # split_on c xs
      else (case split_on c xs of [] \<Rightarrow> [[x]] | y # ys \<Rightarrow> (x # y) # ys))"

definition split_once :: "char \<Rightarrow> string \<Rightarrow> string list" where
  "split_once c s =
     (if c \<in> set s
      then [takeWhile (\<lambda>x. x \<noteq> c) s, tl (dropWhile (\<lambda>x. x \<noteq> c) s)]
      else [s])"

fun split_words :: "string \<Rightarrow> string \<Rightarrow> string list" where
  "split_words acc [] = (if acc = [] then [] else [rev acc])"
| "split_words acc (c # cs) =
     (if py_isspace c
      then (if acc = [] then split_words [] cs else rev acc # split_words [] cs)
      else split_words (c # acc) cs)"

abbreviation py_split :: "string \<Rightarrow> string list" where
  "py_split \<equiv> split_words []"

fun py_join :: "string \<Rightarrow> string list \<Rightarrow> string" where
  "py_join sep [] = []"
| "py_join sep [x] = x"
| "py_join sep (x # y # zs) = x @ sep @ py_join sep (y # zs)"

lemma split_on_nonempty [simp]: "split_on c s \<noteq> []"
  by (induction s) (auto split: list.splits)

lemma split_on_absent: "c \<notin> set s \<Longrightarrow> split_on c s = [s]"
  by (induction s) auto

lemma split_on_append:
  "c \<notin> set s \<Longrightarrow> split_on c (s @ c # t) = s # split_on c t"
  by (induction s) auto

lemma split_on_join:
  assumes "xs \<noteq> []" and "\<And>x. x \<in> set xs \<Longrightarrow> c \<notin> set x"
  shows "split_on c (py_join [c] xs) = xs"
  using assms
  by (induction "[c]" xs rule: py_join.induct) (auto simp: split_on_absent split_on_append)

lemma split_on_parts: "x \<in> set (split_on c s) \<Longrightarrow> c \<notin> set x"
proof (induction s arbitrary: x)
  case Nil
  then show ?case by simp
next
  case (Cons a s)
  then show ?case
    by (cases "split_on c s") (auto split: if_splits)
qed

lemma join_split_on: "py_join [c] (split_on c s) = s"
proof (induction s)
  case Nil
  show ?case by simp
next
  case (Cons a s)
  obtain y ys where sp: "split_on c s = y # ys"
    by (cases "split_on c s") auto
  show ?case
    using Cons sp by (cases ys) auto
qed

lemma split_on_chars: "x \<in> set (split_on c s) \<Longrightarrow> set x \<subseteq> set s"
proof (induction s arbitrary: x)
  case Nil
  then show ?case by simp
next
  case (Cons a s)
  then show ?case
    by (cases "split_on c s") (fastforce split: if_splits)+
qed

lemma split_once_absent: "c \<notin> set s \<Longrightarrow> split_once c s = [s]"
  by (simp add: split_once_def)

lemma split_once_present:
  "c \<notin> set s \<Longrightarrow> split_once c (s @ c # t) = [s, t]"
  by (simp add: split_once_def takeWhile_append dropWhile_append)

lemma split_once_cases:
  obtains "c \<notin> set s" and "split_once c s = [s]"
  | a b where "s = a @ c # b" and "c \<notin> set a" and "split_once c s = [a, b]"
proof (cases "c \<in> set s")
  case True
  then obtain a b where "s = a @ c # b" and "c \<notin> set a"
    by (meson split_list_first)
  then show ?thesis using that(2) split_once_present by blast
next
  case False
  then show ?thesis using that(1) by (simp add: split_once_absent)
qed

text \<open>Words: what splitting at white space gives back.\<close>

definition is_word :: "string \<Rightarrow> bool" where
  "is_word w \<longleftrightarrow> w \<noteq> [] \<and> (\<forall>c \<in> set w. \<not> py_isspace c)"

lemma split_words_word:
  "\<forall>c \<in> set w. \<not> py_isspace c \<Longrightarrow> split_words acc (w @ s) = split_words (rev w @ acc) s"
  by (induction w arbitrary: acc) auto

lemma split_words_spaces:
  "\<forall>c \<in> set t. py_isspace c \<Longrightarrow> split_words [] (t @ s) = split_words [] s"
  by (induction t) auto

lemma py_split_Cons:
  assumes "is_word w" and "py_isspace c"
  shows "py_split (w @ c # s) = w # py_split s"
  using assms split_words_word [of w "[]" "c # s"] by (auto simp: is_word_def)

lemma py_split_word: "is_word w \<Longrightarrow> py_split w = [w]"
  using split_words_word [of w "[]" "[]"] by (auto simp: is_word_def)

lemma space_isspace [simp]: "py_isspace CHR '' ''"
  by (simp add: py_isspace_def)

lemma newline_isspace [simp]: "py_isspace newline"
  by (simp add: py_isspace_def)

lemma py_split_join:
  assumes "\<And>w. w \<in> set ws \<Longrightarrow> is_word w"
  shows "py_split (py_join '' '' ws) = ws"
  using assms
  by (induction "'' ''" ws rule: py_join.induct) (auto simp: py_split_word py_split_Cons)

section \<open>Substrings, prefixes and replacement\<close>

text \<open>\<^verbatim>\<open>s.lower()\<close>: the capital letters below 256 stand 32 places before the small ones.\<close>

definition lower_char :: "char \<Rightarrow> char" where
  "lower_char c = (let n = of_char c :: nat
     in if 65 \<le> n \<and> n \<le> 90 \<or> 192 \<le> n \<and> n \<le> 222 \<and> n \<noteq> 215 then char_of (n + 32) else c)"

definition py_lower :: "string \<Rightarrow> string" where
  "py_lower s = map lower_char s"

definition py_in :: "string \<Rightarrow> string \<Rightarrow> bool" where
  "py_in sub s \<longleftrightarrow> sublist sub s"

definition py_startswith :: "string \<Rightarrow> string \<Rightarrow> bool" where
  "py_startswith p s \<longleftrightarrow> prefix p s"

text \<open>\<^verbatim>\<open>s.replace(old, new)\<close> for a non-empty \<open>old\<close>: leftmost matches, without overlap.\<close>

function py_replace :: "string \<Rightarrow> string \<Rightarrow> string \<Rightarrow> string" where
  "py_replace old new s =
     (if old = [] \<or> s = [] then s
      else if prefix old s then new @ py_replace old new (drop (length old) s)
      else hd s # py_replace old new (tl s))"
  by pat_completeness auto
termination
  by (relation "measure (\<lambda>(old, new, s). length s)") auto

declare py_replace.simps [simp del]

lemma py_replace_Nil [simp]: "py_replace old new [] = []"
  by (simp add: py_replace.simps)

lemma py_replace_absent:
  assumes "\<not> sublist old s"
  shows "py_replace old new s = s"
  using assms
proof (induction s)
  case Nil
  show ?case by simp
next
  case (Cons c s)
  from Cons.prems have "\<not> prefix old (c # s)" and "\<not> sublist old s"
    by (auto simp: sublist_Cons_right)
  with Cons.IH show ?case
    by (simp add: py_replace.simps [of old new "c # s"])
qed

lemma py_replace_prefix:
  "old \<noteq> [] \<Longrightarrow> py_replace old new (old @ s) = new @ py_replace old new s"
  by (subst py_replace.simps) simp

section \<open>Lines\<close>

text \<open>\<^verbatim>\<open>StringIO(s).readlines()\<close> keeps the line ends; \<^verbatim>\<open>s.splitlines()\<close> drops them.\<close>

fun py_readlines :: "string \<Rightarrow> string list" where
  "py_readlines [] = []"
| "py_readlines (c # cs) =
     (if c = newline then [newline] # py_readlines cs
      else (case py_readlines cs of [] \<Rightarrow> [[c]] | l # ls \<Rightarrow> (c # l) # ls))"

definition is_line_end :: "char \<Rightarrow> bool" where
  "is_line_end c = (let n = (of_char c :: nat) in
     (10 \<le> n \<and> n \<le> 13) \<or> (28 \<le> n \<and> n \<le> 30) \<or> n = 133)"

fun py_splitlines :: "string \<Rightarrow> string list" where
  "py_splitlines [] = []"
| "py_splitlines [c] = (if is_line_end c then [[]] else [[c]])"
| "py_splitlines (c # d # cs) =
     (if c = CHR 0x0D \<and> d = newline then [] # py_splitlines cs
      else if is_line_end c then [] # py_splitlines (d # cs)
      else (case py_splitlines (d # cs) of [] \<Rightarrow> [[c]] | l # ls \<Rightarrow> (c # l) # ls))"

lemma readlines_line:
  "newline \<notin> set l \<Longrightarrow> py_readlines (l @ newline # s) = (l @ [newline]) # py_readlines s"
  by (induction l) auto

lemma readlines_concat:
  assumes "\<And>l. l \<in> set ls \<Longrightarrow> newline \<notin> set l"
  shows "py_readlines (concat (map (\<lambda>l. l @ [newline]) ls)) = map (\<lambda>l. l @ [newline]) ls"
  using assms by (induction ls) (auto simp: readlines_line)

lemma py_in_snoc: "c \<notin> set sub \<Longrightarrow> py_in sub (s @ [c]) = py_in sub s"
  unfolding py_in_def
  by (auto simp: sublist_snoc suffix_def) (metis append_is_Nil_conv in_set_conv_decomp last_appendR last_in_set last_snoc sublist_Nil_left)

lemma py_in_append: "py_in sub (a @ sub @ b)"
  by (simp add: py_in_def)

lemma split_on_lines:
  assumes "\<And>l. l \<in> set ls \<Longrightarrow> c \<notin> set l" and "c \<notin> set x"
  shows "split_on c (concat (map (\<lambda>l. l @ [c]) ls) @ x) = ls @ [x]"
  using assms by (induction ls) (simp_all add: split_on_append split_on_absent)

text \<open>
  The contract of a report: a text made of lines, each of which tells one item, is read line by
  line, and every line has the effect of its item on what has been read so far.
\<close>

locale line_report =
  fixes item_ok :: "'i \<Rightarrow> bool"
    and render :: "'i \<Rightarrow> string"
    and line_step :: "'a \<Rightarrow> string \<Rightarrow> 'a result"
    and tell :: "'i \<Rightarrow> 'a \<Rightarrow> 'a"
  assumes one_line: "item_ok i \<Longrightarrow> newline \<notin> set (render i)"
    and line_law: "item_ok i \<Longrightarrow> line_step a (render i @ [newline]) = Inr (tell i a)"
begin

lemma read_report:
  assumes "list_all item_ok items"
  shows "fold_res line_step a (py_readlines (concat (map (\<lambda>i. render i @ [newline]) items))) =
    Inr (fold tell items a)"
proof -
  have "newline \<notin> set l" if "l \<in> set (map render items)" for l
    using that assms by (auto simp: list_all_iff dest: one_line)
  then have "py_readlines (concat (map (\<lambda>i. render i @ [newline]) items)) =
      map (\<lambda>i. render i @ [newline]) items"
    using readlines_concat [of "map render items"] by (simp add: comp_def)
  moreover have "fold_res line_step a (map (\<lambda>i. render i @ [newline]) items) =
      Inr (fold tell items a)"
    using assms by (induction items arbitrary: a) (simp_all add: line_law)
  ultimately show ?thesis by simp
qed

end

section \<open>Numbers\<close>

text \<open>
  \<^verbatim>\<open>int(s)\<close> in base 10: surrounding white space, an optional sign, then digits with single
  underscores between them. \<open>None\<close> is the \<^verbatim>\<open>ValueError\<close>.
\<close>

fun parse_digits :: "bool \<Rightarrow> int \<Rightarrow> string \<Rightarrow> int option" where
  "parse_digits prev acc [] = (if prev then Some acc else None)"
| "parse_digits prev acc (c # cs) =
     (if is_digit c then parse_digits True (acc * 10 + digit_val c) cs
      else if c = CHR ''_'' \<and> prev then parse_digits False acc cs
      else None)"

definition py_int :: "string \<Rightarrow> int option" where
  "py_int s = (case strip_by int_isspace s of
       [] \<Rightarrow> None
     | c # cs \<Rightarrow>
         (if c = CHR ''-'' then map_option uminus (parse_digits False 0 cs)
          else if c = CHR ''+'' then parse_digits False 0 cs
          else parse_digits False 0 (c # cs)))"

definition py_int_res :: "string \<Rightarrow> int result" where
  "py_int_res s = (case py_int s of None \<Rightarrow> Inl ValueError | Some n \<Rightarrow> Inr n)"

fun show_nat :: "nat \<Rightarrow> string" where
  "show_nat n = (if n < 10 then [digit_char n] else show_nat (n div 10) @ [digit_char (n mod 10)])"

declare show_nat.simps [simp del]

definition py_str :: "int \<Rightarrow> string" where
  "py_str i = (if i < 0 then CHR ''-'' # show_nat (nat (- i)) else show_nat (nat i))"

lemma show_nat_digits: "\<forall>c \<in> set (show_nat n). is_digit c"
proof (induction n rule: show_nat.induct)
  case (1 n)
  then show ?case
    by (cases "n < 10") (simp_all add: show_nat.simps [of n])
qed

lemma show_nat_nonempty [simp]: "show_nat n \<noteq> []"
  by (subst show_nat.simps) simp

lemma parse_digits_foldl:
  assumes "\<forall>c \<in> set s. is_digit c" and "prev \<or> s \<noteq> []"
  shows "parse_digits prev acc s = Some (foldl (\<lambda>a c. a * 10 + digit_val c) acc s)"
  using assms by (induction s arbitrary: prev acc) auto

lemma foldl_show_nat: "foldl (\<lambda>a c. a * 10 + digit_val c) 0 (show_nat n) = int n"
proof (induction n rule: show_nat.induct)
  case (1 n)
  show ?case
  proof (cases "n < 10")
    case True
    then show ?thesis by (subst show_nat.simps) simp
  next
    case False
    then have "foldl (\<lambda>a c. a * 10 + digit_val c) 0 (show_nat n)
        = int (n div 10) * 10 + int (n mod 10)"
      using "1.IH" by (subst show_nat.simps) simp
    also have "\<dots> = int n" by presburger
    finally show ?thesis .
  qed
qed

lemma parse_digits_show_nat: "parse_digits False 0 (show_nat n) = Some (int n)"
  using show_nat_digits by (subst parse_digits_foldl) (simp_all add: foldl_show_nat)

lemma digit_val_nonneg: "is_digit c \<Longrightarrow> 0 \<le> digit_val c"
  by (simp add: is_digit_def digit_val_def Let_def)

lemma parse_digits_nonneg:
  "0 \<le> acc \<Longrightarrow> parse_digits prev acc s = Some n \<Longrightarrow> 0 \<le> n"
proof (induction s arbitrary: prev acc)
  case Nil
  then show ?case by (simp split: if_splits)
next
  case (Cons c s)
  show ?case
  proof (cases "is_digit c")
    case True
    with Cons.prems have "0 \<le> acc * 10 + digit_val c"
      by (simp add: digit_val_nonneg)
    with Cons True show ?thesis by simp
  next
    case False
    with Cons show ?thesis by (simp split: if_splits)
  qed
qed

lemma parse_digits_chars:
  "parse_digits prev acc s = Some n \<Longrightarrow> c \<in> set s \<Longrightarrow> is_digit c \<or> c = CHR ''_''"
  by (induction s arbitrary: prev acc) (auto split: if_splits)

lemma is_digit_CHR [simp]:
  "\<not> is_digit CHR ''-''" "\<not> is_digit CHR ''+''" "\<not> is_digit CHR ''^''" "\<not> is_digit CHR '',''"
  "\<not> is_digit CHR '':''" "\<not> is_digit CHR ''.''" "\<not> is_digit CHR '' ''" "\<not> is_digit newline"
  "\<not> is_digit CHR ''_''"
  by (simp_all add: is_digit_def)

lemma set_show_nat:
  "\<not> is_digit c \<Longrightarrow> c \<notin> set (show_nat n)"
  using show_nat_digits by blast

lemma is_word_show_nat: "is_word (show_nat n)"
  using show_nat_digits digit_not_space by (auto simp: is_word_def)

lemma int_isspace_minus [simp]: "\<not> py_isspace CHR ''-''"
  by (simp add: py_isspace_def)

lemma is_word_py_str: "is_word (py_str i)"
  using is_word_show_nat by (auto simp: py_str_def is_word_def)

text \<open>Reading a printed number gives the number back, also with white space around it.\<close>

lemma py_int_word:
  assumes "is_word w" and "\<forall>c \<in> set t. int_isspace c"
  shows "py_int (w @ t) = py_int w"
proof -
  have "strip_by int_isspace (w @ t) = w"
    using assms by (intro strip_by_append_space) (auto simp: is_word_def dest: int_space_is_space)
  moreover have "strip_by int_isspace w = w"
    using assms(1) by (intro strip_by_id) (auto simp: is_word_def dest: int_space_is_space)
  ultimately show ?thesis by (simp add: py_int_def)
qed

lemma py_int_show_nat [simp]: "py_int (show_nat n) = Some (int n)"
proof -
  have "strip_by int_isspace (show_nat n) = show_nat n"
    using is_word_show_nat [of n]
    by (intro strip_by_id) (auto simp: is_word_def dest: int_space_is_space)
  moreover obtain c cs where s: "show_nat n = c # cs"
    by (cases "show_nat n") auto
  moreover have "is_digit c"
    using show_nat_digits [of n] s by simp
  ultimately show ?thesis
    using parse_digits_show_nat [of n] by (auto simp: py_int_def)
qed

lemma py_int_py_str [simp]: "py_int (py_str i) = Some i"
proof (cases "i < 0")
  case True
  have "strip_by int_isspace (py_str i) = py_str i"
    using is_word_py_str [of i]
    by (intro strip_by_id) (auto simp: is_word_def dest: int_space_is_space)
  with True show ?thesis
    by (simp add: py_int_def py_str_def parse_digits_show_nat)
next
  case False
  then show ?thesis by (simp add: py_str_def)
qed

text \<open>A number can only be negative if its text has a minus sign.\<close>

lemma py_int_nonneg:
  assumes "py_int s = Some n" and "CHR ''-'' \<notin> set s"
  shows "0 \<le> n"
proof -
  obtain c cs where s: "strip_by int_isspace s = c # cs"
    using assms(1) by (cases "strip_by int_isspace s") (auto simp: py_int_def)
  have "c \<noteq> CHR ''-''"
    using assms(2) s set_strip_by [of int_isspace s] by auto
  with assms(1) s have "\<exists>t. parse_digits False 0 t = Some n"
    by (auto simp: py_int_def simp del: parse_digits.simps split: if_splits)
  then show ?thesis
    by (auto dest: parse_digits_nonneg [rotated])
qed

end
