(* ===== verification/Hardware.thy ===== *)
theory Hardware
  imports PyStr
begin

text \<open>
  \<^verbatim>\<open>whitebox_tempest_plugin/hardware.py\<close>: CPU set specifications (\<^verbatim>\<open>1-4,^3,6\<close>) read into sets
  of CPU numbers and printed from lists of them, the list of all pCPUs of the configured topology,
  and PCI addresses assembled from the attributes of a device element.

  The code keeps two sets while it scans the rules. The abstract account of a specification has no
  order at all: each rule on its own includes or excludes an interval, and the result is the union
  of what is included minus the union of what is excluded.
\<close>

section \<open>Definitions\<close>

type_synonym cpu_topology = "(string \<times> int list) list"

definition get_all_cpus :: "cpu_topology option \<Rightarrow> int list result" where
  "get_all_cpus topology_dict = (case topology_dict of
       None \<Rightarrow> Inl AttributeError
     | Some d \<Rightarrow> Inr (fold (\<lambda>c cpus. cpus @ c) (map snd d) []))"

text \<open>One turn of the loop of \<^verbatim>\<open>parse_cpu_spec\<close>, on the pair of sets it updates.\<close>

definition parse_cpu_rule ::
  "string \<Rightarrow> string \<Rightarrow> int set \<times> int set \<Rightarrow> (int set \<times> int set) result" where
  "parse_cpu_rule spec raw acc = (case acc of (cpuset_ids, cpuset_reject_ids) \<Rightarrow>
     (let rule = py_strip raw in
      if length rule < 1 then Inr (cpuset_ids, cpuset_reject_ids)
      else (case split_once CHR ''-'' rule of
         [part0, part1] \<Rightarrow>
           (let reject = (part0 \<noteq> [] \<and> hd part0 = CHR ''^'');
                part0' = (if reject then tl part0 else part0)
            in (case (py_int (py_strip part0'), py_int (py_strip part1)) of
                  (Some start, Some end_) \<Rightarrow>
                    (if start > end_ then Inl (InvalidCPUSpec spec)
                     else if \<not> reject
                     then Inr (cpuset_ids \<union> set [start..end_], cpuset_reject_ids)
                     else Inr (cpuset_ids, cpuset_reject_ids \<union> set [start..end_]))
                | _ \<Rightarrow> Inl (InvalidCPUSpec spec)))
       | _ \<Rightarrow>
           (if hd rule = CHR ''^''
            then (case py_int (py_strip (tl rule)) of
                    None \<Rightarrow> Inl (InvalidCPUSpec spec)
                  | Some n \<Rightarrow> Inr (cpuset_ids, insert n cpuset_reject_ids))
            else (case py_int rule of
                    None \<Rightarrow> Inl (InvalidCPUSpec spec)
                  | Some n \<Rightarrow> Inr (insert n cpuset_ids, cpuset_reject_ids))))))"

fun parse_cpu_rules ::
  "string \<Rightarrow> string list \<Rightarrow> int set \<times> int set \<Rightarrow> (int set \<times> int set) result" where
  "parse_cpu_rules spec [] acc = Inr acc"
| "parse_cpu_rules spec (r # rs) acc =
     bind_res (parse_cpu_rule spec r acc) (parse_cpu_rules spec rs)"

definition parse_cpu_spec :: "string \<Rightarrow> int set result" where
  "parse_cpu_spec spec =
     bind_res (parse_cpu_rules spec (split_on CHR '','' spec) ({}, {}))
       (\<lambda>(cpuset_ids, cpuset_reject_ids). Inr (cpuset_ids - cpuset_reject_ids))"

definition format_cpu_spec :: "int list \<Rightarrow> string" where
  "format_cpu_spec cpu_list = py_join '','' (map py_str cpu_list)"

definition get_pci_address :: "string \<Rightarrow> string \<Rightarrow> string \<Rightarrow> string \<Rightarrow> string" where
  "get_pci_address domain bus slot func = domain @ '':'' @ bus @ '':'' @ slot @ ''.'' @ func"

text \<open>\<^verbatim>\<open>pci_addr_element.get(a).replace('0x', '')\<close>; \<^verbatim>\<open>get\<close> gives \<^verbatim>\<open>None\<close> for a missing attribute.\<close>

definition pci_component :: "(string \<times> string) list \<Rightarrow> string \<Rightarrow> string result" where
  "pci_component attrs a = (case map_of attrs a of
       None \<Rightarrow> Inl AttributeError
     | Some v \<Rightarrow> Inr (py_replace ''0x'' '''' v))"

definition get_pci_address_from_xml_device :: "(string \<times> string) list \<Rightarrow> string result" where
  "get_pci_address_from_xml_device attrs =
     bind_res (pci_component attrs ''domain'') (\<lambda>domain.
     bind_res (pci_component attrs ''bus'') (\<lambda>bus.
     bind_res (pci_component attrs ''slot'') (\<lambda>slot.
     bind_res (pci_component attrs ''function'') (\<lambda>func.
     Inr (get_pci_address domain bus slot func)))))"

section \<open>The abstract account of a specification\<close>

datatype cpu_rule = Blank | Include int int | Exclude int int

fun included :: "cpu_rule \<Rightarrow> int set" where
  "included (Include a b) = {a..b}"
| "included _ = {}"

fun excluded :: "cpu_rule \<Rightarrow> int set" where
  "excluded (Exclude a b) = {a..b}"
| "excluded _ = {}"

text \<open>A single number is an interval of one element; a caret turns inclusion into exclusion.\<close>

definition rule_number :: "string \<Rightarrow> (int \<times> int) option" where
  "rule_number t = map_option (\<lambda>n. (n, n)) (py_int (py_strip t))"

definition rule_interval :: "string \<Rightarrow> string \<Rightarrow> (int \<times> int) option" where
  "rule_interval a b = (case (py_int (py_strip a), py_int (py_strip b)) of
       (Some x, Some y) \<Rightarrow> if x \<le> y then Some (x, y) else None
     | _ \<Rightarrow> None)"

definition rule_bounds :: "string \<Rightarrow> (int \<times> int) option" where
  "rule_bounds t = (case split_once CHR ''-'' t of
       [a, b] \<Rightarrow> rule_interval a b
     | _ \<Rightarrow> rule_number t)"

definition rule_of :: "string \<Rightarrow> cpu_rule option" where
  "rule_of raw = (let t = py_strip raw in
     if t = [] then Some Blank
     else if hd t = CHR ''^'' then map_option (\<lambda>(x, y). Exclude x y) (rule_bounds (tl t))
     else map_option (\<lambda>(x, y). Include x y) (rule_bounds t))"

definition denoted :: "cpu_rule set \<Rightarrow> int set" where
  "denoted R = (\<Union>r \<in> R. included r) - (\<Union>r \<in> R. excluded r)"

section \<open>The interface of a CPU set notation\<close>

text \<open>
  What the users of a CPU set notation rely on: reading what was printed gives the same CPUs, and
  whatever is read is a finite set of non-negative CPU numbers.
\<close>

locale cpu_notation =
  fixes read_cpus :: "string \<Rightarrow> int set result"
    and print_cpus :: "int list \<Rightarrow> string"
  assumes read_print: "(\<forall>c \<in> set cs. 0 \<le> c) \<Longrightarrow> read_cpus (print_cpus cs) = Inr (set cs)"
    and read_finite: "read_cpus s = Inr S \<Longrightarrow> finite S"
    and read_nonneg: "read_cpus s = Inr S \<Longrightarrow> c \<in> S \<Longrightarrow> 0 \<le> c"
begin

lemma normal_form:
  assumes "read_cpus s = Inr S"
  shows "read_cpus (print_cpus (sorted_list_of_set S)) = Inr S"
  using read_print [of "sorted_list_of_set S"] read_finite [OF assms] read_nonneg [OF assms] by simp

lemma print_separates:
  assumes "\<forall>c \<in> set cs. 0 \<le> c" and "\<forall>c \<in> set ds. 0 \<le> c" and "print_cpus cs = print_cpus ds"
  shows "set cs = set ds"
  using read_print [OF assms(1)] read_print [OF assms(2)] assms(3) by simp

end

section \<open>Lemmas\<close>

lemma hd_strip_not_space:
  assumes "strip_by p s \<noteq> []"
  shows "\<not> p (hd (strip_by p s))"
proof -
  let ?d = "dropWhile p s"
  have ne: "dropWhile p (rev ?d) \<noteq> []"
    using assms unfolding strip_by_def rev_is_Nil_conv .
  then have "?d \<noteq> []" by (metis dropWhile.simps(1) rev.simps(1))
  have pd: "\<not> p (hd ?d)"
    using \<open>?d \<noteq> []\<close> by (rule hd_dropWhile)
  have "rev ?d = takeWhile p (rev ?d) @ dropWhile p (rev ?d)"
    by simp
  then have d: "?d = rev (dropWhile p (rev ?d)) @ rev (takeWhile p (rev ?d))"
    by (metis rev_append rev_rev_ident)
  have "hd ?d = hd (rev (dropWhile p (rev ?d)))"
    using ne by (subst d) simp
  with pd show ?thesis by (simp add: strip_by_def)
qed

text \<open>The code's treatment of one rule agrees with the abstract one.\<close>

lemma py_strip_idem:
  assumes "\<not> py_isspace (hd t)" and "py_strip raw = t"
  shows "py_strip t = t"
proof -
  have *: "dropWhile p (dropWhile p u) = dropWhile p u" for p and u :: string
    by (induction u) auto
  let ?e = "rev (dropWhile py_isspace (rev (dropWhile py_isspace raw)))"
  have t: "t = ?e" using assms(2) by (simp add: strip_by_def)
  show ?thesis
  proof (cases t)
    case Nil
    then show ?thesis by simp
  next
    case (Cons c cs)
    with assms(1) have "dropWhile py_isspace t = t" by simp
    with t show ?thesis by (simp add: strip_by_def *)
  qed
qed

lemma parse_cpu_rule_alt:
  "parse_cpu_rule spec raw (I, R) = (case rule_of raw of
       None \<Rightarrow> Inl (InvalidCPUSpec spec)
     | Some r \<Rightarrow> Inr (I \<union> included r, R \<union> excluded r))"
proof (cases "py_strip raw = []")
  case True
  then show ?thesis by (simp add: parse_cpu_rule_def rule_of_def)
next
  case False
  let ?t = "py_strip raw"
  have nsp: "\<not> py_isspace (hd ?t)"
    using hd_strip_not_space [OF False] .
  have idem: "py_strip ?t = ?t"
    using py_strip_idem [OF nsp refl] .
  show ?thesis
  proof (cases "hd ?t = CHR ''^''")
    case caret: True
    then obtain u where t: "?t = CHR ''^'' # u"
      using False by (cases ?t) auto
    show ?thesis
    proof (rule split_once_cases [of "CHR ''-''" u])
      assume "CHR ''-'' \<notin> set u" and u: "split_once CHR ''-'' u = [u]"
      then have "split_once CHR ''-'' (CHR ''^'' # u) = [CHR ''^'' # u]"
        by (simp add: split_once_absent)
      with u show ?thesis
        by (auto simp: parse_cpu_rule_def rule_of_def rule_bounds_def rule_number_def Let_def t
            split: option.splits)
    next
      fix a b
      assume "u = a @ CHR ''-'' # b" and "CHR ''-'' \<notin> set a"
        and u: "split_once CHR ''-'' u = [a, b]"
      then have "split_once CHR ''-'' (CHR ''^'' # u) = [CHR ''^'' # a, b]"
        using split_once_present [of "CHR ''-''" "CHR ''^'' # a" b] by simp
      with u show ?thesis
        by (auto simp: parse_cpu_rule_def rule_of_def rule_bounds_def rule_interval_def Let_def t
            simp del: upto.simps split: option.splits)
    qed
  next
    case plain: False
    show ?thesis
    proof (rule split_once_cases [of "CHR ''-''" ?t])
      assume "split_once CHR ''-'' ?t = [?t]"
      with plain False idem show ?thesis
        by (auto simp: parse_cpu_rule_def rule_of_def rule_bounds_def rule_number_def Let_def
            split: option.splits)
    next
      fix a b
      assume ab: "?t = a @ CHR ''-'' # b" and "split_once CHR ''-'' ?t = [a, b]"
      moreover have "\<not> (a \<noteq> [] \<and> hd a = CHR ''^'')"
        using plain ab by (cases a) auto
      ultimately show ?thesis
        using plain False
        by (auto simp: parse_cpu_rule_def rule_of_def rule_bounds_def rule_interval_def Let_def
            simp del: upto.simps split: option.splits)
    qed
  qed
qed

lemma parse_cpu_rules_alt:
  "parse_cpu_rules spec rs (I, R) =
     (if \<forall>r \<in> set rs. rule_of r \<noteq> None
      then Inr (I \<union> (\<Union>r \<in> set rs. included (the (rule_of r))),
                R \<union> (\<Union>r \<in> set rs. excluded (the (rule_of r))))
      else Inl (InvalidCPUSpec spec))"
  by (induction rs arbitrary: I R) (auto simp: parse_cpu_rule_alt split: option.splits)

lemma parse_cpu_spec_alt:
  "parse_cpu_spec spec =
     (if \<forall>r \<in> set (split_on CHR '','' spec). rule_of r \<noteq> None
      then Inr (denoted ((the \<circ> rule_of) ` set (split_on CHR '','' spec)))
      else Inl (InvalidCPUSpec spec))"
  by (simp add: parse_cpu_spec_def parse_cpu_rules_alt denoted_def)

lemma parse_cpu_spec_Inr_iff:
  "parse_cpu_spec spec = Inr S \<longleftrightarrow>
     (\<forall>r \<in> set (split_on CHR '','' spec). rule_of r \<noteq> None) \<and>
     S = denoted ((the \<circ> rule_of) ` set (split_on CHR '','' spec))"
  by (auto simp: parse_cpu_spec_alt)

text \<open>No bound of a rule is negative: a minus sign before the first number is taken as a dash.\<close>

lemma rule_bounds_nonneg:
  assumes "rule_bounds t = Some (x, y)"
  shows "0 \<le> x \<and> x \<le> y"
proof (rule split_once_cases [of "CHR ''-''" t])
  assume nodash: "CHR ''-'' \<notin> set t" and "split_once CHR ''-'' t = [t]"
  with assms have "py_int (py_strip t) = Some x" and "x = y"
    by (auto simp: rule_bounds_def rule_number_def)
  moreover have "CHR ''-'' \<notin> set (py_strip t)"
    using nodash set_strip_by by blast
  ultimately show ?thesis using py_int_nonneg by auto
next
  fix a b
  assume "CHR ''-'' \<notin> set a" and "split_once CHR ''-'' t = [a, b]"
  moreover from this assms have "py_int (py_strip a) = Some x" and "x \<le> y"
    by (auto simp: rule_bounds_def rule_interval_def split: option.splits if_splits)
  ultimately show ?thesis
    using py_int_nonneg set_strip_by by blast
qed

lemma included_nonneg:
  assumes "rule_of raw = Some r" and "c \<in> included r"
  shows "0 \<le> c"
  using assms
  by (auto simp: rule_of_def Let_def split: if_splits dest!: rule_bounds_nonneg)

lemma finite_included [simp]: "finite (included r)"
  by (cases r) auto

lemma parse_cpu_spec_finite: "parse_cpu_spec spec = Inr S \<Longrightarrow> finite S"
  by (auto simp: parse_cpu_spec_Inr_iff denoted_def)

lemma parse_cpu_spec_nonneg:
  assumes "parse_cpu_spec spec = Inr S" and "c \<in> S"
  shows "0 \<le> c"
proof -
  obtain raw where raw: "raw \<in> set (split_on CHR '','' spec)" "c \<in> included (the (rule_of raw))"
    using assms by (auto simp: parse_cpu_spec_Inr_iff denoted_def)
  moreover have "rule_of raw \<noteq> None"
    using assms(1) raw(1) unfolding parse_cpu_spec_Inr_iff by blast
  ultimately show ?thesis using included_nonneg by auto
qed

text \<open>The rules that printing produces.\<close>

lemma py_strip_word: "is_word w \<Longrightarrow> py_strip w = w"
  by (intro strip_by_id) (auto simp: is_word_def)

lemma rule_of_py_str:
  "rule_of (py_str n) = (if 0 \<le> n then Some (Include n n) else None)"
proof (cases "0 \<le> n")
  case True
  let ?s = "show_nat (nat n)"
  obtain c cs where s: "?s = c # cs" by (cases ?s) auto
  have "is_digit c" using show_nat_digits [of "nat n"] s by simp
  then have "c \<noteq> CHR ''^''" by auto
  moreover have "split_once CHR ''-'' ?s = [?s]"
    by (simp add: split_once_absent set_show_nat)
  ultimately show ?thesis
    using True s py_strip_word [OF is_word_show_nat [of "nat n"]] py_int_show_nat [of "nat n"]
    by (simp add: rule_of_def py_str_def rule_bounds_def rule_number_def)
next
  case False
  let ?s = "CHR ''-'' # show_nat (nat (- n))"
  have "split_once CHR ''-'' ?s = [[], show_nat (nat (- n))]"
    using split_once_present [of "CHR ''-''" "[]"] by simp
  moreover have "py_strip ?s = ?s"
    using py_strip_word [OF is_word_py_str [of n]] False by (simp add: py_str_def)
  moreover have "py_int [] = None" by (simp add: py_int_def)
  ultimately show ?thesis
    using False by (simp add: rule_of_def py_str_def rule_bounds_def rule_interval_def)
qed

lemma split_format_cpu_spec:
  "split_on CHR '','' (format_cpu_spec cs) = (if cs = [] then [[]] else map py_str cs)"
proof (cases "cs = []")
  case True
  then show ?thesis by (simp add: format_cpu_spec_def)
next
  case False
  have "CHR '','' \<notin> set (py_str c)" for c
    by (simp add: py_str_def set_show_nat)
  with False show ?thesis
    by (auto simp: format_cpu_spec_def intro!: split_on_join)
qed

lemma rule_of_Nil [simp]: "rule_of [] = Some Blank"
  by (simp add: rule_of_def)

lemma denoted_singletons: "denoted ((\<lambda>c. Include c c) ` A) = A"
  by (auto simp: denoted_def)

lemma parse_format:
  "parse_cpu_spec (format_cpu_spec cs) =
     (if \<forall>c \<in> set cs. 0 \<le> c then Inr (set cs) else Inl (InvalidCPUSpec (format_cpu_spec cs)))"
proof (cases "\<forall>c \<in> set cs. 0 \<le> c")
  case True
  have "denoted ((the \<circ> rule_of) ` set (split_on CHR '','' (format_cpu_spec cs))) = set cs"
  proof (cases "cs = []")
    case True
    then show ?thesis by (simp add: split_format_cpu_spec denoted_def)
  next
    case False
    have "(the \<circ> rule_of) ` set (map py_str cs) = (\<lambda>c. Include c c) ` set cs"
      using True by (auto simp: rule_of_py_str image_comp intro!: image_cong)
    with False show ?thesis by (simp add: split_format_cpu_spec denoted_singletons)
  qed
  with True show ?thesis
    by (auto simp: parse_cpu_spec_alt split_format_cpu_spec rule_of_py_str)
next
  case False
  then show ?thesis
    by (auto simp: parse_cpu_spec_alt split_format_cpu_spec rule_of_py_str)
qed

interpretation nova_spec: cpu_notation parse_cpu_spec format_cpu_spec
  by unfold_locales (auto simp: parse_format intro: parse_cpu_spec_finite parse_cpu_spec_nonneg)

text \<open>PCI addresses.\<close>

definition hex_digits :: "string \<Rightarrow> bool" where
  "hex_digits s \<longleftrightarrow> set s \<subseteq> set ''0123456789abcdefABCDEF''"

text \<open>The four attributes of an address element, as libvirt writes them: \<^verbatim>\<open>0x\<close> and hex digits.\<close>

definition hex_device :: "(string \<times> string) list \<Rightarrow> string \<Rightarrow> string \<Rightarrow> string \<Rightarrow> string \<Rightarrow> bool" where
  "hex_device attrs d b s f \<longleftrightarrow>
     map_of attrs ''domain'' = Some (''0x'' @ d) \<and> map_of attrs ''bus'' = Some (''0x'' @ b) \<and>
     map_of attrs ''slot'' = Some (''0x'' @ s) \<and> map_of attrs ''function'' = Some (''0x'' @ f) \<and>
     hex_digits d \<and> hex_digits b \<and> hex_digits s \<and> hex_digits f"

lemma hex_no_0x: "hex_digits s \<Longrightarrow> \<not> sublist ''0x'' s"
  by (auto simp: hex_digits_def sublist_def)

lemma strip_0x: "hex_digits s \<Longrightarrow> py_replace ''0x'' [] (CHR ''0'' # CHR ''x'' # s) = s"
  using py_replace_prefix [of "''0x''" "[]" s] py_replace_absent [OF hex_no_0x, of s "[]"] by simp

lemma hex_device_address:
  "hex_device attrs d b s f \<Longrightarrow>
     get_pci_address_from_xml_device attrs = Inr (get_pci_address d b s f)"
  by (simp add: hex_device_def get_pci_address_from_xml_device_def pci_component_def strip_0x)

lemma append_sep_eq:
  assumes "c \<notin> set xs" and "c \<notin> set xs'"
  shows "xs @ c # ys = xs' @ c # ys' \<longleftrightarrow> xs = xs' \<and> ys = ys'"
  using assms by (induction xs xs' rule: list_induct2') auto

lemma get_pci_address_inject:
  assumes "hex_digits d" "hex_digits b" "hex_digits s" "hex_digits d'" "hex_digits b'" "hex_digits s'"
  shows "get_pci_address d b s f = get_pci_address d' b' s' f' \<longleftrightarrow>
     d = d' \<and> b = b' \<and> s = s' \<and> f = f'"
proof -
  have colon: "CHR '':'' \<notin> set x" and dot: "CHR ''.'' \<notin> set x" if "hex_digits x" for x
    using that by (auto simp: hex_digits_def)
  show ?thesis
    using assms by (simp add: get_pci_address_def append_sep_eq colon dot)
qed

section \<open>Properties\<close>

text \<open>C4. A CPU specification denotes the union of the intervals its rules include minus the union
  of the intervals they exclude, and it is rejected, with the specification in the exception, as
  soon as one rule is not a number, an interval or a caret before one of them.\<close>

theorem parse_cpu_spec_denotes:
  "parse_cpu_spec spec =
     (if \<forall>r \<in> set (split_on CHR '','' spec). rule_of r \<noteq> None
      then Inr ((\<Union>r \<in> set (split_on CHR '','' spec). included (the (rule_of r)))
              - (\<Union>r \<in> set (split_on CHR '','' spec). excluded (the (rule_of r))))
      else Inl (InvalidCPUSpec spec))"
  by (simp add: parse_cpu_spec_alt denoted_def)

theorem parse_cpu_spec_denotes_witness:
  "parse_cpu_spec ''1-4,^3,6'' = Inr {1, 2, 4, 6}"
proof -
  have sp: "split_on CHR '','' ''1-4,^3,6'' = [''1-4'', ''^3'', ''6'']" by simp
  have r: "rule_of ''1-4'' = Some (Include 1 4)" "rule_of ''^3'' = Some (Exclude 3 3)"
    "rule_of ''6'' = Some (Include 6 6)"
    by code_simp+
  show ?thesis
    by (subst parse_cpu_spec_denotes) (auto simp: sp r)
qed

text \<open>The order in which the rules of a specification are written does not matter, nor does
  writing a rule twice: two specifications with the same rules give the same CPUs. In particular a
  caret also removes CPUs that a later rule includes.\<close>

theorem parse_cpu_spec_order_irrelevant:
  assumes "set (split_on CHR '','' spec) = set (split_on CHR '','' spec')"
  shows "parse_cpu_spec spec = Inr S \<longleftrightarrow> parse_cpu_spec spec' = Inr S"
  using assms by (simp add: parse_cpu_spec_Inr_iff)

theorem parse_cpu_spec_order_irrelevant_witness:
  "parse_cpu_spec ''^3,1-4'' = Inr {1, 2, 4} \<longleftrightarrow> parse_cpu_spec ''1-4,^3,1-4'' = Inr {1, 2, 4}"
  by (rule parse_cpu_spec_order_irrelevant) auto

text \<open>C34. Every CPU set that is read is finite and holds non-negative CPU numbers only.\<close>

theorem parse_cpu_spec_cpus:
  assumes "parse_cpu_spec spec = Inr S"
  shows "finite S \<and> (\<forall>c \<in> S. 0 \<le> c)"
  using assms by (blast intro: parse_cpu_spec_finite parse_cpu_spec_nonneg)

theorem parse_cpu_spec_cpus_witness:
  "parse_cpu_spec ''0-2'' = Inr {0, 1, 2} \<and> finite {0, 1, 2 :: int} \<and> 0 \<le> Min {0, 1, 2 :: int}"
proof -
  have h: "parse_cpu_spec ''0-2'' = Inr {0, 1, 2}" by code_simp
  show ?thesis using h parse_cpu_spec_cpus [OF h] by simp
qed

text \<open>C18. Reading the printed form of a list of CPUs gives their set back if no number is negative;
  with a negative number the printed form is rejected.\<close>

theorem parse_format_roundtrip:
  "parse_cpu_spec (format_cpu_spec cpu_list) =
     (if \<forall>c \<in> set cpu_list. 0 \<le> c then Inr (set cpu_list)
      else Inl (InvalidCPUSpec (format_cpu_spec cpu_list)))"
  by (rule parse_format)

theorem parse_format_roundtrip_witness:
  "parse_cpu_spec (format_cpu_spec [0, 2, 3]) = Inr {0, 2, 3} \<and>
   parse_cpu_spec (format_cpu_spec [4, -1]) = Inl (InvalidCPUSpec (format_cpu_spec [4, -1]))"
  using parse_format_roundtrip [of "[0, 2, 3]"] parse_format_roundtrip [of "[4, -1]"] by simp

text \<open>Every accepted specification has a normal form: printing the CPUs it denotes in increasing
  order gives a specification that denotes the same CPUs.\<close>

theorem cpu_spec_normal_form:
  assumes "parse_cpu_spec spec = Inr S"
  shows "parse_cpu_spec (format_cpu_spec (sorted_list_of_set S)) = Inr S"
  using assms by (rule nova_spec.normal_form)

theorem cpu_spec_normal_form_witness:
  "parse_cpu_spec '' 2 - 3 ,,^3'' = Inr {2} \<and> parse_cpu_spec (format_cpu_spec [2]) = Inr {2}"
proof -
  have h: "parse_cpu_spec '' 2 - 3 ,,^3'' = Inr {2}" by code_simp
  show ?thesis using h cpu_spec_normal_form [OF h] by simp
qed

text \<open>C35. The address read from a device element whose attributes are hexadecimal numbers is the
  four numbers without their \<^verbatim>\<open>0x\<close>, and two such elements have the same address only if all four
  numbers agree.\<close>

theorem pci_address_identifies_device:
  assumes "hex_device attrs d b s f" and "hex_device attrs' d' b' s' f'"
  shows "get_pci_address_from_xml_device attrs = Inr (d @ '':'' @ b @ '':'' @ s @ ''.'' @ f) \<and>
    (get_pci_address_from_xml_device attrs = get_pci_address_from_xml_device attrs' \<longleftrightarrow>
       (d, b, s, f) = (d', b', s', f'))"
proof -
  have hex: "hex_digits d" "hex_digits b" "hex_digits s" "hex_digits d'" "hex_digits b'" "hex_digits s'"
    using assms by (auto simp: hex_device_def)
  show ?thesis
    using hex_device_address [OF assms(1)] hex_device_address [OF assms(2)]
      get_pci_address_inject [OF hex]
    by (simp add: get_pci_address_def)
qed

theorem pci_address_identifies_device_witness:
  "get_pci_address_from_xml_device
     [(''domain'', ''0x0000''), (''bus'', ''0x04''), (''slot'', ''0x10''), (''function'', ''0x1'')]
   = Inr ''0000:04:10.1''"
proof -
  have h: "hex_device [(''domain'', ''0x0000''), (''bus'', ''0x04''), (''slot'', ''0x10''),
      (''function'', ''0x1'')] ''0000'' ''04'' ''10'' ''1''"
    by (simp add: hex_device_def hex_digits_def)
  show ?thesis using pci_address_identifies_device [OF h h] by simp
qed

end
