(* ===== verification/Conf.thy ===== *)
theory Conf
  imports PyStr
begin

text \<open>
  \<^verbatim>\<open>whitebox_tempest_plugin/config.py\<close> and \<^verbatim>\<open>plugin.py\<close>: the options the plugin declares, with
  their kinds, defaults, permitted values and deprecated names, how the plugin class registers
  and lists them, and where it says its tests are. The record \<open>conf\<close> is the typed view of
  \<^verbatim>\<open>tempest.config.CONF\<close> that the other theories read; its defaults are shown to be the declared
  ones. How \<^verbatim>\<open>oslo.config\<close> parses a file is outside the repository.
\<close>

section \<open>Option declarations\<close>

datatype opt_kind =
  StrOpt | BoolOpt | IntOpt | ListOpt | DictOpt | IntListOpt | IntListDictOpt

datatype opt_value = VNone | VStr string | VBool bool | VInt int | VList "string list"

record opt =
  opt_name :: string
  opt_kind :: opt_kind
  opt_default :: opt_value
  opt_choices :: "opt_value list option"
  opt_deprecated :: "string list"

definition mk_opt :: "string \<Rightarrow> opt_kind \<Rightarrow> opt_value \<Rightarrow> opt" where
  "mk_opt n k d =
     \<lparr>opt_name = n, opt_kind = k, opt_default = d, opt_choices = None, opt_deprecated = []\<rparr>"

definition general_group :: string where "general_group = ''whitebox''"

definition general_opts :: "opt list" where
  "general_opts = [
     mk_opt ''nodes_yaml'' StrOpt (VNone),
     (mk_opt ''ctlplane_ssh_username'' StrOpt (VStr ''heat-admin''))
        \<lparr>opt_deprecated := [''target_ssh_user'']\<rparr>,
     (mk_opt ''ctlplane_ssh_private_key_path'' StrOpt (VStr ''/home/stack/.ssh/id_rsa''))
        \<lparr>opt_deprecated := [''target_private_key_path'']\<rparr>,
     mk_opt ''containers'' BoolOpt (VBool False),
     (mk_opt ''ctlplane_addresses'' DictOpt (VNone))
        \<lparr>opt_deprecated := [''hypervisors'']\<rparr>,
     mk_opt ''max_compute_nodes'' IntOpt (VInt 31337),
     mk_opt ''available_cinder_storage'' IntOpt (VInt 0),
     (mk_opt ''container_runtime'' StrOpt (VStr ''docker''))
        \<lparr>opt_choices := Some [VStr ''docker'', VStr ''podman'']\<rparr>,
     mk_opt ''file_backed_memory_size'' IntOpt (VInt 0),
     mk_opt ''selinux_label'' StrOpt (VNone),
     mk_opt ''selinux_imagelabel'' StrOpt (VNone),
     mk_opt ''flavor_volume_size'' IntOpt (VInt 1),
     mk_opt ''flavor_ram_size'' IntOpt (VInt 64),
     mk_opt ''cpu_model'' StrOpt (VNone),
     mk_opt ''cpu_model_extra_flags'' ListOpt (VNone),
     mk_opt ''pmem_flavor_size'' StrOpt (VNone),
     mk_opt ''pmem_expected_size'' StrOpt (VNone),
     mk_opt ''rx_queue_size'' IntOpt (VNone),
     mk_opt ''default_video_model'' StrOpt (VNone),
     mk_opt ''max_disk_devices_to_attach'' IntOpt (VNone),
     (mk_opt ''libvirt_hw_machine_type'' StrOpt (VStr ''pc''))
        \<lparr>opt_choices := Some [VStr ''pc'', VStr ''q35'']\<rparr>,
     mk_opt ''provider_config_location'' StrOpt (VStr ''/etc/nova/provider_config''),
     mk_opt ''hugepage_guest_ram_size'' IntOpt (VInt 64),
     mk_opt ''http_iso_image'' StrOpt (VStr ''/opt/stack/devstack/files/Core-14.0.iso'')]"

definition nova_compute_group :: string where "nova_compute_group = ''whitebox-nova-compute''"

definition nova_compute_opts :: "opt list" where
  "nova_compute_opts = [
     (mk_opt ''log_query_command'' StrOpt (VStr ''journalctl''))
        \<lparr>opt_choices := Some [VStr ''journalctl'', VStr ''zgrep'']\<rparr>,
     mk_opt ''journalctl_unit'' StrOpt (VStr ''devstack@n-cpu''),
     mk_opt ''state_path'' StrOpt (VStr ''/var/lib/nova'')]"

definition database_group :: string where "database_group = ''whitebox-database''"

definition database_opts :: "opt list" where
  "database_opts = [
     mk_opt ''host'' StrOpt (VNone),
     mk_opt ''internal_ip'' StrOpt (VNone),
     mk_opt ''user'' StrOpt (VNone),
     mk_opt ''password'' StrOpt (VNone),
     mk_opt ''nova_cell1_db_name'' StrOpt (VStr ''nova_cell1''),
     mk_opt ''ssh_gateway_port'' IntOpt (VInt 3306)]"

definition hardware_group :: string where "hardware_group = ''whitebox-hardware''"

definition hardware_opts :: "opt list" where
  "hardware_opts = [
     mk_opt ''vgpu_vendor_id'' StrOpt (VNone),
     mk_opt ''sriov_nic_vendor_id'' StrOpt (VNone),
     mk_opt ''sriov_vf_product_id'' StrOpt (VNone),
     mk_opt ''sriov_pf_product_id'' StrOpt (VNone),
     mk_opt ''macvtap_virtio_vendor_id'' StrOpt (VNone),
     mk_opt ''macvtap_virtio_product_id'' StrOpt (VNone),
     mk_opt ''smt_hosts'' ListOpt (VList []),
     mk_opt ''cpu_topology'' IntListDictOpt (VNone),
     mk_opt ''configured_hugepage_sizes'' IntListOpt (VList []),
     mk_opt ''dedicated_cpus_per_numa'' IntOpt (VInt 0),
     mk_opt ''shared_cpus_per_numa'' IntOpt (VInt 0),
     mk_opt ''realtime_mask'' StrOpt (VNone),
     mk_opt ''sriov_physnet'' StrOpt (VNone),
     (mk_opt ''sriov_vnic_type'' StrOpt (VNone))
        \<lparr>opt_choices := Some [VNone, VStr ''direct'', VStr ''macvtap'', VStr ''direct-physical'']\<rparr>,
     mk_opt ''sriov_vlan_id'' IntOpt (VNone),
     mk_opt ''vdpa_physnet'' StrOpt (VNone),
     mk_opt ''vdpa_vlan_id'' IntOpt (VNone),
     mk_opt ''physnet_numa_affinity'' IntOpt (VNone),
     mk_opt ''vgpu_type_mapping'' DictOpt (VNone),
     mk_opt ''socket_affinity'' IntOpt (VNone),
     mk_opt ''socket_topology'' IntListDictOpt (VNone),
     mk_opt ''pci_passthrough_alias'' StrOpt (VNone),
     mk_opt ''pci_passthrough_addresses'' ListOpt (VNone),
     mk_opt ''pci_passthrough_resource_class'' StrOpt (VNone)]"

definition compute_features_group_opts :: "opt list" where
  "compute_features_group_opts = [
     mk_opt ''virtio_rng'' BoolOpt (VBool False),
     mk_opt ''rbd_download'' BoolOpt (VBool False),
     mk_opt ''sriov_hotplug'' BoolOpt (VBool True),
     mk_opt ''supports_image_level_numa_affinity'' BoolOpt (VBool True),
     mk_opt ''supports_port_level_numa_affinity'' BoolOpt (VBool True),
     mk_opt ''uefi_boot'' BoolOpt (VBool True),
     mk_opt ''uefi_secure_boot'' BoolOpt (VBool False),
     mk_opt ''vtpm_device_supported'' BoolOpt (VBool False),
     mk_opt ''vtpm_live_migration_supported'' BoolOpt (VBool True),
     mk_opt ''vdpa_cold_migration_supported'' BoolOpt (VBool False),
     mk_opt ''vgpu_cold_migration_supported'' BoolOpt (VBool False),
     mk_opt ''stable_compute_uuid_supported'' BoolOpt (VBool False),
     mk_opt ''bochs_display_support'' BoolOpt (VBool False),
     mk_opt ''cpu_power_management'' BoolOpt (VBool False),
     mk_opt ''vencrypt'' BoolOpt (VBool True),
     mk_opt ''iothreads'' BoolOpt (VBool True)]"

section \<open>The plugin class\<close>

text \<open>
  The calls of \<^verbatim>\<open>config.register_opt_group\<close> in order; the group of the feature flags is
  Tempest's own, so its name is a parameter.
\<close>

definition register_opts :: "string \<Rightarrow> (string \<times> opt list) list" where
  "register_opts compute_features_group =
     [(general_group, general_opts),
      (nova_compute_group, nova_compute_opts),
      (database_group, database_opts),
      (hardware_group, hardware_opts),
      (compute_features_group, compute_features_group_opts)]"

definition get_opt_lists :: "(string \<times> opt list) list" where
  "get_opt_lists =
     [(general_group, general_opts),
      (nova_compute_group, nova_compute_opts),
      (database_group, database_opts),
      (hardware_group, hardware_opts)]"

text \<open>\<^verbatim>\<open>os.path.dirname\<close> (also the head of \<^verbatim>\<open>os.path.split\<close>) and \<^verbatim>\<open>os.path.join\<close> on POSIX paths.\<close>

definition path_dirname :: "string \<Rightarrow> string" where
  "path_dirname p =
     (let head = rev (dropWhile (\<lambda>c. c \<noteq> CHR ''/'') (rev p));
          stripped = rev (dropWhile (\<lambda>c. c = CHR ''/'') (rev head))
      in if stripped = [] then head else stripped)"

definition path_join :: "string \<Rightarrow> string \<Rightarrow> string" where
  "path_join a b =
     (if b \<noteq> [] \<and> hd b = CHR ''/'' then b
      else if a = [] \<or> last a = CHR ''/'' then a @ b
      else a @ ''/'' @ b)"

text \<open>\<^verbatim>\<open>load_tests\<close>, from the absolute path of \<^verbatim>\<open>plugin.py\<close>.\<close>

definition load_tests :: "string \<Rightarrow> string \<times> string" where
  "load_tests file =
     (let base_path = path_dirname (path_dirname file);
          test_dir = ''whitebox_tempest_plugin/api'';
          full_test_dir = path_join base_path test_dir
      in (full_test_dir, base_path))"

section \<open>The typed view of the configuration\<close>

text \<open>
  The options the modelled code reads. The last group is declared by Tempest: the timeout and the
  interval of its waiters, the image to boot and the CIDR of project networks.
\<close>

record conf =
  nodes_yaml :: "string option"
  ctlplane_ssh_username :: string
  ctlplane_ssh_private_key_path :: string
  containers :: bool
  ctlplane_addresses :: "(string \<times> string) list option"
  container_runtime :: string
  flavor_volume_size :: int
  flavor_ram_size :: int
  log_query_command :: string
  journalctl_unit :: string
  db_host :: "string option"
  db_internal_ip :: "string option"
  db_user :: "string option"
  db_password :: "string option"
  nova_cell1_db_name :: string
  ssh_gateway_port :: int
  cpu_topology :: "(string \<times> int list) list option"
  iothreads :: bool
  build_timeout :: int
  build_interval :: int
  image_ref :: string
  project_network_cidr :: string

definition lookup_opt :: "(string \<times> opt list) list \<Rightarrow> string \<Rightarrow> string \<Rightarrow> opt_value option" where
  "lookup_opt regs g n = (case map_of regs g of
       None \<Rightarrow> None
     | Some os \<Rightarrow> map_option opt_default (List.find (\<lambda>opt. opt_name opt = n) os))"

text \<open>The configuration of a deployment that sets none of the plugin's options.\<close>

definition default_conf :: "int \<Rightarrow> int \<Rightarrow> string \<Rightarrow> string \<Rightarrow> conf" where
  "default_conf timeout interval img cidr =
     \<lparr>nodes_yaml = None,
      ctlplane_ssh_username = ''heat-admin'',
      ctlplane_ssh_private_key_path = ''/home/stack/.ssh/id_rsa'',
      containers = False,
      ctlplane_addresses = None,
      container_runtime = ''docker'',
      flavor_volume_size = 1,
      flavor_ram_size = 64,
      log_query_command = ''journalctl'',
      journalctl_unit = ''devstack@n-cpu'',
      db_host = None,
      db_internal_ip = None,
      db_user = None,
      db_password = None,
      nova_cell1_db_name = ''nova_cell1'',
      ssh_gateway_port = 3306,
      cpu_topology = None,
      iothreads = True,
      build_timeout = timeout,
      build_interval = interval,
      image_ref = img,
      project_network_cidr = cidr\<rparr>"

definition str_value :: "string option \<Rightarrow> opt_value" where
  "str_value v = (case v of None \<Rightarrow> VNone | Some s \<Rightarrow> VStr s)"

section \<open>Well-formed declarations\<close>

fun fits_kind :: "opt_kind \<Rightarrow> opt_value \<Rightarrow> bool" where
  "fits_kind k VNone = True"
| "fits_kind k (VStr s) = (k = StrOpt)"
| "fits_kind k (VBool b) = (k = BoolOpt)"
| "fits_kind k (VInt n) = (k = IntOpt)"
| "fits_kind k (VList xs) = (k = ListOpt \<or> k = IntListOpt)"

definition opt_ok :: "opt \<Rightarrow> bool" where
  "opt_ok opt \<longleftrightarrow> fits_kind (opt_kind opt) (opt_default opt) \<and>
     (case opt_choices opt of None \<Rightarrow> True | Some cs \<Rightarrow> opt_default opt \<in> set cs)"

text \<open>No two names of a group clash, old names included, and every declaration is well-formed.\<close>

definition group_ok :: "opt list \<Rightarrow> bool" where
  "group_ok os \<longleftrightarrow>
     distinct (map opt_name os @ concat (map opt_deprecated os)) \<and> list_all opt_ok os"

lemmas opt_tables = general_opts_def nova_compute_opts_def database_opts_def hardware_opts_def
  compute_features_group_opts_def

lemmas opt_groups = general_group_def nova_compute_group_def database_group_def hardware_group_def

lemma groups_ok:
  "group_ok general_opts" "group_ok nova_compute_opts" "group_ok database_opts"
  "group_ok hardware_opts" "group_ok compute_features_group_opts"
  by (simp_all add: group_ok_def opt_ok_def opt_tables mk_opt_def)

lemma dirname_last:
  assumes "CHR ''/'' \<notin> set name" and "dir \<noteq> []" and "last dir \<noteq> CHR ''/''"
  shows "path_dirname (dir @ ''/'' @ name) = dir"
proof -
  have "dropWhile (\<lambda>c. c \<noteq> CHR ''/'') (rev name @ CHR ''/'' # rev dir) = CHR ''/'' # rev dir"
    using assms(1) by (subst dropWhile_append2) auto
  then have head: "rev (dropWhile (\<lambda>c. c \<noteq> CHR ''/'') (rev (dir @ ''/'' @ name))) = dir @ ''/''"
    by simp
  have "dropWhile (\<lambda>c. c = CHR ''/'') (rev dir) = rev dir"
    using assms(2,3) by (cases dir rule: rev_cases) auto
  then have stripped: "rev (dropWhile (\<lambda>c. c = CHR ''/'') (rev (dir @ ''/''))) = dir"
    by simp
  show ?thesis
    unfolding path_dirname_def Let_def head stripped using assms(2) by (rule if_not_P)
qed

section \<open>Properties\<close>

text \<open>Every group of options the plugin registers is well-formed: no two options of a group share
  a name or a deprecated name, every default has the kind of its option, and where the permitted
  values are listed the default is one of them.\<close>

lemma declared_options_wellformed:
  "list_all (\<lambda>(g, os). group_ok os) (register_opts compute_features_group)"
  by (simp add: register_opts_def groups_ok)

text \<open>The defaults under which the other components are modelled are the ones declared in the
  option tables, looked up by group and name as the code reads them.\<close>

theorem default_conf_declared:
  assumes "features \<notin> set (map fst get_opt_lists)"
  shows "let regs = register_opts features; c = default_conf timeout interval img cidr in
    lookup_opt regs ''whitebox'' ''nodes_yaml'' = Some (str_value (nodes_yaml c)) \<and>
    lookup_opt regs ''whitebox'' ''ctlplane_ssh_username'' = Some (VStr (ctlplane_ssh_username c)) \<and>
    lookup_opt regs ''whitebox'' ''ctlplane_ssh_private_key_path''
      = Some (VStr (ctlplane_ssh_private_key_path c)) \<and>
    lookup_opt regs ''whitebox'' ''containers'' = Some (VBool (containers c)) \<and>
    lookup_opt regs ''whitebox'' ''container_runtime'' = Some (VStr (container_runtime c)) \<and>
    lookup_opt regs ''whitebox'' ''flavor_volume_size'' = Some (VInt (flavor_volume_size c)) \<and>
    lookup_opt regs ''whitebox'' ''flavor_ram_size'' = Some (VInt (flavor_ram_size c)) \<and>
    lookup_opt regs ''whitebox-nova-compute'' ''log_query_command''
      = Some (VStr (log_query_command c)) \<and>
    lookup_opt regs ''whitebox-nova-compute'' ''journalctl_unit'' = Some (VStr (journalctl_unit c)) \<and>
    lookup_opt regs ''whitebox-database'' ''host'' = Some (str_value (db_host c)) \<and>
    lookup_opt regs ''whitebox-database'' ''internal_ip'' = Some (str_value (db_internal_ip c)) \<and>
    lookup_opt regs ''whitebox-database'' ''nova_cell1_db_name''
      = Some (VStr (nova_cell1_db_name c)) \<and>
    lookup_opt regs ''whitebox-database'' ''ssh_gateway_port'' = Some (VInt (ssh_gateway_port c)) \<and>
    lookup_opt regs features ''iothreads'' = Some (VBool (iothreads c))"
  using assms(1)
  by (simp add: Let_def lookup_opt_def register_opts_def get_opt_lists_def opt_groups
      opt_tables mk_opt_def default_conf_def str_value_def)

theorem default_conf_declared_witness:
  "lookup_opt (register_opts ''compute-feature-enabled'') ''whitebox'' ''container_runtime''
     = Some (VStr (container_runtime (default_conf 300 1 ''img'' ''10.0.0.0/24'')))"
proof -
  have h: "''compute-feature-enabled'' \<notin> set (map fst get_opt_lists)"
    by (simp add: get_opt_lists_def opt_groups)
  show ?thesis
    using default_conf_declared [OF h, of 300 1 "''img''" "''10.0.0.0/24''"] unfolding Let_def by blast
qed

text \<open>Wherever the package is installed, the plugin reports the directory that holds it as the base
  path and the \<^verbatim>\<open>api\<close> directory of the package below it as the place of the tests.\<close>

theorem load_tests_paths:
  assumes "root \<noteq> []" and "last root \<noteq> CHR ''/''"
  shows "load_tests (root @ ''/whitebox_tempest_plugin/plugin.py'') =
    (root @ ''/whitebox_tempest_plugin/api'', root)"
proof -
  have "path_dirname (root @ ''/whitebox_tempest_plugin/plugin.py'') =
      root @ ''/whitebox_tempest_plugin''"
    using dirname_last [of "''plugin.py''" "root @ ''/whitebox_tempest_plugin''"] by simp
  moreover have "path_dirname (root @ ''/whitebox_tempest_plugin'') = root"
    using dirname_last [of "''whitebox_tempest_plugin''" root] assms by simp
  ultimately show ?thesis
    using assms by (simp add: load_tests_def path_join_def)
qed

theorem load_tests_paths_witness:
  "load_tests ''/opt/stack/whitebox_tempest_plugin/plugin.py'' =
     (''/opt/stack/whitebox_tempest_plugin/api'', ''/opt/stack'')"
  using load_tests_paths [of "''/opt/stack''"] by simp

end
