(* ===== verification/Utils.thy ===== *)
theory Utils
  imports Conf "HOL-Library.List_Lexorder" "HOL-Library.Char_ord" "HOL-Library.Multiset"
begin

text \<open>
  \<^verbatim>\<open>whitebox_tempest_plugin/utils.py\<close>: JSON documents in a form that can be compared, several
  context managers entered together, control plane addresses, and the description of the hosts
  (\<^verbatim>\<open>nodes.yaml\<close>), which is read once and kept in the module variable \<open>_nodes\<close>.
\<close>

section \<open>The system the plugin runs on\<close>

text \<open>
  A host of \<^verbatim>\<open>nodes.yaml\<close>, as the README describes the file: the services that run on it, each a
  mapping of strings (configuration file, start and stop commands, container name, \<dots>), and the
  CPU sets Nova is configured with.
\<close>

type_synonym service_dict = "(string \<times> string) list"

record host_details =
  hd_services :: "(string \<times> service_dict) list option"
  hd_cpu_dedicated_set :: "string option"
  hd_cpu_shared_set :: "string option"

type_synonym nodes = "(string \<times> host_details) list"

text \<open>
  What lies outside the repository and is reached by every component: the configuration, the
  reading of a YAML file, the execution of a command over SSH (address, user, key file, command)
  and the clock. \<open>clock\<close> is \<^verbatim>\<open>int(time.time())\<close>.
\<close>

record 'w sys_env =
  cfg :: conf
  read_nodes_yaml :: "string option \<Rightarrow> ('w, nodes) ext"
  ssh_exec :: "string \<Rightarrow> string \<Rightarrow> string \<Rightarrow> string \<Rightarrow> ('w, string) ext"
  clock :: "'w \<Rightarrow> int"
  sleep :: "int \<Rightarrow> 'w \<Rightarrow> 'w"

type_synonym ('c, 'w) proc = "(nodes, 'c, 'w) st"

section \<open>Normalising JSON\<close>

datatype json =
    JNull
  | JBool bool
  | JInt int
  | JStr string
  | JList "json list"
  | JDict "(string \<times> json) list"

fun is_num :: "json \<Rightarrow> bool" where
  "is_num (JInt n) = True" | "is_num (JBool b) = True" | "is_num _ = False"

fun num_key :: "json \<Rightarrow> int" where
  "num_key (JInt n) = n" | "num_key (JBool b) = (if b then 1 else 0)" | "num_key _ = 0"

fun is_str :: "json \<Rightarrow> bool" where
  "is_str (JStr s) = True" | "is_str _ = False"

fun str_key :: "json \<Rightarrow> string" where
  "str_key (JStr s) = s" | "str_key _ = []"

fun is_arr :: "json \<Rightarrow> bool" where
  "is_arr (JList xs) = True" | "is_arr _ = False"

text \<open>
  \<^verbatim>\<open>v.sort()\<close>. Lists with at most one element are never compared; numbers (booleans are numbers)
  and strings have their order, and any other list of scalars or dictionaries raises
  \<^verbatim>\<open>TypeError\<close>. The order of arrays of arrays is left to the parameter \<open>sort_arrays\<close>.
\<close>

definition py_list_sort :: "(json list \<Rightarrow> json list result) \<Rightarrow> json list \<Rightarrow> json list result" where
  "py_list_sort sort_arrays v =
     (if length v \<le> 1 then Inr v
      else if list_all is_num v then Inr (sort_key num_key v)
      else if list_all is_str v then Inr (sort_key str_key v)
      else if list_all is_arr v then sort_arrays v
      else Inl TypeError)"

text \<open>
  \<^verbatim>\<open>sort_list_values\<close>, on the items of a dictionary: a list value is sorted and the dictionaries
  among its elements are treated recursively, a dictionary value is treated recursively. The
  elements of an array of arrays are no dictionaries, so nothing follows its sorting.
\<close>

lemma bind_res_cong [fundef_cong]:
  assumes "m = m'" and "\<And>x. m' = Inr x \<Longrightarrow> f x = g x"
  shows "bind_res m f = bind_res m' g"
  using assms by (cases m') auto

lemma map_res_cong [fundef_cong]:
  assumes "xs = ys" and "\<And>x. x \<in> set ys \<Longrightarrow> f x = g x"
  shows "map_res f xs = map_res g ys"
proof -
  have "map_res f ys = map_res g ys"
    using assms(2) by (induction ys) simp_all
  with assms(1) show ?thesis by simp
qed

lemma py_list_sort_set:
  assumes "py_list_sort sa v = Inr w" and "\<not> (1 < length v \<and> list_all is_arr v)"
  shows "mset w = mset v"
  using assms unfolding py_list_sort_def
  by (cases "length v \<le> 1"; cases "list_all is_num v"; cases "list_all is_str v")
    (auto split: if_splits)

function sort_list_values ::
  "(json list \<Rightarrow> json list result) \<Rightarrow> (string \<times> json) list \<Rightarrow> (string \<times> json) list result"
and sort_value :: "(json list \<Rightarrow> json list result) \<Rightarrow> json \<Rightarrow> json result"
and sort_elem :: "(json list \<Rightarrow> json list result) \<Rightarrow> json \<Rightarrow> json result"
where
  "sort_list_values sa [] = Inr []"
| "sort_list_values sa ((k, v) # items) =
     bind_res (sort_value sa v) (\<lambda>v'.
     bind_res (sort_list_values sa items) (\<lambda>items'. Inr ((k, v') # items')))"
| "sort_value sa (JList v) =
     (if 1 < length v \<and> list_all is_arr v then bind_res (sa v) (\<lambda>w. Inr (JList w))
      else bind_res (py_list_sort sa v) (\<lambda>w.
           bind_res (map_res (sort_elem sa) w) (\<lambda>w'. Inr (JList w'))))"
| "sort_value sa (JDict d) = bind_res (sort_list_values sa d) (\<lambda>d'. Inr (JDict d'))"
| "sort_value sa JNull = Inr JNull"
| "sort_value sa (JBool b) = Inr (JBool b)"
| "sort_value sa (JInt n) = Inr (JInt n)"
| "sort_value sa (JStr s) = Inr (JStr s)"
| "sort_elem sa (JDict d) = bind_res (sort_list_values sa d) (\<lambda>d'. Inr (JDict d'))"
| "sort_elem sa (JList v) = Inr (JList v)"
| "sort_elem sa JNull = Inr JNull"
| "sort_elem sa (JBool b) = Inr (JBool b)"
| "sort_elem sa (JInt n) = Inr (JInt n)"
| "sort_elem sa (JStr s) = Inr (JStr s)"
  by pat_completeness auto
termination
proof (relation "measure (\<lambda>x. case x of
     Inl (sa, items) \<Rightarrow> 2 * size_list (size_prod (\<lambda>_. 0) size) items
   | Inr (Inl (sa, v)) \<Rightarrow> 2 * size v
   | Inr (Inr (sa, v)) \<Rightarrow> 2 * size v + 1)", simp_all)
  fix sa v w x
  assume "Suc 0 < length v \<longrightarrow> \<not> list_all is_arr v" and "py_list_sort sa v = Inr w"
    and x: "x \<in> set w"
  then have "mset w = mset v"
    by (intro py_list_sort_set) auto
  with x have "x \<in> set v"
    by (metis mset_eq_setD)
  then have "size x \<le> size_list size v"
    by (simp add: size_list_estimation')
  then show "2 * size x < Suc (2 * size_list size v)" by simp
qed

text \<open>
  \<^verbatim>\<open>jsonutils.loads(jsonutils.dumps(json, sort_keys=True))\<close> is a parameter; it gives a copy in
  which every dictionary lists its keys in increasing order.
\<close>

definition normalize_json ::
  "(json \<Rightarrow> json) \<Rightarrow> (json list \<Rightarrow> json list result) \<Rightarrow> json \<Rightarrow> json result" where
  "normalize_json dumps_loads sort_arrays json = (case dumps_loads json of
       JDict d \<Rightarrow> bind_res (sort_list_values sort_arrays d) (\<lambda>d'. Inr (JDict d'))
     | _ \<Rightarrow> Inl AttributeError)"

section \<open>Context managers, addresses, host descriptions\<close>

definition multicontext ::
  "('s, 'v) cm list \<Rightarrow> ('v list \<Rightarrow> ('s, 'a) prog) \<Rightarrow> ('s, 'a) prog" where
  "multicontext context_managers body = with_stack context_managers [] [] body"

definition get_ctlplane_address :: "conf \<Rightarrow> string \<Rightarrow> string result" where
  "get_ctlplane_address c compute_hostname = (case ctlplane_addresses c of
       None \<Rightarrow> Inr compute_hostname
     | Some addresses \<Rightarrow>
         (if addresses = [] then Inr compute_hostname
          else (case map_of addresses compute_hostname of
              Some a \<Rightarrow> Inr a
            | None \<Rightarrow> Inl (CtrlplaneAddressResolutionError compute_hostname))))"

definition get_all_hosts_details :: "('w, 'm) sys_env_scheme \<Rightarrow> (('c, 'w) proc, nodes) prog" where
  "get_all_hosts_details env = (\<lambda>s. case nodes_cache s of
       Some ns \<Rightarrow> ret ns s
     | None \<Rightarrow>
         bnd (external (read_nodes_yaml env (nodes_yaml (cfg env))))
           (\<lambda>ns s'. Some (Inr ns, s'\<lparr>nodes_cache := Some ns\<rparr>)) s)"

definition get_host_details ::
  "('w, 'm) sys_env_scheme \<Rightarrow> string \<Rightarrow> (('c, 'w) proc, host_details option) prog" where
  "get_host_details env host = (\<lambda>s. case nodes_cache s of
       Some ns \<Rightarrow> ret (map_of ns host) s
     | None \<Rightarrow>
         bnd (external (read_nodes_yaml env (nodes_yaml (cfg env))))
           (\<lambda>ns s'. Some (Inr (map_of ns host), s'\<lparr>nodes_cache := Some ns\<rparr>)) s)"

section \<open>Documents up to order\<close>

text \<open>What serialising with sorted keys and reading back does to a document.\<close>

primrec sort_keys :: "json \<Rightarrow> json" where
  "sort_keys JNull = JNull"
| "sort_keys (JBool b) = JBool b"
| "sort_keys (JInt n) = JInt n"
| "sort_keys (JStr s) = JStr s"
| "sort_keys (JList xs) = JList (map sort_keys xs)"
| "sort_keys (JDict d) = JDict (sort_key fst (map (map_prod id sort_keys) d))"

text \<open>
  Two documents are the same up to order if they differ in the order of the items of dictionaries
  and in the order of the elements of lists that are the values of dictionary items, at any depth.
\<close>

inductive same_doc :: "json \<Rightarrow> json \<Rightarrow> bool" where
  same_refl: "same_doc v v"
| same_dict: "mset d = mset d' \<Longrightarrow> same_doc (JDict d) (JDict d')"
| same_list: "mset xs = mset ys \<Longrightarrow> same_doc (JList xs) (JList ys)"
| same_item: "same_doc v v' \<Longrightarrow> same_doc (JDict (a @ (k, v) # b)) (JDict (a @ (k, v') # b))"
| same_single: "same_doc (JDict d) (JDict d') \<Longrightarrow> same_doc (JList [JDict d]) (JList [JDict d'])"
| same_trans: "same_doc u v \<Longrightarrow> same_doc v w \<Longrightarrow> same_doc u w"

text \<open>
  The documents the comparison is meant for: no key occurs twice in a dictionary, no list mixes
  booleans with integers (Python takes \<^verbatim>\<open>True\<close> and \<^verbatim>\<open>1\<close> for equal), and no list of several arrays is
  the value of an item.
\<close>

fun is_bool :: "json \<Rightarrow> bool" where
  "is_bool (JBool b) = True" | "is_bool _ = False"

fun is_int :: "json \<Rightarrow> bool" where
  "is_int (JInt n) = True" | "is_int _ = False"

fun is_dict :: "json \<Rightarrow> bool" where
  "is_dict (JDict d) = True" | "is_dict _ = False"

fun plain_doc :: "json \<Rightarrow> bool" where
  "plain_doc (JDict d) = (distinct (map fst d) \<and> (\<forall>x \<in> set d. plain_doc (snd x)))"
| "plain_doc (JList xs) =
     ((length xs \<le> 1 \<or> \<not> list_all is_arr xs) \<and>
      \<not> (list_ex is_bool xs \<and> list_ex is_int xs) \<and>
      (\<forall>x \<in> set xs. is_dict x \<longrightarrow> plain_doc x))"
| "plain_doc _ = True"

lemma sort_keys_is [simp]:
  "is_arr (sort_keys x) = is_arr x" "is_num (sort_keys x) = is_num x"
  "is_str (sort_keys x) = is_str x"
  by (cases x; simp)+

lemma sort_keys_atom: "is_num x \<or> is_str x \<Longrightarrow> sort_keys x = x"
  by (cases x) auto

lemma list_all_mset: "mset xs = mset ys \<Longrightarrow> list_all p xs = list_all p ys"
  by (metis Ball_set mset_eq_setD)

lemma list_ex_mset: "mset xs = mset ys \<Longrightarrow> list_ex p xs = list_ex p ys"
  by (metis Bex_set mset_eq_setD)

lemma sort_key_same_keys:
  assumes "list_all2 (\<lambda>p q. fst p = fst q \<and> R (snd p) (snd q)) xs ys"
  shows "list_all2 (\<lambda>p q. fst p = fst q \<and> R (snd p) (snd q)) (sort_key fst xs) (sort_key fst ys)"
proof -
  let ?Q = "\<lambda>p q. fst p = fst q \<and> R (snd p) (snd q)"
  have ins: "list_all2 ?Q (insort_key fst x zs) (insort_key fst y ws)"
    if "list_all2 ?Q zs ws" and "?Q x y" for x y zs ws
    using that by (induction rule: list_all2_induct) auto
  show ?thesis
    using assms by (induction rule: list_all2_induct) (auto intro: ins)
qed

lemma sort_list_values_cong:
  assumes "list_all2 (\<lambda>p q. fst p = fst q \<and> sort_value sa (snd p) = sort_value sa (snd q)) xs ys"
  shows "sort_list_values sa xs = sort_list_values sa ys"
  using assms by (induction rule: list_all2_induct) auto

lemma num_key_inj:
  assumes "list_all is_num xs" and "\<not> (list_ex is_bool xs \<and> list_ex is_int xs)"
  shows "inj_on num_key (set xs)"
proof (rule inj_onI)
  fix x y assume "x \<in> set xs" and "y \<in> set xs" and "num_key x = num_key y"
  with assms show "x = y"
    by (cases x; cases y) (auto simp: list_all_iff list_ex_iff split: if_splits)
qed

lemma str_key_inj: "list_all is_str xs \<Longrightarrow> inj_on str_key (set xs)"
proof (rule inj_onI)
  fix x y assume "list_all is_str xs" and "x \<in> set xs" and "y \<in> set xs" and "str_key x = str_key y"
  then show "x = y" by (cases x; cases y) (auto simp: list_all_iff)
qed

lemma sort_key_perm:
  "mset xs = mset ys \<Longrightarrow> inj_on f (set xs) \<Longrightarrow> sort_key f xs = sort_key f ys"
  by (rule sort_key_inj_key_eq) simp_all

lemma py_list_sort_perm:
  assumes "mset xs = mset ys" and "plain_doc (JList xs)"
  shows "py_list_sort sa (map sort_keys xs) = py_list_sort sa (map sort_keys ys)"
proof (cases "length xs \<le> 1")
  case True
  then have "xs = ys"
    using assms(1) by (cases xs; cases ys) (auto dest: mset_eq_length)
  then show ?thesis by simp
next
  case False
  have len: "length xs = length ys"
    using assms(1) by (rule mset_eq_length)
  have all: "list_all p xs = list_all p ys" for p :: "json \<Rightarrow> bool"
    using assms(1) by (rule list_all_mset)
  have keep: "map sort_keys zs = zs" if "list_all is_num zs \<or> list_all is_str zs" for zs
    using that by (intro map_idI) (auto simp: list_all_iff intro: sort_keys_atom)
  have lm: "list_all is_num (map sort_keys zs) = list_all is_num zs"
    "list_all is_str (map sort_keys zs) = list_all is_str zs"
    "list_all is_arr (map sort_keys zs) = list_all is_arr zs" for zs
    by (simp_all add: list_all_length)
  have num: "sort_key num_key xs = sort_key num_key ys" if "list_all is_num xs"
    using assms that by (intro sort_key_perm num_key_inj) auto
  have str: "sort_key str_key xs = sort_key str_key ys" if "list_all is_str xs"
    using assms(1) that by (intro sort_key_perm str_key_inj)
  have "\<not> list_all is_arr xs"
    using assms(2) False by simp
  then show ?thesis
    unfolding py_list_sort_def lm
    using False len num str all keep by simp
qed

lemma same_doc_normal:
  assumes "same_doc u v" and "plain_doc u"
  shows "plain_doc v \<and> sort_value sa (sort_keys u) = sort_value sa (sort_keys v) \<and>
    is_dict u = is_dict v"
  using assms
proof (induction rule: same_doc.induct)
  case (same_dict d d')
  let ?g = "map (map_prod id sort_keys)"
  have "mset (?g d) = mset (?g d')"
    using same_dict.hyps by simp
  moreover have "map fst (?g d) = map fst d"
    by simp
  then have "inj_on fst (set (?g d))"
    using same_dict.prems by (metis distinct_map plain_doc.simps(1))
  ultimately have "sort_key fst (?g d) = sort_key fst (?g d')"
    by (rule sort_key_perm)
  moreover have "plain_doc (JDict d')"
    using same_dict by (metis plain_doc.simps(1) mset_eq_setD mset_eq_imp_distinct_iff mset_map)
  ultimately show ?case by simp
next
  case (same_list xs ys)
  have ex: "list_ex p xs = list_ex p ys" and all: "list_all p xs = list_all p ys" for p :: "json \<Rightarrow> bool"
    using list_ex_mset [OF same_list.hyps] list_all_mset [OF same_list.hyps] by blast+
  have "set xs = set ys" and "length xs = length ys"
    using same_list.hyps by (auto dest: mset_eq_setD mset_eq_length)
  with same_list.prems ex all have plain: "plain_doc (JList ys)" by simp
  have unfold: "sort_value sa (sort_keys (JList zs)) =
      bind_res (py_list_sort sa (map sort_keys zs)) (\<lambda>w.
      bind_res (map_res (sort_elem sa) w) (\<lambda>w'. Inr (JList w')))" if "plain_doc (JList zs)" for zs
  proof -
    have "\<not> (1 < length (map sort_keys zs) \<and> list_all is_arr (map sort_keys zs))"
      using that by (auto simp: list_all_iff)
    then show ?thesis
      by (simp only: sort_keys.simps sort_value.simps if_False)
  qed
  show ?case
    using plain py_list_sort_perm [OF same_list] unfold [OF plain] unfold [OF same_list.prems]
    by (simp only: is_dict.simps)
next
  case (same_item v v' a k b)
  then have IH: "plain_doc v'" "sort_value sa (sort_keys v) = sort_value sa (sort_keys v')" by auto
  let ?g = "map (map_prod id sort_keys)"
  have "list_all2 (\<lambda>p q. fst p = fst q \<and> sort_value sa (snd p) = sort_value sa (snd q))
      (?g (a @ (k, v) # b)) (?g (a @ (k, v') # b))"
    using IH(2) by (auto intro!: list_all2_appendI list.rel_refl)
  from sort_list_values_cong [OF sort_key_same_keys [OF this]] IH(1) same_item.prems
  show ?case by auto
next
  case (same_single d d')
  then show ?case by (simp add: py_list_sort_def)
qed auto

lemma sort_list_values_no_result:
  assumes "(k, JList v) \<in> set items" and "1 < length v" and "\<exists>x \<in> set v. is_dict x"
  shows "\<nexists>r. sort_list_values sa items = Inr r"
proof -
  obtain x where x: "x \<in> set v" "is_dict x"
    using assms(3) by blast
  have "\<not> is_num x \<and> \<not> is_str x \<and> \<not> is_arr x"
    using x(2) by (cases x) simp_all
  with x(1) assms(2) have "sort_value sa (JList v) = Inl TypeError"
    by (auto simp: py_list_sort_def list_all_iff)
  with assms(1) show ?thesis
    by (induction items) (auto simp: bind_res_Inr_iff)
qed

section \<open>Properties\<close>

text \<open>C17. Normalising makes equality tests independent of order, for plain documents: two documents that differ
  only in the order of dictionary items and of the elements of list values, at any depth, normalise
  to the same result, if at no depth of the dictionaries, and of the dictionaries in lists, a dictionary
  has a key twice, a list consists of several elements that are all lists, or a list
  holds both booleans and integers.
  Writing a document as JSON with sorted keys and reading it back is taken to sort the keys of all dictionaries
  in it.\<close>

theorem normalize_json_same_doc:
  assumes dumps: "\<And>j. dumps_loads j = sort_keys j"
    and same: "same_doc u v" and plain: "plain_doc u"
  shows "normalize_json dumps_loads sort_arrays u = normalize_json dumps_loads sort_arrays v"
proof -
  have eq: "sort_value sort_arrays (sort_keys u) = sort_value sort_arrays (sort_keys v)"
    and dict: "is_dict u = is_dict v"
    using same_doc_normal [OF same plain] by auto
  have top: "normalize_json dumps_loads sort_arrays w =
      (if is_dict w then sort_value sort_arrays (sort_keys w) else Inl AttributeError)" for w
    by (cases w) (simp_all add: normalize_json_def dumps)
  show ?thesis by (simp add: top eq dict)
qed

theorem normalize_json_same_doc_witness:
  "normalize_json sort_keys Inr (JDict [(''b'', JList [JInt 3, JInt 1]), (''a'', JStr ''x'')]) =
   normalize_json sort_keys Inr (JDict [(''a'', JStr ''x''), (''b'', JList [JInt 1, JInt 3])])"
proof (rule normalize_json_same_doc)
  show "plain_doc (JDict [(''b'', JList [JInt 3, JInt 1]), (''a'', JStr ''x'')])" by simp
  have "same_doc (JDict ([] @ (''b'', JList [JInt 3, JInt 1]) # [(''a'', JStr ''x'')]))
      (JDict ([] @ (''b'', JList [JInt 1, JInt 3]) # [(''a'', JStr ''x'')]))"
    by (rule same_item, rule same_list) simp
  moreover have "same_doc (JDict [(''b'', JList [JInt 1, JInt 3]), (''a'', JStr ''x'')])
      (JDict [(''a'', JStr ''x''), (''b'', JList [JInt 1, JInt 3])])"
    by (rule same_dict) simp
  ultimately show "same_doc (JDict [(''b'', JList [JInt 3, JInt 1]), (''a'', JStr ''x'')])
      (JDict [(''a'', JStr ''x''), (''b'', JList [JInt 1, JInt 3])])"
    using same_trans by simp
qed simp

text \<open>Although it walks into the dictionaries of a list, normalising never succeeds on a document
  in which a list value has more than one element and one of them is a dictionary: sorting the list
  raises before the walk begins.\<close>

theorem normalize_json_rejects_dict_lists:
  assumes dumps: "\<And>j. dumps_loads j = sort_keys j"
    and item: "(k, JList v) \<in> set d" and len: "1 < length v" and dict: "\<exists>x \<in> set v. is_dict x"
  shows "\<nexists>r. normalize_json dumps_loads sort_arrays (JDict d) = Inr r"
proof -
  have is_dict_keys: "is_dict (sort_keys x) = is_dict x" for x by (cases x) auto
  have "(k, JList (map sort_keys v)) \<in> set (sort_key fst (map (map_prod id sort_keys) d))"
    using item by force
  moreover have "\<exists>x \<in> set (map sort_keys v). is_dict x"
    using dict by (auto simp: is_dict_keys)
  ultimately show ?thesis
    using sort_list_values_no_result [of k "map sort_keys v" _ sort_arrays] len
    by (auto simp: normalize_json_def dumps bind_res_Inr_iff)
qed

theorem normalize_json_rejects_dict_lists_witness:
  "\<nexists>r. normalize_json sort_keys Inr
     (JDict [(''cells'', JList [JDict [(''id'', JInt 0)], JDict [(''id'', JInt 1)]])]) = Inr r"
  by (rule normalize_json_rejects_dict_lists
      [where k = "''cells''" and v = "[JDict [(''id'', JInt 0)], JDict [(''id'', JInt 1)]]"]) auto

text \<open>C30. Entering several context managers together is entering them one inside the other: each is
  left after the ones entered later, whether the body or an exit raises or not, and a manager that
  fails to enter leaves those entered before it.\<close>

theorem multicontext_nested:
  "multicontext [] body = body [] \<and>
   multicontext (c # cs) body = with_cm c (\<lambda>v. multicontext cs (\<lambda>vs. body (v # vs)))"
  unfolding multicontext_def by (simp only: with_stack_Nil with_stack_Cons)

text \<open>C33. The host descriptions are read at most once: after a lookup that returned, the parsed file is
  kept, and every later lookup of any host and of the whole file answers from it without touching
  the outside world.\<close>

theorem host_details_read_once:
  assumes "get_host_details env host s = Some (Inr d, s')"
  shows "\<exists>ns. nodes_cache s' = Some ns \<and> d = map_of ns host \<and>
    get_host_details env' host' s' = Some (Inr (map_of ns host'), s') \<and>
    get_all_hosts_details env' s' = Some (Inr ns, s')"
  using assms
  by (auto simp: get_host_details_def get_all_hosts_details_def bnd_Inr_iff prog_simps
      split: option.splits)

definition quiet_env :: "unit sys_env" where
  "quiet_env = \<lparr>cfg = default_conf 300 1 ''img'' ''10.0.0.0/24'',
     read_nodes_yaml = (\<lambda>p w. (Inr [(''compute1'', \<lparr>hd_services = None,
        hd_cpu_dedicated_set = Some ''0-1'', hd_cpu_shared_set = None\<rparr>)], w)),
     ssh_exec = (\<lambda>a u k c w. (Inr [], w)), clock = (\<lambda>w. 0), sleep = (\<lambda>n w. w)\<rparr>"

theorem host_details_read_once_witness:
  "\<exists>ns. get_host_details quiet_env ''compute2''
      (\<lparr>nodes_cache = Some ns, cleanups = [] :: unit list, world = ()\<rparr>) =
    Some (Inr (map_of ns ''compute2''), \<lparr>nodes_cache = Some ns, cleanups = [], world = ()\<rparr>)"
proof -
  let ?s = "\<lparr>nodes_cache = None, cleanups = [] :: unit list, world = ()\<rparr>"
  obtain d s' where h: "get_host_details quiet_env ''compute1'' ?s = Some (Inr d, s')"
    and s': "\<exists>ns. s' = ?s\<lparr>nodes_cache := Some ns\<rparr>"
    by (simp add: get_host_details_def bnd_def external_def quiet_env_def)
  from host_details_read_once [OF h, of quiet_env "''compute2''"] s' show ?thesis
    by auto
qed

end
