(* ===== verification/Waiters.thy ===== *)
theory Waiters
  imports Utils
begin

text \<open>
  \<^verbatim>\<open>whitebox_tempest_plugin/common/waiters.py\<close>: the loops that poll Nova and Placement until a
  service, a migration or a trait has reached the wanted state, or until a timeout.

  Every waiter is one turn of its loop (a \<open>step\<close>) and the loop over it. Each is shown to leave
  normally only after an answer with the wanted state, and to return after a bounded number of
  polls if the clock is not set back and sleeping takes time; both come from the contract
  \<open>polling\<close>, of which every loop is an instance.
\<close>

section \<open>The services that are polled\<close>

type_synonym api_object = "(string \<times> string) list"

text \<open>
  \<open>list_services\<close> is \<^verbatim>\<open>services_client.list_services(host=..., binary=...)['services']\<close>, with no host
  given for \<open>None\<close>; \<open>services_timeout\<close> and \<open>services_interval\<close> are the client's \<open>build_timeout\<close>
  and \<open>build_interval\<close>.
\<close>

record 'w nova_env = "'w sys_env" +
  list_services :: "string option \<Rightarrow> string \<Rightarrow> ('w, api_object list) ext"
  services_timeout :: int
  services_interval :: int
  list_migrations :: "('w, api_object list) ext"
  list_rp_traits :: "string \<Rightarrow> ('w, string list) ext"

section \<open>Waiting for the state of a Nova service\<close>

text \<open>\<^verbatim>\<open>client.list_services(host=host, binary=binary)['services'][0]\<close>\<close>

definition py_first :: "'a list \<Rightarrow> 'a result" where
  "py_first xs = (case xs of [] \<Rightarrow> Inl IndexError | x # _ \<Rightarrow> Inr x)"

definition poll_service ::
  "('w, 'm) nova_env_scheme \<Rightarrow> string \<Rightarrow> string \<Rightarrow> ('w, api_object) ext" where
  "poll_service env host binary w =
     (case list_services env (Some host) binary w of (r, w') \<Rightarrow> (bind_res r py_first, w'))"

record service_wait =
  sw_host :: string
  sw_binary :: string
  sw_status_field :: string
  sw_state :: string
  sw_start_time :: int
  sw_timeout :: int

text \<open>The test of the \<^verbatim>\<open>while\<close> loop and its body, from the last service seen.\<close>

definition service_state_step ::
  "('w, 'm) nova_env_scheme \<times> service_wait \<Rightarrow> api_object \<times> ('c, 'w) proc \<Rightarrow>
   (unit result \<times> ('c, 'w) proc) + (api_object \<times> ('c, 'w) proc)" where
  "service_state_step = (\<lambda>(env, q) (service, s).
     (case map_of service (sw_status_field q) of
        None \<Rightarrow> Inl (Inl (KeyError (sw_status_field q)), s)
      | Some v \<Rightarrow>
          (if v = sw_state q then Inl (Inr (), s)
           else if services_interval env < 0 then Inl (Inl ValueError, s)
           else (let s1 = s\<lparr>world := sleep env (services_interval env) (world s)\<rparr>;
                     timed_out = (clock env (world s1) - sw_start_time q \<ge> sw_timeout q)
                 in if timed_out then Inl (Inl TimeoutException, s1)
                    else (case poll_service env (sw_host q) (sw_binary q) (world s1) of
                        (Inr service', w) \<Rightarrow> Inr (service', s1\<lparr>world := w\<rparr>)
                      | (Inl e, w) \<Rightarrow> Inl (Inl e, s1\<lparr>world := w\<rparr>))))))"

definition wait_for_nova_service_state ::
  "('w, 'm) nova_env_scheme \<Rightarrow> string \<Rightarrow> string \<Rightarrow> string \<Rightarrow> string \<Rightarrow> (('c, 'w) proc, unit) prog" where
  "wait_for_nova_service_state env host binary status_field state = (\<lambda>s.
     (let timeout = services_timeout env;
          start_time = clock env (world s)
      in bnd (external (poll_service env host binary))
           (\<lambda>service s'. iterate (service_state_step (env,
               \<lparr>sw_host = host, sw_binary = binary, sw_status_field = status_field,
                sw_state = state, sw_start_time = start_time, sw_timeout = timeout\<rparr>))
             (service, s')) s))"

section \<open>Waiting for a migration\<close>

text \<open>The last element of a list, as \<^verbatim>\<open>xs[-1]\<close> reads it.\<close>

definition py_last :: "'a list \<Rightarrow> 'a result" where
  "py_last xs = (if xs = [] then Inl IndexError else Inr (last xs))"

definition py_key :: "api_object \<Rightarrow> string \<Rightarrow> string result" where
  "py_key d k = (case map_of d k of None \<Rightarrow> Inl (KeyError k) | Some v \<Rightarrow> Inr v)"

definition migration_step ::
  "('w, 'm) nova_env_scheme \<times> int \<Rightarrow> ('c, 'w) proc \<Rightarrow>
   (unit result \<times> ('c, 'w) proc) + ('c, 'w) proc" where
  "migration_step = (\<lambda>(env, start_time) s.
     (let timeout = services_timeout env;
          interval = services_interval env + 1
      in if clock env (world s) - start_time \<le> timeout
         then (case list_migrations env (world s) of (r, w) \<Rightarrow>
           (let s1 = s\<lparr>world := w\<rparr> in
            case bind_res r (\<lambda>migs. bind_res (py_last migs) (\<lambda>m. py_key m ''status'')) of
              Inl e \<Rightarrow> Inl (Inl e, s1)
            | Inr status \<Rightarrow>
                (if status \<in> {''done'', ''completed''} then Inl (Inr (), s1)
                 else if status \<in> {''error'', ''failed''} then Inl (Inl MigrationException, s1)
                 else if interval < 0 then Inl (Inl ValueError, s1)
                 else Inr (s1\<lparr>world := sleep env interval (world s1)\<rparr>))))
         else Inl (Inl TimeoutException, s)))"

definition wait_for_server_migration_complete ::
  "('w, 'm) nova_env_scheme \<Rightarrow> string \<Rightarrow> (('c, 'w) proc, unit) prog" where
  "wait_for_server_migration_complete env server_id =
     (\<lambda>s. iterate (migration_step (env, clock env (world s))) s)"

section \<open>Waiting for a trait\<close>

definition trait_step ::
  "('w, 'm) nova_env_scheme \<times> string \<times> string \<times> int \<Rightarrow> ('c, 'w) proc \<Rightarrow>
   (bool result \<times> ('c, 'w) proc) + ('c, 'w) proc" where
  "trait_step = (\<lambda>(env, trait, provider, start_time) s.
     (let timeout = build_timeout (cfg env);
          interval = build_interval (cfg env)
      in if clock env (world s) - start_time \<le> timeout
         then (case list_rp_traits env provider (world s) of (r, w) \<Rightarrow>
           (let s1 = s\<lparr>world := w\<rparr> in
            case r of
              Inl e \<Rightarrow> Inl (Inl e, s1)
            | Inr traits \<Rightarrow>
                (if trait \<in> set traits then Inl (Inr True, s1)
                 else if interval < 0 then Inl (Inl ValueError, s1)
                 else Inr (s1\<lparr>world := sleep env interval (world s1)\<rparr>))))
         else Inl (Inl TimeoutException, s)))"

definition wait_for_trait_add_in_rp ::
  "('w, 'm) nova_env_scheme \<Rightarrow> string \<Rightarrow> string \<Rightarrow> (('c, 'w) proc, bool) prog" where
  "wait_for_trait_add_in_rp env trait provider =
     (\<lambda>s. iterate (trait_step (env, trait, provider, clock env (world s))) s)"

section \<open>The clock\<close>

text \<open>
  What the termination of the loops rests on: sleeping takes at least the time asked for, and no
  call sets the clock back.
\<close>

definition sleep_advances :: "('w, 'm) sys_env_scheme \<Rightarrow> bool" where
  "sleep_advances env \<longleftrightarrow> (\<forall>n w. 0 \<le> n \<longrightarrow> clock env w + n \<le> clock env (sleep env n w))"

definition never_back :: "('w, 'm) sys_env_scheme \<Rightarrow> ('w, 'a) ext \<Rightarrow> bool" where
  "never_back env f \<longleftrightarrow> (\<forall>w. clock env w \<le> clock env (snd (f w)))"

lemma sleep_advancesD: "sleep_advances env \<Longrightarrow> 0 \<le> n \<Longrightarrow> clock env w + n \<le> clock env (sleep env n w)"
  by (simp add: sleep_advances_def)

lemma never_backD: "never_back env f \<Longrightarrow> clock env w \<le> clock env (snd (f w))"
  by (simp add: never_back_def)

section \<open>The loops keep the contract of polling\<close>

lemma py_first_Inr_iff: "py_first xs = Inr x \<longleftrightarrow> (\<exists>rest. xs = x # rest)"
  by (cases xs) (auto simp: py_first_def)

lemma py_first_Inl_iff: "py_first xs = Inl e \<longleftrightarrow> xs = [] \<and> e = IndexError"
  by (cases xs) (auto simp: py_first_def)

lemma poll_service_Inr_iff:
  "poll_service env host binary w = (Inr service, w') \<longleftrightarrow>
     (\<exists>rest. list_services env (Some host) binary w = (Inr (service # rest), w'))"
  by (auto simp: poll_service_def py_first_Inr_iff bind_res_Inr_iff split: prod.splits)

lemma service_state_step_Inr:
  assumes "service_state_step (env, q) (service, s) = Inr (service', s')"
  obtains w where "w = sleep env (services_interval env) (world s)"
    and "0 \<le> services_interval env"
    and "clock env w - sw_start_time q < sw_timeout q"
    and "poll_service env (sw_host q) (sw_binary q) w = (Inr service', world s')"
  using assms
  by (auto simp: service_state_step_def Let_def not_less split: option.splits if_splits prod.splits sum.splits)

definition service_clock_ok :: "('w, 'm) nova_env_scheme \<Rightarrow> bool" where
  "service_clock_ok env \<longleftrightarrow> sleep_advances env \<and> 1 \<le> services_interval env \<and>
     (\<forall>h b. never_back env (list_services env h b))"

lemma service_state_progress:
  assumes ok: "service_clock_ok env"
    and st: "service_state_step (env, q) (service, s) = Inr (service', s')"
  shows "nat (sw_timeout q - (clock env (world s') - sw_start_time q))
    < nat (sw_timeout q - (clock env (world s) - sw_start_time q))"
proof -
  let ?w = "sleep env (services_interval env) (world s)"
  from st have lt: "clock env ?w - sw_start_time q < sw_timeout q"
    and poll: "poll_service env (sw_host q) (sw_binary q) ?w = (Inr service', world s')"
    by (auto elim!: service_state_step_Inr)
  obtain rest where "list_services env (Some (sw_host q)) (sw_binary q) ?w
      = (Inr (service' # rest), world s')"
    using poll by (auto simp: poll_service_Inr_iff)
  then have "clock env ?w \<le> clock env (world s')"
    using ok never_backD [of env "list_services env (Some (sw_host q)) (sw_binary q)" ?w]
    by (simp add: service_clock_ok_def)
  moreover have "clock env (world s) + services_interval env \<le> clock env ?w"
    using ok by (intro sleep_advancesD) (auto simp: service_clock_ok_def)
  ultimately show ?thesis
    using ok lt by (simp add: service_clock_ok_def)
qed

interpretation service_poll: polling "\<lambda>(env, q). service_clock_ok env" service_state_step
  "\<lambda>(env, q) (service, s). nat (sw_timeout q - (clock env (world s) - sw_start_time q))"
proof
  fix p and x y :: "api_object \<times> ('c, 'w) proc"
  assume "case p of (env, q) \<Rightarrow> service_clock_ok env" and "service_state_step p x = Inr y"
  then show "(case p of (env, q) \<Rightarrow> \<lambda>(service, s).
        nat (sw_timeout q - (clock env (world s) - sw_start_time q))) y
    < (case p of (env, q) \<Rightarrow> \<lambda>(service, s).
        nat (sw_timeout q - (clock env (world s) - sw_start_time q))) x"
    by (cases p; cases x; cases y) (simp only: prod.case service_state_progress)
qed

lemma migration_step_Inr:
  assumes "migration_step (env, start) s = Inr s'"
  shows "clock env (world s) - start \<le> services_timeout env \<and> 0 \<le> services_interval env + 1 \<and>
    world s' = sleep env (services_interval env + 1) (snd (list_migrations env (world s)))"
  using assms
  by (auto simp: migration_step_def Let_def split: prod.splits sum.splits if_splits)

definition migration_clock_ok :: "('w, 'm) nova_env_scheme \<Rightarrow> bool" where
  "migration_clock_ok env \<longleftrightarrow> sleep_advances env \<and> 0 \<le> services_interval env \<and>
     never_back env (list_migrations env)"

lemma migration_progress:
  assumes ok: "migration_clock_ok env" and st: "migration_step (env, start) s = Inr s'"
  shows "nat (services_timeout env + 1 - (clock env (world s') - start))
    < nat (services_timeout env + 1 - (clock env (world s) - start))"
proof -
  let ?w = "snd (list_migrations env (world s))"
  have "clock env (world s) \<le> clock env ?w"
    using ok by (simp add: migration_clock_ok_def never_backD)
  moreover have "clock env ?w + (services_interval env + 1) \<le> clock env (world s')"
    using ok migration_step_Inr [OF st] by (auto simp: migration_clock_ok_def intro!: sleep_advancesD)
  ultimately show ?thesis
    using ok migration_step_Inr [OF st] by (auto simp: migration_clock_ok_def)
qed

interpretation migration_poll: polling "\<lambda>(env, start). migration_clock_ok env" migration_step
  "\<lambda>(env, start) s. nat (services_timeout env + 1 - (clock env (world s) - start))"
proof
  fix p and x y :: "('c, 'w) proc"
  assume "case p of (env, start) \<Rightarrow> migration_clock_ok env" and "migration_step p x = Inr y"
  then show "(case p of (env, start) \<Rightarrow> \<lambda>s.
        nat (services_timeout env + 1 - (clock env (world s) - start))) y
    < (case p of (env, start) \<Rightarrow> \<lambda>s.
        nat (services_timeout env + 1 - (clock env (world s) - start))) x"
    by (cases p) (simp only: prod.case migration_progress)
qed

lemma trait_step_Inr:
  assumes "trait_step (env, trait, provider, start) s = Inr s'"
  shows "clock env (world s) - start \<le> build_timeout (cfg env) \<and> 0 \<le> build_interval (cfg env) \<and>
    world s' = sleep env (build_interval (cfg env)) (snd (list_rp_traits env provider (world s)))"
  using assms
  by (auto simp: trait_step_def Let_def split: prod.splits sum.splits if_splits)

definition trait_clock_ok :: "('w, 'm) nova_env_scheme \<Rightarrow> bool" where
  "trait_clock_ok env \<longleftrightarrow> sleep_advances env \<and> 1 \<le> build_interval (cfg env) \<and>
     (\<forall>p. never_back env (list_rp_traits env p))"

lemma trait_progress:
  assumes ok: "trait_clock_ok env" and st: "trait_step (env, trait, provider, start) s = Inr s'"
  shows "nat (build_timeout (cfg env) + 1 - (clock env (world s') - start))
    < nat (build_timeout (cfg env) + 1 - (clock env (world s) - start))"
proof -
  let ?w = "snd (list_rp_traits env provider (world s))"
  have "clock env (world s) \<le> clock env ?w"
    using ok by (simp add: trait_clock_ok_def never_backD)
  moreover have "clock env ?w + build_interval (cfg env) \<le> clock env (world s')"
    using ok trait_step_Inr [OF st] by (auto simp: trait_clock_ok_def intro!: sleep_advancesD)
  ultimately show ?thesis
    using ok trait_step_Inr [OF st] by (auto simp: trait_clock_ok_def)
qed

interpretation trait_poll: polling "\<lambda>(env, trait, provider, start). trait_clock_ok env" trait_step
  "\<lambda>(env, trait, provider, start) s.
     nat (build_timeout (cfg env) + 1 - (clock env (world s) - start))"
proof
  fix p and x y :: "('c, 'w) proc"
  assume "case p of (env, trait, provider, start) \<Rightarrow> trait_clock_ok env" and "trait_step p x = Inr y"
  then show "(case p of (env, trait, provider, start) \<Rightarrow> \<lambda>s.
        nat (build_timeout (cfg env) + 1 - (clock env (world s) - start))) y
    < (case p of (env, trait, provider, start) \<Rightarrow> \<lambda>s.
        nat (build_timeout (cfg env) + 1 - (clock env (world s) - start))) x"
    by (cases p) (simp only: prod.case trait_progress)
qed

lemma service_state_step_leaves:
  assumes st: "service_state_step (env, q) (service, s) = Inl (r, s')"
  shows "(r = Inr () \<longrightarrow> s' = s \<and> map_of service (sw_status_field q) = Some (sw_state q)) \<and>
    (r = Inl TimeoutException \<longrightarrow>
       sw_timeout q \<le> clock env (world s') - sw_start_time q \<or>
       (\<exists>w. list_services env (Some (sw_host q)) (sw_binary q) w = (Inl TimeoutException, world s')))"
  using st
  by (auto simp: service_state_step_def poll_service_def py_first_Inl_iff Let_def bind_res_Inl_iff
      split: option.splits if_splits prod.splits sum.splits)

lemma py_last_key_Inr_iff:
  "bind_res r (\<lambda>migs. bind_res (py_last migs) (\<lambda>m. py_key m k)) = Inr v \<longleftrightarrow>
     (\<exists>migs. r = Inr migs \<and> migs \<noteq> [] \<and> map_of (last migs) k = Some v)"
  by (auto simp: bind_res_Inr_iff py_last_def py_key_def split: option.splits)

lemma py_last_key_Inl_iff:
  "bind_res r (\<lambda>migs. bind_res (py_last migs) (\<lambda>m. py_key m k)) = Inl e \<longleftrightarrow>
     r = Inl e \<or> (\<exists>migs. r = Inr migs \<and> (migs = [] \<and> e = IndexError \<or>
       migs \<noteq> [] \<and> map_of (last migs) k = None \<and> e = KeyError k))"
  by (cases r) (auto simp: bind_res_Inl_iff py_last_def py_key_def split: option.split)

text \<open>The ways out of the migration loop.\<close>

lemma migration_step_leaves:
  assumes st: "migration_step (env, start) s = Inl (r, s')"
  obtains
    (timeout) "services_timeout env < clock env (world s) - start" "r = Inl TimeoutException" "s' = s"
  | (raised) e where "list_migrations env (world s) = (Inl e, world s')" "r = Inl e"
  | (malformed) migs where "list_migrations env (world s) = (Inr migs, world s')"
      "r = Inl IndexError \<or> r = Inl (KeyError ''status'') \<or> r = Inl ValueError"
  | (finished) migs status where "list_migrations env (world s) = (Inr migs, world s')" "migs \<noteq> []"
      "map_of (last migs) ''status'' = Some status"
      "if status \<in> {''done'', ''completed''} then r = Inr ()
       else status \<in> {''error'', ''failed''} \<and> r = Inl MigrationException"
proof (cases "clock env (world s) - start \<le> services_timeout env")
  case False
  then have "migration_step (env, start) s = Inl (Inl TimeoutException, s)"
    by (simp add: migration_step_def Let_def)
  with st False show ?thesis by (intro timeout) auto
next
  case True
  obtain q w where q: "list_migrations env (world s) = (q, w)" by fastforce
  let ?status = "bind_res q (\<lambda>migs. bind_res (py_last migs) (\<lambda>m. py_key m ''status''))"
  show ?thesis
  proof (cases ?status)
    case (Inl e)
    have "migration_step (env, start) s = Inl (Inl e, s\<lparr>world := w\<rparr>)"
      by (simp only: migration_step_def Let_def prod.case True if_True q Inl sum.case)
    with st have "r = Inl e" and "world s' = w" by auto
    have "q = Inl e \<or> (\<exists>migs. q = Inr migs) \<and> (e = IndexError \<or> e = KeyError ''status'')"
      using Inl unfolding py_last_key_Inl_iff by blast
    then consider "q = Inl e" | migs where "q = Inr migs" "e = IndexError \<or> e = KeyError ''status''"
      by blast
    then show ?thesis
    proof cases
      case 1
      with q \<open>r = Inl e\<close> \<open>world s' = w\<close> show ?thesis by (intro raised) simp_all
    next
      case 2
      with q \<open>r = Inl e\<close> \<open>world s' = w\<close> show ?thesis by (intro malformed [of migs]) auto
    qed
  next
    case (Inr status)
    have "(if status \<in> {''done'', ''completed''} then Inl (Inr (), s\<lparr>world := w\<rparr>)
        else if status \<in> {''error'', ''failed''} then Inl (Inl MigrationException, s\<lparr>world := w\<rparr>)
        else if services_interval env + 1 < 0 then Inl (Inl ValueError, s\<lparr>world := w\<rparr>)
        else Inr (s\<lparr>world := w, world :=
          sleep env (services_interval env + 1) (world (s\<lparr>world := w\<rparr>))\<rparr>)) = Inl (r, s')"
      using st by (simp only: migration_step_def Let_def prod.case True if_True q Inr sum.case)
    then have "world s' = w" and outcome: "if status \<in> {''done'', ''completed''} then r = Inr ()
        else if status \<in> {''error'', ''failed''} then r = Inl MigrationException else r = Inl ValueError"
      by (simp_all split: if_splits) auto
    moreover from Inr obtain migs where "q = Inr migs" "migs \<noteq> []"
        "map_of (last migs) ''status'' = Some status"
      unfolding py_last_key_Inr_iff by blast
    ultimately have at: "list_migrations env (world s) = (Inr migs, world s')" "migs \<noteq> []"
        "map_of (last migs) ''status'' = Some status"
      using q by simp_all
    show ?thesis
    proof (cases "status \<in> {''done'', ''completed'', ''error'', ''failed''}")
      case True
      with at outcome show ?thesis by (intro finished [of migs status]) (auto split: if_splits)
    next
      case False
      with outcome have "r = Inl ValueError" by (auto split: if_splits)
      with at(1) show ?thesis by (intro malformed [of migs]) simp_all
    qed
  qed
qed

lemma trait_step_leaves:
  assumes "trait_step (env, trait, provider, start) s = Inl (r, s')"
  shows "(\<forall>b. r = Inr b \<longrightarrow> b \<and> (\<exists>traits.
       list_rp_traits env provider (world s) = (Inr traits, world s') \<and> trait \<in> set traits)) \<and>
    (r = Inl TimeoutException \<longrightarrow> build_timeout (cfg env) < clock env (world s') - start \<or>
       list_rp_traits env provider (world s) = (Inl TimeoutException, world s'))"
  using assms
  by (auto simp: trait_step_def Let_def split: prod.splits sum.splits if_splits)

text \<open>Nova's answer from \<open>w\<close>, which leads to \<open>w'\<close>, gives the last migration the status \<open>status\<close>.\<close>

definition last_status :: "('w, 'm) nova_env_scheme \<Rightarrow> 'w \<Rightarrow> 'w \<Rightarrow> string \<Rightarrow> bool" where
  "last_status env w w' status \<longleftrightarrow> (\<exists>migs. list_migrations env w = (Inr migs, w') \<and> migs \<noteq> [] \<and>
     map_of (last migs) ''status'' = Some status)"

lemma migration_wait_leaves:
  assumes "migration_step (env, start) s = Inl (r, s')"
  shows "(r = Inr () \<longrightarrow> (\<exists>w. last_status env w (world s') ''done'' \<or>
       last_status env w (world s') ''completed'')) \<and>
    (r = Inl MigrationException \<longrightarrow> (\<exists>w. last_status env w (world s') ''error'' \<or>
       last_status env w (world s') ''failed'' \<or>
       list_migrations env w = (Inl MigrationException, world s'))) \<and>
    (r = Inl TimeoutException \<longrightarrow> services_timeout env < clock env (world s') - start \<or>
       (\<exists>w. list_migrations env w = (Inl TimeoutException, world s')))"
  using assms
proof (cases rule: migration_step_leaves)
  case (finished migs status)
  then have "last_status env (world s) (world s') status"
    by (simp add: last_status_def)
  with finished(4) show ?thesis by (auto split: if_split_asm)
qed auto

text \<open>Every run of the service waiter that returns ends in the first poll or in a turn of the loop.\<close>

definition service_query ::
  "('w, 'm) nova_env_scheme \<Rightarrow> string \<Rightarrow> string \<Rightarrow> string \<Rightarrow> string \<Rightarrow> int \<Rightarrow> service_wait" where
  "service_query env host binary field state start_time =
     \<lparr>sw_host = host, sw_binary = binary, sw_status_field = field, sw_state = state,
      sw_start_time = start_time, sw_timeout = services_timeout env\<rparr>"

lemma run_service_wait:
  "wait_for_nova_service_state env host binary field state s =
     (case poll_service env host binary (world s) of
        (Inl e, w) \<Rightarrow> Some (Inl e, s\<lparr>world := w\<rparr>)
      | (Inr service, w) \<Rightarrow>
          iterate (service_state_step (env, service_query env host binary field state (clock env (world s))))
            (service, s\<lparr>world := w\<rparr>))"
  by (simp add: wait_for_nova_service_state_def service_query_def bnd_def prog_simps Let_def
      split: prod.split sum.split)

lemma service_wait_returns:
  assumes "service_clock_ok env"
  shows "\<exists>r s'. wait_for_nova_service_state env host binary field state s = Some (r, s')"
  using service_poll.returns [of "(env, _)"] assms
  by (auto simp: run_service_wait split: prod.split sum.split)

lemma returns_service_wait [returns_intros]:
  "service_clock_ok env \<Longrightarrow>
    always_returns (wait_for_nova_service_state env host binary field state)"
  unfolding always_returns_def using service_wait_returns by blast

lemma service_wait_last_turn:
  assumes run: "wait_for_nova_service_state env host binary field state s = Some (r, s')"
  obtains (first_poll) e where "poll_service env host binary (world s) = (Inl e, world s')" "r = Inl e"
  | (turn) service w rest s1 where
      "list_services env (Some host) binary w = (Inr (service # rest), world s1)"
      "service_state_step (env, service_query env host binary field state (clock env (world s)))
        (service, s1) = Inl (r, s')"
proof -
  let ?step = "service_state_step (env, service_query env host binary field state (clock env (world s)))"
  let ?seen = "\<lambda>(service, s'). \<exists>w rest.
    list_services env (Some host) binary w = (Inr (service # rest), world s')"
  obtain r0 w0 where poll: "poll_service env host binary (world s) = (r0, w0)"
    by fastforce
  show thesis
  proof (cases r0)
    case (Inl e)
    with run poll show thesis by (intro first_poll) (auto simp: run_service_wait)
  next
    case (Inr service)
    let ?x = "(service, s\<lparr>world := w0\<rparr>)"
    have "iterate ?step ?x = Some (r, s')"
      using run poll Inr by (simp add: run_service_wait)
    then have "\<exists>y. ?seen y \<and> ?step y = Inl (r, s')"
    proof (rule iterate_invariant)
      show "?seen ?x" using poll Inr by (auto simp: poll_service_Inr_iff)
      show "?seen z" if "?step y = Inr z" for y z
        using that by (cases y; cases z)
          (auto elim!: service_state_step_Inr simp: poll_service_Inr_iff service_query_def)
    qed
    then show thesis using turn by auto
  qed
qed

lemma service_wait_reached:
  assumes run: "wait_for_nova_service_state env host binary field state s = Some (Inr (), s')"
  shows "\<exists>w service rest. list_services env (Some host) binary w = (Inr (service # rest), world s') \<and>
    map_of service field = Some state"
  using run
  by (cases rule: service_wait_last_turn)
    (fastforce dest!: service_state_step_leaves simp: service_query_def)+

lemma service_wait_timeout:
  assumes run: "wait_for_nova_service_state env host binary field state s = Some (Inl TimeoutException, s')"
  shows "services_timeout env \<le> clock env (world s') - clock env (world s) \<or>
    (\<exists>w. list_services env (Some host) binary w = (Inl TimeoutException, world s'))"
  using run
proof (cases rule: service_wait_last_turn)
  case (first_poll e)
  then show ?thesis
    by (auto simp: poll_service_def bind_res_Inl_iff py_first_Inl_iff split: prod.splits)
next
  case (turn service w rest s1)
  then show ?thesis by (auto dest!: service_state_step_leaves simp: service_query_def)
qed

text \<open>What the polled calls and sleeping keep of the outside world, waiting keeps.\<close>

definition polling_keeps :: "('w, 'm) nova_env_scheme \<Rightarrow> ('w \<Rightarrow> bool) \<Rightarrow> bool" where
  "polling_keeps env P \<longleftrightarrow> (\<forall>h b w. P w \<longrightarrow> P (snd (list_services env h b w))) \<and>
     (\<forall>n w. P w \<longrightarrow> P (sleep env n w))"

lemma poll_service_snd: "snd (poll_service env host binary w) = snd (list_services env (Some host) binary w)"
  by (simp add: poll_service_def split: prod.split)

lemma service_state_step_keeps:
  assumes "polling_keeps env P" and "P (world s)"
  shows "case service_state_step (env, q) (service, s) of
      Inl (r, s') \<Rightarrow> P (world s') | Inr (service', s') \<Rightarrow> P (world s')"
proof -
  let ?w = "sleep env (services_interval env) (world s)"
  have "P ?w" and "P (snd (poll_service env (sw_host q) (sw_binary q) ?w))"
    using assms by (simp_all add: polling_keeps_def poll_service_snd)
  then show ?thesis
    using assms(2)
    by (auto simp: service_state_step_def Let_def split: option.split prod.split sum.split)
qed

lemma keeps_service_wait [keeps_intros]:
  fixes env :: "('w, 'm) nova_env_scheme"
  assumes P: "polling_keeps env P"
  shows "keeps (\<lambda>s. P (world s)) (wait_for_nova_service_state env host binary field state)"
  unfolding keeps_def
proof (intro allI impI)
  fix s :: "('c, 'w) proc" and r s'
  assume s: "P (world s)" and run: "wait_for_nova_service_state env host binary field state s = Some (r, s')"
  let ?q = "service_query env host binary field state (clock env (world s))"
  let ?step = "service_state_step (env, ?q)"
  obtain r0 w0 where poll: "poll_service env host binary (world s) = (r0, w0)" by fastforce
  have w0: "P w0"
    using P s poll poll_service_snd [of env host binary "world s"] by (simp add: polling_keeps_def)
  show "P (world s')"
  proof (cases r0)
    case (Inl e)
    with run poll w0 show ?thesis by (auto simp: run_service_wait)
  next
    case (Inr service)
    have "iterate ?step (service, s\<lparr>world := w0\<rparr>) = Some (r, s')"
      using run poll Inr by (simp add: run_service_wait)
    then have "\<exists>y. P (world (snd y)) \<and> ?step y = Inl (r, s')"
    proof (rule iterate_invariant)
      show "P (world (snd (service, s\<lparr>world := w0\<rparr>)))" using w0 by simp
      show "P (world (snd z))" if "P (world (snd y))" and "?step y = Inr z" for y z
        using service_state_step_keeps [OF P that(1), of ?q "fst y"] that(2) by (simp add: split_beta)
    qed
    then obtain y where y: "P (world (snd y))" "?step y = Inl (r, s')" by blast
    show ?thesis
      using service_state_step_keeps [OF P y(1), of ?q "fst y"] y(2) by (simp add: split_beta)
  qed
qed

section \<open>Properties\<close>

text \<open>C5. Waiting for a service always returns, provided no call sets the clock back and the client
  sleeps at least a second between two polls. It returns normally only when the last answer of Nova
  had the wanted state as the status of the first service of that host and binary, and it raises
  the timeout only when the timeout has passed since the call (or Nova's client itself raised it).\<close>

theorem service_wait_outcome:
  assumes ok: "service_clock_ok env"
  shows "\<exists>r s'. wait_for_nova_service_state env host binary field state s = Some (r, s') \<and>
    (r = Inr () \<longrightarrow> (\<exists>w service rest.
       list_services env (Some host) binary w = (Inr (service # rest), world s') \<and>
       map_of service field = Some state)) \<and>
    (r = Inl TimeoutException \<longrightarrow>
       services_timeout env \<le> clock env (world s') - clock env (world s) \<or>
       (\<exists>w. list_services env (Some host) binary w = (Inl TimeoutException, world s')))"
proof -
  obtain r s' where run: "wait_for_nova_service_state env host binary field state s = Some (r, s')"
    using service_wait_returns [OF ok] by blast
  from service_wait_reached [of env host binary field state s s'] service_wait_timeout [of env host binary field state s s'] run
  show ?thesis by blast
qed

text \<open>A deployment whose clock is the number of seconds slept.\<close>

definition ticking_env :: "(int \<Rightarrow> api_object list) \<Rightarrow> (int \<Rightarrow> api_object list) \<Rightarrow>
    (int \<Rightarrow> string list) \<Rightarrow> int nova_env" where
  "ticking_env services migrations traits =
     \<lparr>cfg = default_conf 300 1 ''img'' ''10.0.0.0/24'',
      read_nodes_yaml = (\<lambda>p w. (Inr [], w)),
      ssh_exec = (\<lambda>a u k c w. (Inr [], w)),
      clock = (\<lambda>w. w), sleep = (\<lambda>n w. w + n),
      list_services = (\<lambda>h b w. (Inr (services w), w)),
      services_timeout = 10, services_interval = 1,
      list_migrations = (\<lambda>w. (Inr (migrations w), w)),
      list_rp_traits = (\<lambda>p w. (Inr (traits w), w))\<rparr>"

lemma ticking_env_clock_ok:
  "service_clock_ok (ticking_env services migrations traits)"
  "migration_clock_ok (ticking_env services migrations traits)"
  "trait_clock_ok (ticking_env services migrations traits)"
  by (auto simp: service_clock_ok_def migration_clock_ok_def trait_clock_ok_def sleep_advances_def
      never_back_def ticking_env_def default_conf_def)

definition at_time :: "int \<Rightarrow> (unit, int) proc" where
  "at_time t = \<lparr>nodes_cache = None, cleanups = [], world = t\<rparr>"

theorem service_wait_outcome_witness:
  "\<exists>r s'. wait_for_nova_service_state
       (ticking_env (\<lambda>t. [[(''state'', if t < 3 then ''down'' else ''up'')]]) (\<lambda>t. []) (\<lambda>t. []))
       ''compute1'' ''nova-compute'' ''state'' ''up'' (at_time 0) = Some (r, s')"
  using service_wait_outcome [OF ticking_env_clock_ok(1)] by blast

text \<open>C26. Waiting for a migration always returns, provided no call sets the clock back and the
  interval is not negative. It returns normally only when the last migration of Nova's last answer
  is done or completed, raises the migration exception only when that migration is in error or
  failed, and the timeout only when the timeout has passed since the call (external clients raising
  these exceptions themselves apart).\<close>

theorem migration_wait_outcome:
  assumes ok: "migration_clock_ok env"
  shows "\<exists>r s'. wait_for_server_migration_complete env server_id s = Some (r, s') \<and>
    (r = Inr () \<longrightarrow> (\<exists>w. last_status env w (world s') ''done'' \<or>
       last_status env w (world s') ''completed'')) \<and>
    (r = Inl MigrationException \<longrightarrow> (\<exists>w. last_status env w (world s') ''error'' \<or>
       last_status env w (world s') ''failed'' \<or>
       list_migrations env w = (Inl MigrationException, world s'))) \<and>
    (r = Inl TimeoutException \<longrightarrow>
       services_timeout env < clock env (world s') - clock env (world s) \<or>
       (\<exists>w. list_migrations env w = (Inl TimeoutException, world s')))"
proof -
  obtain r s' where run: "iterate (migration_step (env, clock env (world s))) s = Some (r, s')"
    using migration_poll.returns [of "(env, clock env (world s))" s] ok by auto
  then obtain y where "migration_step (env, clock env (world s)) y = Inl (r, s')"
    using iterate_invariant [of _ s "(r, s')" "\<lambda>_. True"] by blast
  from migration_wait_leaves [OF this] show ?thesis
    unfolding wait_for_server_migration_complete_def run by blast
qed

theorem migration_wait_outcome_witness:
  "\<exists>r s'. wait_for_server_migration_complete
       (ticking_env (\<lambda>t. []) (\<lambda>t. [[(''status'', if t < 4 then ''running'' else ''error'')]]) (\<lambda>t. []))
       ''server1'' (at_time 0) = Some (r, s')"
  using migration_wait_outcome [OF ticking_env_clock_ok(2)] by blast

text \<open>C39. The waiter does not look for the migration of the server it is given: whatever server this is, and
  whatever the migrations before it are, the last migration that Nova lists first decides alone. If it
  is done the wait returns normally at once, and if it has failed the wait raises a migration exception
  at once, also if it is a migration of another server, while those of the given one still run or
  have ended otherwise. Only a negative timeout is excluded.\<close>

theorem migration_wait_other_server:
  assumes "0 \<le> services_timeout env" and "list_migrations env (world s) = (Inr (migrations @ [last_one]), w)"
    and "map_of last_one ''status'' = Some status"
  shows "(status \<in> {''done'', ''completed''} \<longrightarrow>
      wait_for_server_migration_complete env server_id s = Some (Inr (), s\<lparr>world := w\<rparr>)) \<and>
    (status \<in> {''error'', ''failed''} \<longrightarrow>
      wait_for_server_migration_complete env server_id s = Some (Inl MigrationException, s\<lparr>world := w\<rparr>))"
  using assms
  by (auto simp: wait_for_server_migration_complete_def iterate.simps migration_step_def Let_def py_last_def py_key_def)

theorem migration_wait_other_server_witness:
  "wait_for_server_migration_complete
     (ticking_env (\<lambda>t. [])
       (\<lambda>t. [[(''instance_uuid'', ''server1''), (''status'', ''running'')]] @
            [[(''instance_uuid'', ''server2''), (''status'', ''completed'')]]) (\<lambda>t. []))
     ''server1'' (at_time 0) = Some (Inr (), at_time 0)"
  using migration_wait_other_server [of "ticking_env (\<lambda>t. [])
       (\<lambda>t. [[(''instance_uuid'', ''server1''), (''status'', ''running'')]] @
            [[(''instance_uuid'', ''server2''), (''status'', ''completed'')]]) (\<lambda>t. [])" "at_time 0"
       "[[(''instance_uuid'', ''server1''), (''status'', ''running'')]]"
       "[(''instance_uuid'', ''server2''), (''status'', ''completed'')]" 0 "''completed''" "''server1''"]
  by (simp add: ticking_env_def at_time_def)

text \<open>Waiting for a trait always returns, provided no call sets the clock back and the configured
  interval is at least a second. A normal return has the value true and follows an answer of
  Placement that lists the trait among those of the provider; the timeout is raised only when it
  has passed since the call.\<close>

theorem trait_wait_outcome:
  assumes ok: "trait_clock_ok env"
  shows "\<exists>r s'. wait_for_trait_add_in_rp env trait provider s = Some (r, s') \<and>
    (\<forall>b. r = Inr b \<longrightarrow> b \<and>
       (\<exists>w traits. list_rp_traits env provider w = (Inr traits, world s') \<and> trait \<in> set traits)) \<and>
    (r = Inl TimeoutException \<longrightarrow>
       build_timeout (cfg env) < clock env (world s') - clock env (world s) \<or>
       (\<exists>w. list_rp_traits env provider w = (Inl TimeoutException, world s')))"
proof -
  let ?p = "(env, trait, provider, clock env (world s))"
  obtain r s' where run: "iterate (trait_step ?p) s = Some (r, s')"
    using trait_poll.returns [of ?p s] ok by auto
  then obtain y where "trait_step ?p y = Inl (r, s')"
    using iterate_invariant [of _ s "(r, s')" "\<lambda>_. True"] by blast
  then show ?thesis
    unfolding wait_for_trait_add_in_rp_def run using trait_step_leaves by fastforce
qed

theorem trait_wait_outcome_witness:
  "\<exists>r s'. wait_for_trait_add_in_rp
       (ticking_env (\<lambda>t. []) (\<lambda>t. []) (\<lambda>t. if t < 2 then [] else [''CUSTOM_A'']))
       ''CUSTOM_A'' ''rp1'' (at_time 0) = Some (r, s')"
  using trait_wait_outcome [OF ticking_env_clock_ok(3)] by blast

end
