(* ===== verification/Clients.thy ===== *)
theory Clients
  imports PyStr Waiters
begin

text \<open>
  The clients of \<^verbatim>\<open>whitebox_tempest_plugin/services/clients.py\<close> that run one command on a host over
  SSH and hand back its output: the base class \<^verbatim>\<open>SSHClient\<close>, and the clients for libvirt's XML, for
  the logs and for disk images. \<open>execute\<close> decides how a command is run: in a container, as root, or
  as it is.
\<close>

section \<open>SSHClient\<close>

record ssh_client =
  ssh_key :: string
  ssh_user :: string
  host_parameters :: "host_details option"
  ctlplane_address :: string

definition SSHClient :: "('w, 'm) sys_env_scheme \<Rightarrow> string \<Rightarrow> (('c, 'w) proc, ssh_client) prog" where
  "SSHClient env host =
     bnd (get_host_details env host) (\<lambda>params.
     bnd (of_result (get_ctlplane_address (cfg env) host)) (\<lambda>address.
     ret \<lparr>ssh_key = ctlplane_ssh_private_key_path (cfg env),
          ssh_user = ctlplane_ssh_username (cfg env),
          host_parameters = params,
          ctlplane_address = address\<rparr>))"

text \<open>\<^verbatim>\<open>'%s' % x\<close> for a string that may be missing.\<close>

definition fmt :: "string option \<Rightarrow> string" where
  "fmt x = (case x of None \<Rightarrow> ''None'' | Some v \<Rightarrow> v)"

text \<open>The truth value of a string that may be missing.\<close>

definition truthy :: "string option \<Rightarrow> bool" where
  "truthy x = (case x of None \<Rightarrow> False | Some v \<Rightarrow> v \<noteq> [])"

definition full_command :: "conf \<Rightarrow> string \<Rightarrow> string option \<Rightarrow> bool \<Rightarrow> string" where
  "full_command c command container_name sudo =
     (if containers c \<and> truthy container_name
      then ''sudo '' @ container_runtime c @ '' exec -u root '' @ fmt container_name @ '' '' @ command
      else if sudo then ''sudo '' @ command
      else command)"

definition execute ::
  "('w, 'm) sys_env_scheme \<Rightarrow> 'a ssh_client_scheme \<Rightarrow> string \<Rightarrow> string option \<Rightarrow> bool \<Rightarrow>
   (('c, 'w) proc, string) prog" where
  "execute env self command container_name sudo =
     external (ssh_exec env (ctlplane_address self) (ssh_user self) (ssh_key self)
       (full_command (cfg env) command container_name sudo))"

text \<open>
  \<^verbatim>\<open>self.host_parameters.get('services', {}).get(service)\<close>. A host that is not described has the
  parameters \<^verbatim>\<open>None\<close>, which has no \<^verbatim>\<open>get\<close>.
\<close>

definition service_section :: "host_details option \<Rightarrow> string \<Rightarrow> service_dict option result" where
  "service_section params service = (case params of
       None \<Rightarrow> Inl AttributeError
     | Some d \<Rightarrow> Inr (map_of (case hd_services d of None \<Rightarrow> [] | Some ss \<Rightarrow> ss) service))"

text \<open>The check at the head of every constructor that needs a service of the host.\<close>

definition require_section :: "host_details option \<Rightarrow> string \<Rightarrow> service_dict result" where
  "require_section params service =
     bind_res (service_section params service) (\<lambda>d. case d of
         None \<Rightarrow> Inl (MissingServiceSectionException service)
       | Some d \<Rightarrow> Inr d)"

section \<open>VirshXMLClient\<close>

record container_client = ssh_client +
  client_container :: "string option"

definition in_container :: "ssh_client \<Rightarrow> string option \<Rightarrow> container_client" where
  "in_container c name = ssh_client.extend c \<lparr>client_container = name\<rparr>"

definition VirshXMLClient ::
  "('w, 'm) sys_env_scheme \<Rightarrow> string \<Rightarrow> (('c, 'w) proc, container_client) prog" where
  "VirshXMLClient env host =
     bnd (SSHClient env host) (\<lambda>self.
     bnd (of_result (require_section (host_parameters self) ''libvirt'')) (\<lambda>service_dict.
     ret (in_container self (map_of service_dict ''container_name''))))"

definition dumpxml ::
  "('w, 'm) sys_env_scheme \<Rightarrow> container_client \<Rightarrow> string \<Rightarrow> (('c, 'w) proc, string) prog" where
  "dumpxml env self domain =
     execute env self (''virsh dumpxml '' @ domain) (client_container self) True"

definition capabilities ::
  "('w, 'm) sys_env_scheme \<Rightarrow> container_client \<Rightarrow> (('c, 'w) proc, string) prog" where
  "capabilities env self = execute env self ''virsh capabilities'' (client_container self) True"

definition domblklist ::
  "('w, 'm) sys_env_scheme \<Rightarrow> container_client \<Rightarrow> string \<Rightarrow> (('c, 'w) proc, string) prog" where
  "domblklist env self server_id =
     execute env self (''virsh domblklist '' @ server_id) (client_container self) True"

definition secret_dumpxml ::
  "('w, 'm) sys_env_scheme \<Rightarrow> container_client \<Rightarrow> string \<Rightarrow> (('c, 'w) proc, string) prog" where
  "secret_dumpxml env self secret_uuid =
     execute env self (''virsh secret-dumpxml '' @ secret_uuid) (client_container self) True"

section \<open>LogParserClient\<close>

text \<open>
  The variable \<^verbatim>\<open>container_name\<close> is assigned in one branch only and read after both; reading it
  unassigned raises \<^verbatim>\<open>UnboundLocalError\<close>. The quotation mark is written by its code, 39.
\<close>

abbreviation quote_mark :: string where
  "quote_mark \<equiv> [char_of (39 :: nat)]"

definition log_container :: "host_details option \<Rightarrow> string option result" where
  "log_container params =
     bind_res (service_section params ''nova-compute'') (\<lambda>nova_compute_srvc. case nova_compute_srvc of
         None \<Rightarrow> Inl AttributeError
       | Some d \<Rightarrow> Inr (map_of d ''container_name''))"

definition log_parse ::
  "('w, 'm) sys_env_scheme \<Rightarrow> ssh_client \<Rightarrow> string \<Rightarrow> (('c, 'w) proc, string) prog" where
  "log_parse env self query_string =
     (if log_query_command (cfg env) = ''zgrep''
      then (let command = ''sh -c \"zgrep '' @ quote_mark @ query_string @ quote_mark @
                          '' /var/log/nova/*\"'';
                container_name = Inl UnboundLocalError
            in bnd (of_result container_name) (\<lambda>container_name.
               execute env self command container_name True))
      else (let command = ''journalctl -u '' @ journalctl_unit (cfg env) @ '' -g '' @
                          quote_mark @ query_string @ quote_mark
            in bnd (of_result (log_container (host_parameters self))) (\<lambda>container_name.
               execute env self command container_name True)))"

section \<open>QEMUImgClient\<close>

definition QEMUImgClient ::
  "('w, 'm) sys_env_scheme \<Rightarrow> string \<Rightarrow> (('c, 'w) proc, container_client) prog" where
  "QEMUImgClient env address =
     bnd (SSHClient env address) (\<lambda>self.
     bnd (of_result (require_section (host_parameters self) ''libvirt'')) (\<lambda>service_dict.
     ret (in_container self (map_of service_dict ''container_name''))))"

text \<open>\<open>json_loads\<close> reads the printed document.\<close>

definition qemu_info ::
  "('w, 'm) sys_env_scheme \<Rightarrow> (string \<Rightarrow> json result) \<Rightarrow> container_client \<Rightarrow> string \<Rightarrow>
   (('c, 'w) proc, json) prog" where
  "qemu_info env json_loads self path =
     bnd (execute env self (''qemu-img info --output=json --force-share '' @ path)
            (client_container self) True) (\<lambda>output.
     of_result (json_loads output))"

section \<open>How clients are made\<close>

lemma run_SSHClient:
  "SSHClient env host s = (case get_host_details env host s of
       None \<Rightarrow> None
     | Some (Inl e, s') \<Rightarrow> Some (Inl e, s')
     | Some (Inr params, s') \<Rightarrow> (case get_ctlplane_address (cfg env) host of
           Inl e \<Rightarrow> Some (Inl e, s')
         | Inr address \<Rightarrow> Some (Inr \<lparr>ssh_key = ctlplane_ssh_private_key_path (cfg env),
             ssh_user = ctlplane_ssh_username (cfg env), host_parameters = params,
             ctlplane_address = address\<rparr>, s')))"
  by (simp add: SSHClient_def bnd_def prog_simps split: option.split prod.split sum.split)

lemma SSHClient_Inr:
  assumes "SSHClient env host s = Some (Inr c, s')"
  shows "\<exists>ns. nodes_cache s' = Some ns \<and> host_parameters c = map_of ns host \<and>
    get_ctlplane_address (cfg env) host = Inr (ctlplane_address c) \<and>
    ssh_user c = ctlplane_ssh_username (cfg env) \<and>
    ssh_key c = ctlplane_ssh_private_key_path (cfg env)"
  using assms
  by (auto simp: SSHClient_def get_host_details_def bnd_Inr_iff prog_simps split: option.splits)

lemma require_section_cases:
  "require_section params service = (case params of
       None \<Rightarrow> Inl AttributeError
     | Some d \<Rightarrow> (case hd_services d of
           None \<Rightarrow> Inl (MissingServiceSectionException service)
         | Some ss \<Rightarrow> (case map_of ss service of
               None \<Rightarrow> Inl (MissingServiceSectionException service)
             | Some sd \<Rightarrow> Inr sd)))"
  by (simp add: require_section_def service_section_def split: option.split)

section \<open>Properties\<close>

text \<open>Reading a domain's XML runs one command on the control plane address of the host, with the
  configured user and key: in the container that the host's libvirt section names if the deployment
  has containers, and with \<^verbatim>\<open>sudo\<close> on the host itself otherwise.\<close>

theorem virsh_dumpxml_command:
  assumes "nodes_cache s = Some ns" and "map_of ns host = Some d" and "hd_services d = Some ss"
    and "map_of ss ''libvirt'' = Some sd" and "get_ctlplane_address (cfg env) host = Inr address"
  shows "bnd (VirshXMLClient env host) (\<lambda>c. dumpxml env c domain) s =
    external (ssh_exec env address (ctlplane_ssh_username (cfg env))
        (ctlplane_ssh_private_key_path (cfg env))
        (case map_of sd ''container_name'' of
           Some (n # name) \<Rightarrow>
             (if containers (cfg env)
              then ''sudo '' @ container_runtime (cfg env) @ '' exec -u root '' @ (n # name) @
                   '' virsh dumpxml '' @ domain
              else ''sudo virsh dumpxml '' @ domain)
         | _ \<Rightarrow> ''sudo virsh dumpxml '' @ domain)) s"
proof -
  let ?c = "in_container \<lparr>ssh_key = ctlplane_ssh_private_key_path (cfg env),
    ssh_user = ctlplane_ssh_username (cfg env), host_parameters = Some d,
    ctlplane_address = address\<rparr> (map_of sd ''container_name'')"
  have "VirshXMLClient env host s = Some (Inr ?c, s)"
    using assms
    by (simp add: VirshXMLClient_def bnd_def run_SSHClient get_host_details_def
        require_section_cases prog_simps)
  then show ?thesis
    by (simp add: run_bnd_Inr dumpxml_def execute_def in_container_def ssh_client.defs
        full_command_def truthy_def fmt_def split: option.split list.split)
qed

text \<open>A deployment with one host; the outside world is the list of the commands it was given.\<close>

definition logging_env :: "conf \<Rightarrow> (string list) sys_env" where
  "logging_env c = \<lparr>cfg = c, read_nodes_yaml = (\<lambda>p w. (Inr [], w)),
     ssh_exec = (\<lambda>a u k cmd w. (Inr [], w @ [cmd])), clock = (\<lambda>w. 0), sleep = (\<lambda>n w. w)\<rparr>"

definition one_host :: "service_dict \<Rightarrow> (unit, string list) proc" where
  "one_host sd = \<lparr>nodes_cache = Some [(''compute1'', \<lparr>hd_services = Some [(''libvirt'', sd)],
     hd_cpu_dedicated_set = None, hd_cpu_shared_set = None\<rparr>)], cleanups = [], world = []\<rparr>"

theorem virsh_dumpxml_command_witness:
  "bnd (VirshXMLClient (logging_env ((default_conf 300 1 [] [])\<lparr>containers := True\<rparr>)) ''compute1'')
     (\<lambda>c. dumpxml (logging_env ((default_conf 300 1 [] [])\<lparr>containers := True\<rparr>)) c ''vm'')
     (one_host [(''container_name'', ''virt'')]) =
   Some (Inr [], (one_host [(''container_name'', ''virt'')])
     \<lparr>world := [''sudo docker exec -u root virt virsh dumpxml vm'']\<rparr>)"
  using virsh_dumpxml_command [of "one_host [(''container_name'', ''virt'')]"
      "[(''compute1'', \<lparr>hd_services = Some [(''libvirt'', [(''container_name'', ''virt'')])],
         hd_cpu_dedicated_set = None, hd_cpu_shared_set = None\<rparr>)]" "''compute1''" _ _ _
      "logging_env ((default_conf 300 1 [] [])\<lparr>containers := True\<rparr>)" "''compute1''" "''vm''"]
  by (simp add: one_host_def logging_env_def default_conf_def get_ctlplane_address_def external_def)

text \<open>A client of libvirt cannot be made for a host that the descriptions do not name, nor for one
  whose description has no libvirt section; the former fails with an attribute error and not with
  the exception meant for it. Neither attempt touches the host.\<close>

theorem libvirt_clients_need_section:
  assumes "nodes_cache s = Some ns" and "get_ctlplane_address (cfg env) host = Inr address"
    and none: "\<And>d ss. map_of ns host = Some d \<Longrightarrow> hd_services d = Some ss \<Longrightarrow>
      map_of ss ''libvirt'' = None"
  shows "VirshXMLClient env host s = Some (Inl
      (if map_of ns host = None then AttributeError
       else MissingServiceSectionException ''libvirt''), s) \<and>
    QEMUImgClient env host s = VirshXMLClient env host s"
proof -
  have "require_section (map_of ns host) ''libvirt'' = Inl (if map_of ns host = None
      then AttributeError else MissingServiceSectionException ''libvirt'')"
    using none by (auto simp: require_section_cases split: option.splits)
  then show ?thesis
    using assms(1,2)
    by (simp add: VirshXMLClient_def QEMUImgClient_def bnd_def run_SSHClient get_host_details_def
        prog_simps)
qed

theorem libvirt_clients_need_section_witness:
  "VirshXMLClient (logging_env (default_conf 300 1 [] [])) ''compute2'' (one_host []) =
   Some (Inl AttributeError, one_host [])"
  using libvirt_clients_need_section [of "one_host []"
      "[(''compute1'', \<lparr>hd_services = Some [(''libvirt'', [])], hd_cpu_dedicated_set = None,
         hd_cpu_shared_set = None\<rparr>)]"
      "logging_env (default_conf 300 1 [] [])" "''compute2''" "''compute2''"]
  by (simp add: one_host_def logging_env_def default_conf_def get_ctlplane_address_def)

text \<open>With \<^verbatim>\<open>log_query_command = zgrep\<close>, one of the two declared choices, the logs can never be
  read: the container name is used without having been assigned, and no command is run.\<close>

theorem log_parse_zgrep_fails:
  assumes "log_query_command (cfg env) = ''zgrep''"
  shows "log_parse env c query s = Some (Inl UnboundLocalError, s)"
  using assms by (simp add: log_parse_def Let_def bnd_def prog_simps)

theorem log_parse_zgrep_fails_witness:
  "log_parse (logging_env ((default_conf 300 1 [] [])\<lparr>log_query_command := ''zgrep''\<rparr>))
     \<lparr>ssh_key = [], ssh_user = [], host_parameters = None, ctlplane_address = []\<rparr> ''error'' (one_host []) =
   Some (Inl UnboundLocalError, one_host [])"
  by (rule log_parse_zgrep_fails) (simp add: logging_env_def)

end
