(* ===== verification/Option_Store.thy ===== *)
theory Option_Store
  imports WB_Prelude
begin

text \<open>
  The contract of a store of options, and what a client can do with nothing but the contract: set
  several options, run something, and put the old values back.

  An option is named by a section and a name. \<open>view p s\<close> is what the store holds in the state \<open>s\<close>,
  for the store given by the parameters \<open>p\<close>; \<open>ok p\<close> are the conditions under which it behaves as
  promised. \<open>managed_store\<close> adds the service that reads the options and has to be restarted.
\<close>

section \<open>Writing several options\<close>

definition put_all :: "('a \<times> 'b \<times> 'v option) list \<Rightarrow> ('a \<times> 'b \<Rightarrow> 'v option) \<Rightarrow> 'a \<times> 'b \<Rightarrow> 'v option" where
  "put_all opts f = fold (\<lambda>(a, b, v) f. f((a, b) := v)) opts f"

definition opt_keys :: "('a \<times> 'b \<times> 'v) list \<Rightarrow> ('a \<times> 'b) list" where
  "opt_keys opts = map (\<lambda>(a, b, v). (a, b)) opts"

lemma put_all_simps [simp]:
  "put_all [] f = f" "put_all ((a, b, v) # opts) f = put_all opts (f((a, b) := v))"
  by (simp_all add: put_all_def)

lemma opt_keys_simps [simp]:
  "opt_keys [] = []" "opt_keys ((a, b, v) # opts) = (a, b) # opt_keys opts"
  by (simp_all add: opt_keys_def)

lemma put_all_other: "k \<notin> set (opt_keys opts) \<Longrightarrow> put_all opts f k = f k"
proof (induction opts arbitrary: f)
  case (Cons t opts)
  then show ?case by (cases t) auto
qed simp

lemma put_all_in:
  assumes "(a, b, v) \<in> set opts" and "distinct (opt_keys opts)"
  shows "put_all opts f (a, b) = v"
  using assms
proof (induction opts arbitrary: f)
  case (Cons t opts)
  show ?case
  proof (cases "(a, b, v) \<in> set opts")
    case True
    with Cons show ?thesis by (cases t) simp
  next
    case False
    with Cons.prems have "t = (a, b, v)" by simp
    with Cons.prems(2) show ?thesis by (simp add: put_all_other)
  qed
qed simp

text \<open>The values that options have in \<open>f\<close>, and the effect of writing them.\<close>

definition saved :: "('a \<times> 'b \<Rightarrow> 'v option) \<Rightarrow> ('a \<times> 'b \<times> 'w) list \<Rightarrow> ('a \<times> 'b \<times> 'v option) list" where
  "saved f opts = map (\<lambda>(a, b, v). (a, b, f (a, b))) opts"

lemma saved_simps [simp]:
  "saved f [] = []" "saved f ((a, b, v) # opts) = (a, b, f (a, b)) # saved f opts"
  by (simp_all add: saved_def)

lemma opt_keys_saved [simp]: "opt_keys (saved f opts) = opt_keys opts"
  by (simp add: opt_keys_def saved_def split_def comp_def)

lemma put_all_saved:
  "put_all (saved f opts) g k = (if k \<in> set (opt_keys opts) then f k else g k)"
proof (induction opts arbitrary: g)
  case (Cons t opts)
  then show ?case by (cases t) auto
qed simp

lemma saved_cong:
  assumes "\<And>k. k \<in> set (opt_keys opts) \<Longrightarrow> f k = g k"
  shows "saved f opts = saved g opts"
  using assms
proof (induction opts)
  case (Cons t opts)
  then show ?case by (cases t) simp
qed simp

text \<open>
  A loop that saves and writes one option per turn saves the values the options had at its start, if
  no option occurs twice; a loop that writes one option per turn writes them all.
\<close>

lemma mapM_saved:
  assumes "\<And>a b v s. (a, b, v) \<in> set opts \<Longrightarrow>
      \<exists>s'. f (a, b, v) s = Some (Inr (a, b, view s (a, b)), s') \<and> view s' = (view s)((a, b) := v)"
    and "distinct (opt_keys opts)"
  shows "\<exists>s'. mapM f opts s = Some (Inr (saved (view s) opts), s') \<and>
    view s' = put_all opts (view s)"
  using assms
proof (induction opts arbitrary: s)
  case (Cons t opts)
  obtain a b v where t: "t = (a, b, v)" by (cases t)
  obtain s1 where s1: "f t s = Some (Inr (a, b, view s (a, b)), s1)"
      "view s1 = (view s)((a, b) := v)"
    using Cons.prems(1) [of a b v s] unfolding t by (metis list.set_intros(1))
  obtain s2 where s2: "mapM f opts s1 = Some (Inr (saved (view s1) opts), s2)"
      "view s2 = put_all opts (view s1)"
    using Cons.IH [of s1] Cons.prems by (auto simp: t)
  have "saved (view s1) opts = saved (view s) opts"
    using Cons.prems(2) by (intro saved_cong) (auto simp: t s1(2))
  with s1 s2 show ?case by (simp add: t bnd_def ret_def)
qed (simp add: ret_def)

lemma forM_put_all:
  assumes "\<And>a b v s. (a, b, v) \<in> set opts \<Longrightarrow>
      \<exists>s'. f (a, b, v) s = Some (Inr (), s') \<and> view s' = (view s)((a, b) := v)"
  shows "\<exists>s'. forM f opts s = Some (Inr (), s') \<and> view s' = put_all opts (view s)"
  using assms
proof (induction opts arbitrary: s)
  case (Cons t opts)
  obtain a b v where t: "t = (a, b, v)" by (cases t)
  obtain s1 where s1: "f t s = Some (Inr (), s1)" "view s1 = (view s)((a, b) := v)"
    using Cons.prems [of a b v s] unfolding t by (metis list.set_intros(1))
  obtain s2 where "forM f opts s1 = Some (Inr (), s2)" "view s2 = put_all opts (view s1)"
    using Cons.IH [of s1] Cons.prems by auto
  with s1 show ?case by (simp add: t bnd_def seqp_def)
qed (simp add: ret_def)

section \<open>The contract\<close>

locale option_store =
  fixes ok :: "'p \<Rightarrow> bool"
    and view :: "'p \<Rightarrow> 's \<Rightarrow> 'a \<times> 'b \<Rightarrow> 'v option"
    and good_key :: "'a \<Rightarrow> 'b \<Rightarrow> bool"
    and good_val :: "'v option \<Rightarrow> bool"
    and get :: "'p \<Rightarrow> 'a \<Rightarrow> 'b \<Rightarrow> ('s, 'v option) prog"
    and put :: "'p \<Rightarrow> 'a \<Rightarrow> 'b \<Rightarrow> 'v option \<Rightarrow> ('s, 'u) prog"
  assumes get_law: "ok p \<Longrightarrow> good_key a b \<Longrightarrow>
      \<exists>s'. get p a b s = Some (Inr (view p s (a, b)), s') \<and> view p s' = view p s"
    and put_law: "ok p \<Longrightarrow> good_key a b \<Longrightarrow> good_val v \<Longrightarrow>
      \<exists>x s'. put p a b v s = Some (Inr x, s') \<and> view p s' = (view p s)((a, b) := v)"
begin

lemma get_put:
  assumes "ok p" and "good_key a b" and "good_val v" and "put p a b v s = Some (Inr x, s')"
  shows "\<exists>s''. get p a b s' = Some (Inr v, s'')"
  using put_law [OF assms(1-3), of s] get_law [OF assms(1,2), of s'] assms(4) by auto

lemma save_one:
  assumes "ok p" and "good_key a b" and "good_val v"
  shows "\<exists>s'. bnd (get p a b) (\<lambda>old. seqp (put p a b v) (ret (a, b, old))) s =
      Some (Inr (a, b, view p s (a, b)), s') \<and> view p s' = (view p s)((a, b) := v)"
proof -
  obtain s1 where s1: "get p a b s = Some (Inr (view p s (a, b)), s1)" "view p s1 = view p s"
    using get_law [OF assms(1,2)] by blast
  obtain x s2 where "put p a b v s1 = Some (Inr x, s2)" "view p s2 = (view p s)((a, b) := v)"
    using put_law [OF assms, of s1] s1(2) by auto
  with s1(1) show ?thesis by (simp add: bnd_def seqp_def ret_def)
qed

lemma save_all:
  assumes "ok p" and "\<And>a b v. (a, b, v) \<in> set opts \<Longrightarrow> good_key a b \<and> good_val v"
    and "distinct (opt_keys opts)"
  shows "\<exists>s'. mapM (\<lambda>(a, b, v). bnd (get p a b) (\<lambda>old. seqp (put p a b v) (ret (a, b, old)))) opts s =
      Some (Inr (saved (view p s) opts), s') \<and> view p s' = put_all opts (view p s)"
proof (rule mapM_saved [OF _ assms(3)])
  fix a b v s
  assume "(a, b, v) \<in> set opts"
  then show "\<exists>s'. (\<lambda>(a, b, v). bnd (get p a b) (\<lambda>old. seqp (put p a b v) (ret (a, b, old)))) (a, b, v) s =
      Some (Inr (a, b, view p s (a, b)), s') \<and> view p s' = (view p s)((a, b) := v)"
    unfolding prod.case using save_one [OF assms(1)] assms(2) by blast
qed

lemma write_all:
  assumes "ok p" and "\<And>a b v. (a, b, v) \<in> set opts \<Longrightarrow> good_key a b \<and> good_val v"
  shows "\<exists>s'. forM (\<lambda>(a, b, v). seqp (put p a b v) (ret ())) opts s = Some (Inr (), s') \<and>
    view p s' = put_all opts (view p s)"
proof (rule forM_put_all)
  fix a b v s
  assume "(a, b, v) \<in> set opts"
  then obtain x s' where "put p a b v s = Some (Inr x, s')" "view p s' = (view p s)((a, b) := v)"
    using put_law [OF assms(1)] assms(2) by blast
  then show "\<exists>s'. (\<lambda>(a, b, v). seqp (put p a b v) (ret ())) (a, b, v) s = Some (Inr (), s') \<and>
      view p s' = (view p s)((a, b) := v)"
    by (simp add: bnd_def seqp_def ret_def)
qed

end

text \<open>A store together with the service that reads it.\<close>

locale managed_store = option_store ok view good_key good_val get put
  for ok :: "'p \<Rightarrow> bool"
    and view :: "'p \<Rightarrow> 's \<Rightarrow> 'a \<times> 'b \<Rightarrow> 'v option"
    and good_key :: "'a \<Rightarrow> 'b \<Rightarrow> bool"
    and good_val :: "'v option \<Rightarrow> bool"
    and get :: "'p \<Rightarrow> 'a \<Rightarrow> 'b \<Rightarrow> ('s, 'v option) prog"
    and put :: "'p \<Rightarrow> 'a \<Rightarrow> 'b \<Rightarrow> 'v option \<Rightarrow> ('s, 'u) prog" +
  fixes reload :: "'p \<Rightarrow> ('s, unit) prog"
  assumes reload_law: "ok p \<Longrightarrow> \<exists>r s'. reload p s = Some (r, s') \<and> view p s' = view p s"
begin

lemma reload_view: "ok p \<Longrightarrow> reload p s = Some (r, s') \<Longrightarrow> view p s' = view p s"
  using reload_law [of p s] by auto

lemma enter:
  assumes ok: "ok p" and good: "\<And>a b v. (a, b, v) \<in> set opts \<Longrightarrow> good_key a b \<and> good_val v"
    and dist: "distinct (opt_keys opts)"
  shows "\<exists>r s1. bnd (mapM (\<lambda>(a, b, v). bnd (get p a b) (\<lambda>old. seqp (put p a b v) (ret (a, b, old)))) opts)
      (\<lambda>initial. seqp (reload p) (ret ((), leave initial))) s = Some (r, s1) \<and>
    view p s1 = put_all opts (view p s) \<and>
    (\<forall>x. r = Inr x \<longrightarrow> x = ((), leave (saved (view p s) opts))) \<and>
    (\<forall>e. r = Inl e \<longrightarrow> (\<exists>t t'. reload p t = Some (Inl e, t')))"
proof -
  obtain s0 where s0: "mapM (\<lambda>(a, b, v). bnd (get p a b) (\<lambda>old. seqp (put p a b v) (ret (a, b, old))))
      opts s = Some (Inr (saved (view p s) opts), s0)" "view p s0 = put_all opts (view p s)"
    using save_all [OF ok good dist] by blast
  obtain q s1 where s1: "reload p s0 = Some (q, s1)" "view p s1 = view p s0"
    using reload_law [OF ok] by blast
  then show ?thesis
    using s0 by (cases q) (auto simp add: bnd_def seqp_def ret_def)
qed

lemma leave:
  assumes ok: "ok p"
    and keys: "\<And>a b v. (a, b, v) \<in> set opts \<Longrightarrow> good_key a b \<and> good_val (f (a, b))"
  shows "\<exists>r s'. seqp (forM (\<lambda>(a, b, v). seqp (put p a b v) (ret ())) (saved f opts)) (reload p) s =
      Some (r, s') \<and>
    (\<forall>k. view p s' k = (if k \<in> set (opt_keys opts) then f k else view p s k)) \<and>
    (\<forall>e. r = Inl e \<longrightarrow> (\<exists>t t'. reload p t = Some (Inl e, t')))"
proof -
  have "good_key a b \<and> good_val v" if "(a, b, v) \<in> set (saved f opts)" for a b v
    using that keys by (auto simp: saved_def)
  then obtain s1 where s1: "forM (\<lambda>(a, b, v). seqp (put p a b v) (ret ())) (saved f opts) s =
      Some (Inr (), s1)" "view p s1 = put_all (saved f opts) (view p s)"
    using write_all [OF ok] by blast
  obtain r s2 where "reload p s1 = Some (r, s2)" "view p s2 = view p s1"
    using reload_law [OF ok] by blast
  with s1 show ?thesis by (auto simp add: run_seqp_Inr put_all_saved)
qed

end

end
