(* ===== verification/Service_Manager.thy ===== *)
theory Service_Manager
  imports Clients Hardware Option_Store
begin

text \<open>
  \<^verbatim>\<open>ServiceManager\<close> of \<^verbatim>\<open>whitebox_tempest_plugin/services/clients.py\<close> and its subclasses
  \<^verbatim>\<open>NovaServiceManager\<close> and \<^verbatim>\<open>VirtQEMUdManager\<close>: the configuration of a service, read and written with
  \<^verbatim>\<open>crudini\<close>, and its being started, stopped and restarted.

  The tests rely on two promises. \<^verbatim>\<open>config_options\<close> gives back the configuration it found, and
  \<^verbatim>\<open>stopped\<close> starts the service again, whatever the test does in between. The first is proved against
  the contract \<open>option_store\<close> of a store of options, the second against what the commands of a
  service do; what \<^verbatim>\<open>crudini\<close> does is a hypothesis on the commands run over SSH.
\<close>

section \<open>The managers\<close>

text \<open>The class of a manager decides which \<open>start\<close> and \<open>stop\<close> its methods call.\<close>

datatype manager_class = PlainManager | NovaManager | QEMUdManager

record service_manager = ssh_client +
  sm_class :: manager_class
  sm_host :: string
  sm_service :: string
  config_path :: "string option"
  start_command :: "string option"
  stop_command :: "string option"
  mask_command :: "string option"
  unmask_command :: "string option"

definition new_manager ::
  "('w, 'm) sys_env_scheme \<Rightarrow> manager_class \<Rightarrow> string \<Rightarrow> string \<Rightarrow>
   (('c, 'w) proc, service_manager) prog" where
  "new_manager env cls hostname service =
     bnd (SSHClient env hostname) (\<lambda>self.
     bnd (of_result (require_section (host_parameters self) service)) (\<lambda>service_dict.
     ret (ssh_client.extend self
       \<lparr>sm_class = cls,
        sm_host = hostname,
        sm_service = service,
        config_path = map_of service_dict ''config_path'',
        start_command = map_of service_dict ''start_command'',
        stop_command = map_of service_dict ''stop_command'',
        mask_command = map_of service_dict ''mask_command'',
        unmask_command = map_of service_dict ''unmask_command''\<rparr>)))"

definition ServiceManager where
  "ServiceManager env hostname service = new_manager env PlainManager hostname service"

definition NovaServiceManager where
  "NovaServiceManager env host service = new_manager env NovaManager host service"

definition VirtQEMUdManager where
  "VirtQEMUdManager env host service = new_manager env QEMUdManager host service"

section \<open>Configuration options\<close>

definition get_conf_opt ::
  "('w, 'm) sys_env_scheme \<Rightarrow> service_manager \<Rightarrow> string \<Rightarrow> string \<Rightarrow>
   (('c, 'w) proc, string option) prog" where
  "get_conf_opt env self section option =
     (let command = ''crudini --get '' @ fmt (config_path self) @ '' '' @ section @ '' '' @ option
      in try_except
           (bnd (execute env self command None True) (\<lambda>value. ret (Some (py_strip value))))
           (\<lambda>e. case e of
               SSHExecCommandFailed msg \<Rightarrow> (if py_in ''not found'' msg then ret None else raise e)
             | _ \<Rightarrow> raise e))"

definition set_conf_opt ::
  "('w, 'm) sys_env_scheme \<Rightarrow> service_manager \<Rightarrow> string \<Rightarrow> string \<Rightarrow> string option \<Rightarrow>
   (('c, 'w) proc, string) prog" where
  "set_conf_opt env self section option value =
     (let command = (case value of
          None \<Rightarrow> ''crudini --del '' @ fmt (config_path self) @ '' '' @ section @ '' '' @ option
        | Some v \<Rightarrow> ''crudini --set '' @ fmt (config_path self) @ '' '' @ section @ '' '' @ option @
                   '' '' @ v)
      in execute env self command None True)"

definition del_conf_opt ::
  "('w, 'm) sys_env_scheme \<Rightarrow> service_manager \<Rightarrow> string \<Rightarrow> string \<Rightarrow> (('c, 'w) proc, string) prog" where
  "del_conf_opt env self section option =
     (let command = ''crudini --del '' @ fmt (config_path self) @ '' '' @ section @ '' '' @ option
      in execute env self command None True)"

section \<open>Starting and stopping\<close>

text \<open>The methods of the three classes; \<^verbatim>\<open>None\<close> is what a method without \<^verbatim>\<open>return\<close> gives.\<close>

definition plain_start ::
  "('w, 'm) nova_env_scheme \<Rightarrow> service_manager \<Rightarrow> (('c, 'w) proc, string option) prog" where
  "plain_start env self =
     seqp (if truthy (unmask_command self)
           then seqp (execute env self (fmt (unmask_command self)) None True) (ret ())
           else ret ())
     (seqp (execute env self (fmt (start_command self)) None True) (ret None))"

definition plain_stop ::
  "('w, 'm) nova_env_scheme \<Rightarrow> service_manager \<Rightarrow> (('c, 'w) proc, string option) prog" where
  "plain_stop env self =
     seqp (execute env self (fmt (stop_command self)) None True)
     (seqp (if truthy (unmask_command self)
            then seqp (execute env self (fmt (mask_command self)) None True) (ret ())
            else ret ())
      (ret None))"

definition nova_start ::
  "('w, 'm) nova_env_scheme \<Rightarrow> service_manager \<Rightarrow> (('c, 'w) proc, string option) prog" where
  "nova_start env self =
     bnd (execute env self (fmt (start_command self)) None True) (\<lambda>result.
     seqp (wait_for_nova_service_state env (sm_host self) (sm_service self) ''state'' ''up'')
     (ret (Some result)))"

definition nova_stop ::
  "('w, 'm) nova_env_scheme \<Rightarrow> service_manager \<Rightarrow> (('c, 'w) proc, string option) prog" where
  "nova_stop env self =
     bnd (execute env self (fmt (stop_command self)) None True) (\<lambda>result.
     seqp (wait_for_nova_service_state env (sm_host self) (sm_service self) ''state'' ''down'')
     (ret (Some result)))"

definition qemud_start ::
  "('w, 'm) nova_env_scheme \<Rightarrow> service_manager \<Rightarrow> (('c, 'w) proc, string option) prog" where
  "qemud_start env self =
     bnd (execute env self (fmt (start_command self)) None True) (\<lambda>result.
     seqp (wait_for_nova_service_state env (sm_host self) ''nova-compute'' ''status'' ''enabled'')
     (ret (Some result)))"

definition qemud_stop ::
  "('w, 'm) nova_env_scheme \<Rightarrow> service_manager \<Rightarrow> (('c, 'w) proc, string option) prog" where
  "qemud_stop env self =
     bnd (execute env self (fmt (stop_command self)) None True) (\<lambda>result.
     seqp (wait_for_nova_service_state env (sm_host self) ''nova-compute'' ''status'' ''disabled'')
     (ret (Some result)))"

definition start ::
  "('w, 'm) nova_env_scheme \<Rightarrow> service_manager \<Rightarrow> (('c, 'w) proc, string option) prog" where
  "start env self = (case sm_class self of
       PlainManager \<Rightarrow> plain_start env self
     | NovaManager \<Rightarrow> nova_start env self
     | QEMUdManager \<Rightarrow> qemud_start env self)"

definition stop ::
  "('w, 'm) nova_env_scheme \<Rightarrow> service_manager \<Rightarrow> (('c, 'w) proc, string option) prog" where
  "stop env self = (case sm_class self of
       PlainManager \<Rightarrow> plain_stop env self
     | NovaManager \<Rightarrow> nova_stop env self
     | QEMUdManager \<Rightarrow> qemud_stop env self)"

definition restart ::
  "('w, 'm) nova_env_scheme \<Rightarrow> service_manager \<Rightarrow> (('c, 'w) proc, unit) prog" where
  "restart env self = seqp (stop env self) (seqp (start env self) (ret ()))"

definition stopped :: "('w, 'm) nova_env_scheme \<Rightarrow> service_manager \<Rightarrow> (('c, 'w) proc, unit) cm" where
  "stopped env self = seqp (stop env self) (ret ((), seqp (start env self) (ret ())))"

text \<open>
  The managers of options: the old value of each option is read just before the new one is
  written, and on leaving the old values are written in the order in which they were read.
\<close>

definition save_and_set ::
  "('w, 'm) nova_env_scheme \<Rightarrow> service_manager \<Rightarrow> string \<times> string \<times> string option \<Rightarrow>
   (('c, 'w) proc, string \<times> string \<times> string option) prog" where
  "save_and_set env self = (\<lambda>(section, option, value).
     bnd (get_conf_opt env self section option) (\<lambda>old.
     seqp (set_conf_opt env self section option value) (ret (section, option, old))))"

definition restore ::
  "('w, 'm) nova_env_scheme \<Rightarrow> service_manager \<Rightarrow> (string \<times> string \<times> string option) list \<Rightarrow>
   (('c, 'w) proc, unit) prog" where
  "restore env self initial_values =
     seqp (forM (\<lambda>(section, option, value).
             seqp (set_conf_opt env self section option value) (ret ())) initial_values)
     (restart env self)"

definition config_options ::
  "('w, 'm) nova_env_scheme \<Rightarrow> service_manager \<Rightarrow> (string \<times> string \<times> string option) list \<Rightarrow>
   (('c, 'w) proc, unit) cm" where
  "config_options env self opts =
     bnd (mapM (save_and_set env self) opts) (\<lambda>initial_values.
     seqp (restart env self) (ret ((), restore env self initial_values)))"

section \<open>The CPU sets of a compute service\<close>

definition get_cpu_shared_set ::
  "('w, 'm) nova_env_scheme \<Rightarrow> service_manager \<Rightarrow> (('c, 'w) proc, int set) prog" where
  "get_cpu_shared_set env self =
     bnd (get_conf_opt env self ''compute'' ''cpu_shared_set'') (\<lambda>shared_set.
     if \<not> truthy shared_set then ret {} else of_result (parse_cpu_spec (fmt shared_set)))"

definition get_cpu_dedicated_set ::
  "('w, 'm) nova_env_scheme \<Rightarrow> service_manager \<Rightarrow> (('c, 'w) proc, int set) prog" where
  "get_cpu_dedicated_set env self =
     bnd (get_conf_opt env self ''compute'' ''cpu_dedicated_set'') (\<lambda>dedicated_set.
     bnd (case dedicated_set of
            Some v \<Rightarrow> ret (Some v)
          | None \<Rightarrow> get_conf_opt env self ''DEFAULT'' ''vcpu_pin_set'') (\<lambda>dedicated_set.
     if \<not> truthy dedicated_set then ret {} else of_result (parse_cpu_spec (fmt dedicated_set))))"

section \<open>What crudini does\<close>

text \<open>
  Words that the shell and \<^verbatim>\<open>crudini\<close> take as they are: letters, digits and a few marks, not starting
  with a dash.
\<close>

definition shell_char :: "char \<Rightarrow> bool" where
  "shell_char c = (let n = (of_char c :: nat) in
     (48 \<le> n \<and> n \<le> 57) \<or> (65 \<le> n \<and> n \<le> 90) \<or> (97 \<le> n \<and> n \<le> 122) \<or>
     c \<in> set ''_./:,=+@%^-'')"

definition shell_word :: "string \<Rightarrow> bool" where
  "shell_word w \<longleftrightarrow> w \<noteq> [] \<and> hd w \<noteq> CHR ''-'' \<and> list_all shell_char w"

definition good_value :: "string option \<Rightarrow> bool" where
  "good_value v = (case v of None \<Rightarrow> True | Some u \<Rightarrow> shell_word u)"

text \<open>A command on the host of a client, run as root.\<close>

definition as_root :: "('w, 'm) sys_env_scheme \<Rightarrow> 'a ssh_client_scheme \<Rightarrow> string \<Rightarrow> ('w, string) ext" where
  "as_root env self command = ssh_exec env (ctlplane_address self) (ssh_user self) (ssh_key self)
     (''sudo '' @ command)"

text \<open>
  The documented behaviour of \<^verbatim>\<open>crudini\<close> on the service's configuration file, which holds
  \<open>view w\<close> when the outside world is in the state \<open>w\<close>: \<^verbatim>\<open>--get\<close> prints the value of an option, and
  fails with a message that says that it was not found if it has none; \<^verbatim>\<open>--set\<close> and \<^verbatim>\<open>--del\<close> change
  that one option.
\<close>

definition crudini_ok ::
  "('w, 'm) sys_env_scheme \<Rightarrow> service_manager \<Rightarrow> ('w \<Rightarrow> string \<times> string \<Rightarrow> string option) \<Rightarrow> bool" where
  "crudini_ok env self view \<longleftrightarrow> (\<forall>a b w. shell_word a \<longrightarrow> shell_word b \<longrightarrow>
     (\<exists>r w'. as_root env self (''crudini --get '' @ fmt (config_path self) @ '' '' @ a @ '' '' @ b) w = (r, w') \<and>
        view w' = view w \<and>
        (case view w (a, b) of
           Some v \<Rightarrow> (\<exists>out. r = Inr out \<and> py_strip out = v)
         | None \<Rightarrow> (\<exists>msg. r = Inl (SSHExecCommandFailed msg) \<and> py_in ''not found'' msg))) \<and>
     (\<exists>out w'. as_root env self (''crudini --del '' @ fmt (config_path self) @ '' '' @ a @ '' '' @ b) w = (Inr out, w') \<and>
        view w' = (view w)((a, b) := None)) \<and>
     (\<forall>v. shell_word v \<longrightarrow>
        (\<exists>out w'. as_root env self (''crudini --set '' @ fmt (config_path self) @ '' '' @ a @ '' '' @ b @ '' '' @ v) w = (Inr out, w') \<and>
           view w' = (view w)((a, b) := Some v))))"

text \<open>What the service's own commands, asking Nova and sleeping keep of the outside world.\<close>

definition manager_keeps ::
  "('w, 'm) nova_env_scheme \<Rightarrow> service_manager \<Rightarrow> ('w \<Rightarrow> bool) \<Rightarrow> bool" where
  "manager_keeps env self P \<longleftrightarrow> polling_keeps env P \<and>
     (\<forall>w. \<forall>c \<in> {start_command self, stop_command self, mask_command self, unmask_command self}.
        P w \<longrightarrow> P (snd (as_root env self (fmt c) w)))"

definition store_ok ::
  "('w, 'm) nova_env_scheme \<Rightarrow> service_manager \<Rightarrow> ('w \<Rightarrow> string \<times> string \<Rightarrow> string option) \<Rightarrow> bool" where
  "store_ok env self view \<longleftrightarrow> crudini_ok env self view \<and> service_clock_ok env \<and>
     (\<forall>f. manager_keeps env self (\<lambda>w. view w = f))"

lemma execute_as_root: "execute env self command None True = external (as_root env self command)"
  by (simp add: execute_def as_root_def full_command_def truthy_def)

lemma keeps_as_root [keeps_intros]:
  assumes "manager_keeps env self P"
    and "c \<in> {start_command self, stop_command self, mask_command self, unmask_command self}"
  shows "keeps (\<lambda>s. P (world s)) (execute env self (fmt c) None True)"
  unfolding execute_as_root using assms by (intro keeps_external) (auto simp: manager_keeps_def)

lemma keeps_wait:
  "manager_keeps env self P \<Longrightarrow> keeps (\<lambda>s. P (world s)) (wait_for_nova_service_state env h b f v)"
  by (simp add: manager_keeps_def keeps_service_wait)

lemma keeps_start: "manager_keeps env self P \<Longrightarrow> keeps (\<lambda>s. P (world s)) (start env self)"
  unfolding start_def
  by (cases "sm_class self"; simp only: manager_class.case)
    (simp_all add: plain_start_def nova_start_def qemud_start_def keeps_bnd keeps_seqp keeps_ret
      keeps_If keeps_as_root keeps_wait)

lemma keeps_stop: "manager_keeps env self P \<Longrightarrow> keeps (\<lambda>s. P (world s)) (stop env self)"
  unfolding stop_def
  by (cases "sm_class self"; simp only: manager_class.case)
    (simp_all add: plain_stop_def nova_stop_def qemud_stop_def keeps_bnd keeps_seqp keeps_ret
      keeps_If keeps_as_root keeps_wait)

lemma keeps_restart: "manager_keeps env self P \<Longrightarrow> keeps (\<lambda>s. P (world s)) (restart env self)"
  unfolding restart_def by (intro keeps_seqp keeps_start keeps_stop keeps_ret)

lemma returns_execute [returns_intros]: "always_returns (execute env self c n sudo)"
  by (simp add: execute_def returns_basic)

lemma returns_start: "service_clock_ok env \<Longrightarrow> always_returns (start env self)"
  unfolding start_def
  by (cases "sm_class self"; simp only: manager_class.case)
    (simp_all add: plain_start_def nova_start_def qemud_start_def returns_intros)

lemma returns_stop: "service_clock_ok env \<Longrightarrow> always_returns (stop env self)"
  unfolding stop_def
  by (cases "sm_class self"; simp only: manager_class.case)
    (simp_all add: plain_stop_def nova_stop_def qemud_stop_def returns_intros)

lemma returns_restart: "service_clock_ok env \<Longrightarrow> always_returns (restart env self)"
  unfolding restart_def by (intro returns_seqp returns_start returns_stop returns_basic)

lemma get_conf_opt_view:
  assumes ok: "crudini_ok env self view" and words: "shell_word a" "shell_word b"
  shows "\<exists>s'. get_conf_opt env self a b s = Some (Inr (view (world s) (a, b)), s') \<and>
    view (world s') = view (world s)"
proof -
  obtain r w where run: "as_root env self (''crudini --get '' @ fmt (config_path self) @ '' '' @ a @ '' '' @ b)
        (world s) = (r, w)" and keep: "view w = view (world s)"
    and res: "case view (world s) (a, b) of
           Some v \<Rightarrow> (\<exists>out. r = Inr out \<and> py_strip out = v)
         | None \<Rightarrow> (\<exists>msg. r = Inl (SSHExecCommandFailed msg) \<and> py_in ''not found'' msg)"
    using ok words unfolding crudini_ok_def by blast
  have "get_conf_opt env self a b s = (case r of
      Inl (SSHExecCommandFailed msg) \<Rightarrow> Some (if py_in ''not found'' msg then Inr None
        else Inl (SSHExecCommandFailed msg), s\<lparr>world := w\<rparr>)
    | Inl e \<Rightarrow> Some (Inl e, s\<lparr>world := w\<rparr>)
    | Inr out \<Rightarrow> Some (Inr (Some (py_strip out)), s\<lparr>world := w\<rparr>))"
    using run by (simp add: get_conf_opt_def execute_as_root try_except_def bnd_def external_def
        prog_simps split: sum.split exn.split)
  with keep res show ?thesis by (auto split: option.splits)
qed

lemma set_conf_opt_view:
  assumes ok: "crudini_ok env self view" and words: "shell_word a" "shell_word b" "good_value v"
  shows "\<exists>out s'. set_conf_opt env self a b v s = Some (Inr out, s') \<and>
    view (world s') = (view (world s))((a, b) := v)"
proof (cases v)
  case None
  obtain out w where "as_root env self (''crudini --del '' @ fmt (config_path self) @ '' '' @ a @ '' '' @ b)
        (world s) = (Inr out, w)" "view w = (view (world s))((a, b) := None)"
    using ok words(1,2) unfolding crudini_ok_def by blast
  with None show ?thesis by (simp add: set_conf_opt_def execute_as_root external_def)
next
  case (Some u)
  then have "shell_word u" using words(3) by (simp add: good_value_def)
  then obtain out w where "as_root env self (''crudini --set '' @ fmt (config_path self) @ '' '' @ a @ '' '' @ b @ '' '' @ u)
        (world s) = (Inr out, w)" "view w = (view (world s))((a, b) := Some u)"
    using ok words(1,2) unfolding crudini_ok_def by blast
  with Some show ?thesis by (simp add: set_conf_opt_def execute_as_root external_def)
qed

lemma restart_view:
  assumes "store_ok env self view"
  shows "\<exists>r s'. restart env self s = Some (r, s') \<and> view (world s') = view (world s)"
proof -
  have "service_clock_ok env" and keeps: "manager_keeps env self (\<lambda>w. view w = view (world s))"
    using assms by (simp_all add: store_ok_def)
  then obtain r s' where run: "restart env self s = Some (r, s')"
    using always_returnsD [OF returns_restart] by blast
  have "view (world s') = view (world s)"
    using keepsD [OF keeps_restart [OF keeps] _ run] by simp
  with run show ?thesis by blast
qed

interpretation service_config: managed_store "\<lambda>(env, self, view). store_ok env self view"
  "\<lambda>(env, self, view) s. view (world s)" "\<lambda>a b. shell_word a \<and> shell_word b" good_value
  "\<lambda>(env, self, view). get_conf_opt env self" "\<lambda>(env, self, view). set_conf_opt env self"
  "\<lambda>(env, self, view). restart env self"
proof (unfold_locales, goal_cases)
  case (1 p a b s)
  then show ?case by (cases p) (simp add: store_ok_def get_conf_opt_view)
next
  case (2 p a b v s)
  then show ?case by (cases p) (simp add: store_ok_def set_conf_opt_view)
next
  case (3 p s)
  then show ?case by (cases p) (simp add: restart_view)
qed

text \<open>Lists of options whose names and values are words, and whose present values are.\<close>

definition good_opts :: "(string \<times> string \<times> string option) list \<Rightarrow> bool" where
  "good_opts opts = list_all (\<lambda>(a, b, v). shell_word a \<and> shell_word b \<and> good_value v) opts"

definition good_present :: "(string \<times> string \<Rightarrow> string option) \<Rightarrow> (string \<times> string \<times> 'v) list \<Rightarrow> bool" where
  "good_present f opts = list_all (\<lambda>(a, b, v). good_value (f (a, b))) opts"

lemma good_optsD:
  "good_opts opts \<Longrightarrow> (a, b, v) \<in> set opts \<Longrightarrow> shell_word a \<and> shell_word b \<and> good_value v"
  by (auto simp: good_opts_def list_all_iff)

lemma good_presentD: "good_present f opts \<Longrightarrow> (a, b, v) \<in> set opts \<Longrightarrow> good_value (f (a, b))"
  by (auto simp: good_present_def list_all_iff)

lemma config_options_enters:
  fixes s :: "('c, 'w) proc"
  assumes "store_ok env self view" and "good_opts opts" and "distinct (opt_keys opts)"
  shows "\<exists>r s1. config_options env self opts s = Some (r, s1) \<and>
    view (world s1) = put_all opts (view (world s)) \<and>
    (\<forall>x. r = Inr x \<longrightarrow> x = ((), restore env self (saved (view (world s)) opts))) \<and>
    (\<forall>e. r = Inl e \<longrightarrow> (\<exists>t t' :: ('c, 'w) proc. restart env self t = Some (Inl e, t')))"
  using service_config.enter [of "(env, self, view)" opts "restore env self" s]
    good_optsD [OF assms(2)] assms(1,3)
  by (simp add: config_options_def save_and_set_def)

lemma restore_restores:
  fixes s :: "('c, 'w) proc"
  assumes "store_ok env self view" and "good_opts opts" and "good_present f opts"
  shows "\<exists>r s'. restore env self (saved f opts) s = Some (r, s') \<and>
    (\<forall>k. view (world s') k = (if k \<in> set (opt_keys opts) then f k else view (world s) k)) \<and>
    (\<forall>e. r = Inl e \<longrightarrow> (\<exists>t t' :: ('c, 'w) proc. restart env self t = Some (Inl e, t')))"
  unfolding restore_def
  using service_config.leave [of "(env, self, view)" opts f s, unfolded prod.case]
    good_optsD [OF assms(2)] good_presentD [OF assms(3)] assms(1)
  by blast

section \<open>A host with crudini\<close>

text \<open>
  A host whose outside world is the content of one configuration file and the clock, and which runs
  \<^verbatim>\<open>crudini\<close> as documented: an instance of the hypotheses above.
\<close>

type_synonym ini = "string \<times> string \<Rightarrow> string option"

definition ini_exec :: "string \<Rightarrow> (ini \<times> int, string) ext" where
  "ini_exec command = (\<lambda>(f, t).
     (let ws = py_split command in
      if take 3 ws = [''sudo'', ''crudini'', ''--get''] \<and> length ws = 6
      then (case f (ws ! 4, ws ! 5) of
          Some v \<Rightarrow> (Inr (v @ [newline]), (f, t))
        | None \<Rightarrow> (Inl (SSHExecCommandFailed ''Parameter not found''), (f, t)))
      else if take 3 ws = [''sudo'', ''crudini'', ''--del''] \<and> length ws = 6
      then (Inr [], (f((ws ! 4, ws ! 5) := None), t))
      else if take 3 ws = [''sudo'', ''crudini'', ''--set''] \<and> length ws = 7
      then (Inr [], (f((ws ! 4, ws ! 5) := Some (ws ! 6)), t))
      else (Inr [], (f, t))))"

definition ini_env :: "api_object list \<Rightarrow> (ini \<times> int) nova_env" where
  "ini_env services = \<lparr>cfg = default_conf 300 1 ''img'' ''10.0.0.0/24'',
      read_nodes_yaml = (\<lambda>p w. (Inr [], w)),
      ssh_exec = (\<lambda>a u k. ini_exec),
      clock = snd, sleep = (\<lambda>n (f, t). (f, t + n)),
      list_services = (\<lambda>h b w. (Inr services, w)),
      services_timeout = 10, services_interval = 1,
      list_migrations = (\<lambda>w. (Inr [], w)),
      list_rp_traits = (\<lambda>p w. (Inr [], w))\<rparr>"

definition ini_view :: "ini \<times> int \<Rightarrow> ini" where
  "ini_view = (\<lambda>(f, t) k. map_option py_strip (f k))"

definition ini_manager :: "manager_class \<Rightarrow> service_manager" where
  "ini_manager cls = \<lparr>ssh_key = [], ssh_user = [], host_parameters = None, ctlplane_address = [],
     sm_class = cls, sm_host = ''compute1'', sm_service = ''nova-compute'',
     config_path = Some ''/etc/nova.conf'', start_command = Some ''start'', stop_command = Some ''stop'',
     mask_command = None, unmask_command = None\<rparr>"

definition ini_state :: "ini \<Rightarrow> (unit, ini \<times> int) proc" where
  "ini_state f = \<lparr>nodes_cache = None, cleanups = [], world = (f, 0)\<rparr>"

lemma shell_word_is_word: "shell_word w \<Longrightarrow> is_word w"
  by (auto simp: shell_word_def is_word_def list_all_iff shell_char_def py_isspace_def Let_def)

lemma strip_shell_word: "shell_word w \<Longrightarrow> py_strip w = w"
  using shell_word_is_word by (intro strip_by_id) (auto simp: is_word_def)

lemma crudini_words [simp]:
  "is_word ''sudo''" "is_word ''crudini''" "is_word ''--get''" "is_word ''--set''" "is_word ''--del''"
  "is_word ''/etc/nova.conf''"
  by (simp_all add: is_word_def py_isspace_def)

lemma ini_as_root:
  "as_root (ini_env services) (ini_manager cls) c = ini_exec (''sudo '' @ c)"
  by (simp add: as_root_def ini_env_def)

lemma split_crudini3:
  assumes "is_word op" and "is_word p" and "is_word a" and "is_word b"
  shows "py_split (''sudo '' @ ''crudini '' @ op @ '' '' @ p @ '' '' @ a @ '' '' @ b) =
    [''sudo'', ''crudini'', op, p, a, b]"
proof -
  let ?ws = "[''sudo'', ''crudini'', op, p, a, b]"
  have "py_split (py_join '' '' ?ws) = ?ws"
    using assms by (intro py_split_join) auto
  moreover have "py_join '' '' ?ws = ''sudo '' @ ''crudini '' @ op @ '' '' @ p @ '' '' @ a @ '' '' @ b"
    by simp
  ultimately show ?thesis by (simp only:)
qed

lemma split_crudini4:
  assumes "is_word op" and "is_word p" and "is_word a" and "is_word b" and "is_word v"
  shows "py_split (''sudo '' @ ''crudini '' @ op @ '' '' @ p @ '' '' @ a @ '' '' @ b @ '' '' @ v) =
    [''sudo'', ''crudini'', op, p, a, b, v]"
proof -
  let ?ws = "[''sudo'', ''crudini'', op, p, a, b, v]"
  have "py_split (py_join '' '' ?ws) = ?ws"
    using assms by (intro py_split_join) auto
  moreover have "py_join '' '' ?ws = ''sudo '' @ ''crudini '' @ op @ '' '' @ p @ '' '' @ a @ '' '' @ b @ '' '' @ v"
    by simp
  ultimately show ?thesis by (simp only:)
qed

text \<open>The commands of the manager as a host with \<^verbatim>\<open>crudini\<close> runs them.\<close>

lemma ini_get_exec:
  assumes "shell_word a" and "shell_word b"
  shows "ini_exec (''sudo '' @ ''crudini --get '' @ ''/etc/nova.conf'' @ '' '' @ a @ '' '' @ b) (f, t) =
    (case f (a, b) of Some v \<Rightarrow> (Inr (v @ [newline]), (f, t))
     | None \<Rightarrow> (Inl (SSHExecCommandFailed ''Parameter not found''), (f, t)))"
proof -
  have "py_split (''sudo '' @ ''crudini --get '' @ ''/etc/nova.conf'' @ '' '' @ a @ '' '' @ b) =
      [''sudo'', ''crudini'', ''--get'', ''/etc/nova.conf'', a, b]"
    using split_crudini3 [of "''--get''" "''/etc/nova.conf''" a b] assms
    by (simp only: crudini_words shell_word_is_word append.simps)
  then show ?thesis
    unfolding ini_exec_def prod.case Let_def by (simp only:) simp
qed

lemma ini_del_exec:
  assumes "shell_word a" and "shell_word b"
  shows "ini_exec (''sudo '' @ ''crudini --del '' @ ''/etc/nova.conf'' @ '' '' @ a @ '' '' @ b) (f, t) =
    (Inr [], (f((a, b) := None), t))"
proof -
  have "py_split (''sudo '' @ ''crudini --del '' @ ''/etc/nova.conf'' @ '' '' @ a @ '' '' @ b) =
      [''sudo'', ''crudini'', ''--del'', ''/etc/nova.conf'', a, b]"
    using split_crudini3 [of "''--del''" "''/etc/nova.conf''" a b] assms
    by (simp only: crudini_words shell_word_is_word append.simps)
  then show ?thesis
    unfolding ini_exec_def prod.case Let_def by (simp only:) simp
qed

lemma ini_set_exec:
  assumes "shell_word a" and "shell_word b" and "shell_word v"
  shows "ini_exec (''sudo '' @ ''crudini --set '' @ ''/etc/nova.conf'' @ '' '' @ a @ '' '' @ b @ '' '' @ v) (f, t) =
    (Inr [], (f((a, b) := Some v), t))"
proof -
  have "py_split (''sudo '' @ ''crudini --set '' @ ''/etc/nova.conf'' @ '' '' @ a @ '' '' @ b @ '' '' @ v) =
      [''sudo'', ''crudini'', ''--set'', ''/etc/nova.conf'', a, b, v]"
    using split_crudini4 [of "''--set''" "''/etc/nova.conf''" a b v] assms
    by (simp only: crudini_words shell_word_is_word append.simps)
  then show ?thesis
    unfolding ini_exec_def prod.case Let_def by (simp only:) simp
qed

lemma not_found_message: "py_in ''not found'' ''Parameter not found''"
proof -
  have "''Parameter not found'' = ''Parameter '' @ ''not found'' @ []" by simp
  then show ?thesis unfolding py_in_def sublist_def by blast
qed

lemma ini_crudini_ok: "crudini_ok (ini_env services) (ini_manager cls) ini_view"
  unfolding crudini_ok_def ini_as_root
proof (intro allI impI conjI)
  fix a b :: string and w :: "ini \<times> int"
  assume words: "shell_word a" "shell_word b"
  obtain f t where w: "w = (f, t)" by (cases w)
  have path: "fmt (config_path (ini_manager cls)) = ''/etc/nova.conf''"
    by (simp add: ini_manager_def fmt_def)
  show "\<exists>r w'. ini_exec (''sudo '' @ ''crudini --get '' @ fmt (config_path (ini_manager cls)) @ '' '' @ a @ '' '' @ b) w = (r, w') \<and>
      ini_view w' = ini_view w \<and>
      (case ini_view w (a, b) of
         Some v \<Rightarrow> (\<exists>out. r = Inr out \<and> py_strip out = v)
       | None \<Rightarrow> (\<exists>msg. r = Inl (SSHExecCommandFailed msg) \<and> py_in ''not found'' msg))"
    unfolding path w ini_get_exec [OF words]
    by (cases "f (a, b)") (simp_all add: ini_view_def strip_by_snoc not_found_message)
  show "\<exists>out w'. ini_exec (''sudo '' @ ''crudini --del '' @ fmt (config_path (ini_manager cls)) @ '' '' @ a @ '' '' @ b) w =
      (Inr out, w') \<and> ini_view w' = (ini_view w)((a, b) := None)"
    unfolding path w ini_del_exec [OF words] by (auto simp: ini_view_def)
  fix v :: string assume v: "shell_word v"
  show "\<exists>out w'. ini_exec (''sudo '' @ ''crudini --set '' @ fmt (config_path (ini_manager cls)) @ '' '' @ a @ '' '' @ b @ '' '' @ v) w =
      (Inr out, w') \<and> ini_view w' = (ini_view w)((a, b) := Some v)"
    unfolding path w ini_set_exec [OF words v] by (auto simp: ini_view_def strip_shell_word [OF v])
qed

lemma ini_other_exec:
  "ini_exec ''sudo start'' w = (Inr [], w)" "ini_exec ''sudo stop'' w = (Inr [], w)"
  "ini_exec ''sudo None'' w = (Inr [], w)"
  by (cases w; simp add: ini_exec_def py_isspace_def)+

lemma ini_store_ok: "store_ok (ini_env services) (ini_manager cls) ini_view"
proof -
  have "service_clock_ok (ini_env services)"
    by (auto simp: service_clock_ok_def sleep_advances_def never_back_def ini_env_def)
  moreover have "manager_keeps (ini_env services) (ini_manager cls) (\<lambda>w. ini_view w = f)" for f
    unfolding manager_keeps_def ini_as_root
    by (auto simp: ini_manager_def fmt_def ini_other_exec polling_keeps_def ini_env_def ini_view_def)
  ultimately show ?thesis by (simp add: store_ok_def ini_crudini_ok)
qed

lemma ini_restart:
  "restart (ini_env services) (ini_manager PlainManager) s = Some (Inr (), s)"
  by (simp add: restart_def start_def stop_def plain_start_def plain_stop_def ini_manager_def
      execute_def ini_env_def full_command_def truthy_def fmt_def ini_other_exec seqp_def bnd_def
      external_def ret_def)

lemma ini_get:
  assumes "shell_word a" and "shell_word b"
  shows "get_conf_opt (ini_env services) (ini_manager cls) a b s =
    Some (Inr (ini_view (world s) (a, b)), s)"
proof -
  obtain f t where w: "world s = (f, t)" by (cases "world s")
  have upd: "s\<lparr>world := (f, t)\<rparr> = s" using w [symmetric] by simp
  have path: "fmt (config_path (ini_manager cls)) = ''/etc/nova.conf''"
    by (simp add: ini_manager_def fmt_def)
  show ?thesis
    unfolding get_conf_opt_def Let_def execute_as_root ini_as_root path try_except_def bnd_def
      external_def w ini_get_exec [OF assms]
    by (cases "f (a, b)")
      (simp_all add: ini_view_def strip_by_snoc not_found_message prog_simps upd w)
qed

lemma ini_set:
  assumes "shell_word a" and "shell_word b" and "good_value v"
  shows "set_conf_opt (ini_env services) (ini_manager cls) a b v s =
    Some (Inr [], s\<lparr>world := ((fst (world s))((a, b) := v), snd (world s))\<rparr>)"
proof -
  obtain f t where w: "world s = (f, t)" by (cases "world s")
  have path: "fmt (config_path (ini_manager cls)) = ''/etc/nova.conf''"
    by (simp add: ini_manager_def fmt_def)
  show ?thesis
    unfolding set_conf_opt_def Let_def execute_as_root path external_def ini_as_root w
    using assms by (cases v)
      (simp_all only: option.case good_value_def ini_del_exec ini_set_exec prod.case fst_conv snd_conv)
qed

lemma ini_enters:
  assumes "good_opts opts" and "distinct (opt_keys opts)"
  shows "\<exists>leave s1. config_options (ini_env services) (ini_manager PlainManager) opts s =
    Some (Inr ((), leave), s1)"
  using service_config.save_all [of "(ini_env services, ini_manager PlainManager, ini_view)" opts s]
    good_optsD [OF assms(1)] assms(2)
  by (auto simp: ini_store_ok config_options_def save_and_set_def bnd_def seqp_def ini_restart ret_def)

lemma shell_words [simp]:
  "shell_word ''compute''" "shell_word ''cpu_shared_set''" "shell_word ''cpu_dedicated_set''"
  "shell_word ''DEFAULT''" "shell_word ''vcpu_pin_set''"
  "shell_word ''0-1''" "shell_word ''0-3,^2''" "shell_word ''1''" "shell_word ''2''"
  by (simp_all add: shell_word_def shell_char_def)

section \<open>What starting and stopping do\<close>

text \<open>
  The start and stop commands of a service work: \<open>up w\<close> says that it is running. A service that its
  manager unmasks need only start once it is unmasked. Masking and unmasking, asking Nova and sleeping
  leave the service as it is.
\<close>

definition unmasked :: "('w, 'm) nova_env_scheme \<Rightarrow> service_manager \<Rightarrow> 'w \<Rightarrow> 'w" where
  "unmasked env self w = (if sm_class self = PlainManager \<and> truthy (unmask_command self)
     then snd (as_root env self (fmt (unmask_command self)) w) else w)"

definition service_ok ::
  "('w, 'm) nova_env_scheme \<Rightarrow> service_manager \<Rightarrow> ('w \<Rightarrow> bool) \<Rightarrow> bool" where
  "service_ok env self up \<longleftrightarrow> service_clock_ok env \<and>
     (\<forall>b. polling_keeps env (\<lambda>w. up w = b)) \<and>
     (\<forall>w. \<exists>out w'. as_root env self (fmt (start_command self)) (unmasked env self w) = (Inr out, w') \<and> up w') \<and>
     (\<forall>w. \<exists>out w'. as_root env self (fmt (stop_command self)) w = (Inr out, w') \<and> \<not> up w') \<and>
     (truthy (unmask_command self) \<longrightarrow> (\<forall>c \<in> {mask_command self, unmask_command self}. \<forall>w.
        \<exists>out w'. as_root env self (fmt c) w = (Inr out, w') \<and> up w' = up w))"

lemma waiting_keeps_up:
  assumes ok: "service_ok env self up"
  shows "\<exists>r s'. seqp (wait_for_nova_service_state env h b f v) (ret x) s = Some (r, s') \<and>
    up (world s') = up (world s)"
proof -
  have poll: "polling_keeps env (\<lambda>w. up w = up (world s))" and clock: "service_clock_ok env"
    using ok unfolding service_ok_def by blast+
  obtain r s' where run: "wait_for_nova_service_state env h b f v s = Some (r, s')"
    using service_wait_returns [OF clock] by blast
  moreover have "up (world s') = up (world s)"
    using keepsD [OF keeps_service_wait [OF poll] _ run] by simp
  ultimately show ?thesis by (cases r) (simp_all add: seqp_def bnd_def ret_def)
qed

lemma waiting_keeps_upD:
  assumes "service_ok env self up"
    and "seqp (wait_for_nova_service_state env h b f v) (ret x) s = Some (r, s')"
  shows "up (world s') = up (world s)"
  using waiting_keeps_up [OF assms(1), of h b f v x s] assms(2) by auto

lemma start_brings_up:
  assumes ok: "service_ok env self up"
  shows "\<exists>r s'. start env self s = Some (r, s') \<and> up (world s')"
proof -
  have run: "\<exists>out w'. as_root env self (fmt (start_command self)) (unmasked env self w) = (Inr out, w') \<and> up w'" for w
    using ok unfolding service_ok_def by blast
  show ?thesis
  proof (cases "sm_class self = PlainManager")
    case True
    have "\<exists>out w'. as_root env self (fmt (unmask_command self)) (world s) = (Inr out, w')"
      if "truthy (unmask_command self)"
      using ok that unfolding service_ok_def by blast
    then have "(if truthy (unmask_command self)
        then seqp (execute env self (fmt (unmask_command self)) None True) (ret ()) else ret ()) s =
        Some (Inr (), s\<lparr>world := unmasked env self (world s)\<rparr>)"
      using True by (cases "truthy (unmask_command self)")
        (auto simp: execute_as_root seqp_def bnd_def external_def ret_def unmasked_def)
    moreover from run [of "world s"] obtain out w where
      "as_root env self (fmt (start_command self)) (unmasked env self (world s)) = (Inr out, w)" "up w" by blast
    ultimately show ?thesis
      using True by (simp add: start_def plain_start_def execute_as_root seqp_def bnd_def
          external_def ret_def)
  next
    case False
    obtain out w where exec: "as_root env self (fmt (start_command self)) (world s) = (Inr out, w)" "up w"
      using run [of "world s"] False by (auto simp: unmasked_def)
    have "start env self s = (case sm_class self of
        NovaManager \<Rightarrow> seqp (wait_for_nova_service_state env (sm_host self) (sm_service self) ''state'' ''up'')
      | _ \<Rightarrow> seqp (wait_for_nova_service_state env (sm_host self) ''nova-compute'' ''status'' ''enabled''))
        (ret (Some out)) (s\<lparr>world := w\<rparr>)"
      using exec(1) False by (cases "sm_class self")
        (simp_all add: start_def nova_start_def qemud_start_def execute_as_root bnd_def external_def)
    then show ?thesis
      using waiting_keeps_up [OF ok, of _ _ _ _ "Some out" "s\<lparr>world := w\<rparr>"] exec(2)
      by (cases "sm_class self") simp_all
  qed
qed

lemma stop_takes_down:
  assumes ok: "service_ok env self up" and stop: "stop env self s = Some (r, s')"
  shows "\<not> up (world s')"
proof -
  obtain out w where exec: "as_root env self (fmt (stop_command self)) (world s) = (Inr out, w)" "\<not> up w"
    using ok unfolding service_ok_def by blast
  show ?thesis
  proof (cases "sm_class self = PlainManager")
    case True
    have "\<exists>out w'. as_root env self (fmt (mask_command self)) w = (Inr out, w') \<and> up w' = up w"
      if "truthy (unmask_command self)"
      using ok that unfolding service_ok_def by blast
    with exec stop True show ?thesis
      by (auto simp: stop_def plain_stop_def execute_as_root seqp_def bnd_def external_def ret_def
          split: if_splits)
  next
    case False
    have "stop env self s = (case sm_class self of
        NovaManager \<Rightarrow> seqp (wait_for_nova_service_state env (sm_host self) (sm_service self) ''state'' ''down'')
      | _ \<Rightarrow> seqp (wait_for_nova_service_state env (sm_host self) ''nova-compute'' ''status'' ''disabled''))
        (ret (Some out)) (s\<lparr>world := w\<rparr>)"
      using exec(1) False by (cases "sm_class self")
        (simp_all add: stop_def nova_stop_def qemud_stop_def execute_as_root bnd_def external_def)
    then show ?thesis
      using exec(2) stop by (cases "sm_class self") (auto dest!: waiting_keeps_upD [OF ok, OF sym])
  qed
qed

section \<open>Properties\<close>

text \<open>C1. \<^verbatim>\<open>config_options\<close> keeps its promise. When the body of the \<^verbatim>\<open>with\<close> block starts, the file holds the
  new values. However the body ends, and whatever it did to the file, leaving the block returns and
  gives every option that was set the value it had before, or removes it if it had none; all other
  options are as the body left them. No option may be listed twice, and names and values must be
  plain words.\<close>

theorem config_options_restores:
  assumes store: "store_ok env self view" and opts: "good_opts opts" "distinct (opt_keys opts)"
    and old: "good_present (view (world s)) opts"
    and enter: "config_options env self opts s = Some (Inr ((), leave), s1)"
    and body: "body () s1 = Some (r, s2)"
  shows "view (world s1) = put_all opts (view (world s)) \<and>
    (\<exists>r' s3. with_cm (config_options env self opts) body s = Some (r', s3) \<and>
      (r' = r \<or> (\<exists>e. r' = Inl e)) \<and>
      (\<forall>k. view (world s3) k =
        (if k \<in> set (opt_keys opts) then view (world s) k else view (world s2) k)))"
proof -
  have s1: "view (world s1) = put_all opts (view (world s))"
    and leave: "leave = restore env self (saved (view (world s)) opts)"
    using config_options_enters [OF store opts, of s] enter by auto
  obtain q s3 where exit: "leave s2 = Some (q, s3)"
    and view: "\<forall>k. view (world s3) k =
        (if k \<in> set (opt_keys opts) then view (world s) k else view (world s2) k)"
    using restore_restores [OF store opts(1) old, of s2] leave by blast
  have "with_cm (config_options env self opts) body s =
      Some (case q of Inl e \<Rightarrow> Inl e | Inr _ \<Rightarrow> r, s3)"
    using enter body exit by (simp add: with_cm_def bnd_def try_finally_def split: sum.split)
  with s1 view show ?thesis by (cases q) auto
qed

theorem config_options_restores_witness:
  "\<exists>r s'. with_cm (config_options (ini_env []) (ini_manager PlainManager)
        [(''compute'', ''cpu_shared_set'', Some ''0-1'')]) (\<lambda>_. raise AssertionError)
      (ini_state (\<lambda>k. None)) = Some (r :: unit result, s') \<and>
    ini_view (world s') (''compute'', ''cpu_shared_set'') = None"
proof -
  let ?opts = "[(''compute'', ''cpu_shared_set'', Some ''0-1'')]"
  have good: "good_opts ?opts" "distinct (opt_keys ?opts)"
    "good_present (ini_view (world (ini_state (\<lambda>k. None)))) ?opts"
    by (simp_all add: good_opts_def good_present_def good_value_def ini_state_def ini_view_def)
  obtain leave s1 where enter: "config_options (ini_env []) (ini_manager PlainManager) ?opts
      (ini_state (\<lambda>k. None)) = Some (Inr ((), leave), s1)"
    using ini_enters [OF good(1,2)] by blast
  show ?thesis
    using config_options_restores [OF ini_store_ok good enter,
        of "\<lambda>_. raise AssertionError" "Inl AssertionError :: unit result" s1]
    by (auto simp: prog_simps ini_state_def ini_view_def)
qed

text \<open>C37. If the restart after setting the options fails, the block is left at once and the options keep
  the new values: nothing restores them.\<close>

theorem config_options_setup_failure:
  assumes "store_ok env self view" and "good_opts opts" and "distinct (opt_keys opts)"
    and "config_options env self opts s = Some (Inl e, s1)"
  shows "with_cm (config_options env self opts) body s = Some (Inl e, s1) \<and>
    view (world s1) = put_all opts (view (world s))"
  using config_options_enters [OF assms(1-3), of s] assms(4)
  by (auto simp: with_cm_def bnd_def)

theorem config_options_setup_failure_witness:
  "\<exists>e s'. with_cm (config_options (ini_env []) (ini_manager NovaManager)
        [(''compute'', ''cpu_shared_set'', Some ''0-1'')]) (\<lambda>_. ret ())
      (ini_state (\<lambda>k. None)) = Some (Inl e, s') \<and>
    ini_view (world s') (''compute'', ''cpu_shared_set'') = Some ''0-1''"
proof -
  let ?opts = "[(''compute'', ''cpu_shared_set'', Some ''0-1'')]"
  have good: "good_opts ?opts" "distinct (opt_keys ?opts)"
    by (simp_all add: good_opts_def good_value_def)
  have "restart (ini_env []) (ini_manager NovaManager) s = Some (Inl IndexError, s)"
    for s :: "(unit, ini \<times> int) proc"
    by (simp add: restart_def stop_def nova_stop_def ini_manager_def execute_def ini_env_def
        full_command_def truthy_def fmt_def ini_other_exec seqp_def bnd_def external_def ret_def
        run_service_wait poll_service_def py_first_def)
  then obtain s1 where "config_options (ini_env []) (ini_manager NovaManager) ?opts
      (ini_state (\<lambda>k. None)) = Some (Inl IndexError, s1)"
    by (simp add: config_options_def save_and_set_def ini_get ini_set good_value_def bnd_def
        seqp_def ret_def)
  from config_options_setup_failure [OF ini_store_ok good this, of "\<lambda>_. ret ()"] show ?thesis
    by auto
qed

text \<open>An option that is listed twice is not restored: the second time it is read it already has the
  first new value, which is written back last. Here an option that was not set before is left set to
  the first of the two values.\<close>

theorem config_options_duplicate:
  "\<exists>s'. with_cm (config_options (ini_env []) (ini_manager PlainManager)
        [(''compute'', ''cpu_shared_set'', Some ''1''), (''compute'', ''cpu_shared_set'', Some ''2'')])
      (\<lambda>_. ret ()) (ini_state (\<lambda>k. None)) = Some (Inr (), s') \<and>
    ini_view (world s') (''compute'', ''cpu_shared_set'') = Some ''1''"
  by (simp add: with_cm_def config_options_def save_and_set_def restore_def ini_get ini_set
      ini_restart good_value_def bnd_def seqp_def ret_def try_finally_def ini_view_def ini_state_def
      strip_shell_word)

text \<open>C7. \<^verbatim>\<open>stopped\<close> keeps its promise, for every class of manager: when the body of the \<^verbatim>\<open>with\<close> block
  starts the service is down, and however the body ends, leaving the block returns with the service
  running again.\<close>

theorem stopped_starts_again:
  assumes ok: "service_ok env self up"
    and enter: "stopped env self s = Some (Inr ((), leave), s1)"
    and body: "body () s1 = Some (r, s2)"
  shows "\<not> up (world s1) \<and>
    (\<exists>r' s3. with_cm (stopped env self) body s = Some (r', s3) \<and> up (world s3))"
proof -
  obtain x where stop: "stop env self s = Some (Inr x, s1)"
    and leave: "leave = seqp (start env self) (ret ())"
    using enter by (auto simp: stopped_def seqp_def bnd_Inr_iff ret_def)
  obtain q s3 where start: "start env self s2 = Some (q, s3)" "up (world s3)"
    using start_brings_up [OF ok] by blast
  have "\<exists>r'. with_cm (stopped env self) body s = Some (r', s3)"
    using enter body start(1) leave
    by (cases q) (simp_all add: with_cm_def bnd_def try_finally_def seqp_def ret_def)
  with stop_takes_down [OF ok stop] start(2) show ?thesis by blast
qed

text \<open>A host whose outside world is whether the service runs, and the clock.\<close>

definition switch_env :: "(bool \<times> int) nova_env" where
  "switch_env = \<lparr>cfg = default_conf 300 1 ''img'' ''10.0.0.0/24'',
      read_nodes_yaml = (\<lambda>p w. (Inr [], w)),
      ssh_exec = (\<lambda>a u k c (up, t). (Inr [], (if c = ''sudo start'' then True
                          else if c = ''sudo stop'' then False else up, t))),
      clock = snd, sleep = (\<lambda>n (up, t). (up, t + n)),
      list_services = (\<lambda>h b (up, t). (Inr [[(''state'', if up then ''up'' else ''down'')]], (up, t))),
      services_timeout = 10, services_interval = 1,
      list_migrations = (\<lambda>w. (Inr [], w)),
      list_rp_traits = (\<lambda>p w. (Inr [], w))\<rparr>"

lemma switch_service_ok: "service_ok switch_env (ini_manager cls) fst"
  by (auto simp: service_ok_def unmasked_def service_clock_ok_def sleep_advances_def never_back_def
      polling_keeps_def as_root_def ini_manager_def fmt_def truthy_def switch_env_def split: prod.splits)

theorem stopped_starts_again_witness:
  "\<exists>r s'. with_cm (stopped switch_env (ini_manager NovaManager)) (\<lambda>_. raise AssertionError)
      \<lparr>nodes_cache = None, cleanups = [] :: unit list, world = (True, 0)\<rparr> =
    Some (r :: unit result, s') \<and> fst (world s')"
proof -
  let ?s = "\<lparr>nodes_cache = None, cleanups = [] :: unit list, world = (True, 0)\<rparr> :: (unit, bool \<times> int) proc"
  obtain leave s1 where enter: "stopped switch_env (ini_manager NovaManager) ?s = Some (Inr ((), leave), s1)"
    by (simp add: stopped_def stop_def nova_stop_def execute_as_root as_root_def switch_env_def
        ini_manager_def fmt_def seqp_def bnd_def external_def ret_def run_service_wait
        poll_service_def py_first_def iterate.simps service_state_step_def service_query_def)
  show ?thesis
    using stopped_starts_again [OF switch_service_ok enter,
        of "\<lambda>_. raise AssertionError" "Inl AssertionError :: unit result" s1]
    by (simp add: prog_simps)
qed

text \<open>Nova's answer that led to \<open>w'\<close> shows the service up or down.\<close>

definition nova_reports ::
  "('w, 'm) nova_env_scheme \<Rightarrow> service_manager \<Rightarrow> bool \<Rightarrow> 'w \<Rightarrow> bool" where
  "nova_reports env self on w' \<longleftrightarrow> (\<exists>w service rest.
     (if sm_class self = NovaManager
      then list_services env (Some (sm_host self)) (sm_service self) w = (Inr (service # rest), w') \<and>
           map_of service ''state'' = Some (if on then ''up'' else ''down'')
      else list_services env (Some (sm_host self)) ''nova-compute'' w = (Inr (service # rest), w') \<and>
           map_of service ''status'' = Some (if on then ''enabled'' else ''disabled'')))"

text \<open>C19. A restart of a manager that watches Nova returns normally only after Nova has reported the
  service (or, for \<^verbatim>\<open>VirtQEMUdManager\<close>, the compute service's status) first as down and then, in the
  last answer before the return, as up.\<close>

theorem restart_seen_by_nova:
  assumes cls: "sm_class self \<noteq> PlainManager"
    and run: "restart env self s = Some (Inr (), s')"
  shows "\<exists>x s1. stop env self s = Some (Inr x, s1) \<and> nova_reports env self False (world s1) \<and>
    nova_reports env self True (world s')"
proof -
  obtain x y s1 where stop: "stop env self s = Some (Inr x, s1)"
    and start: "start env self s1 = Some (Inr y, s')"
    using run by (auto simp: restart_def seqp_Inr_iff ret_def)
  have "nova_reports env self False (world s1)"
    using stop cls
    by (cases "sm_class self")
      (auto simp: stop_def nova_stop_def qemud_stop_def bnd_Inr_iff seqp_Inr_iff ret_def nova_reports_def
        dest!: service_wait_reached)
  moreover have "nova_reports env self True (world s')"
    using start cls
    by (cases "sm_class self")
      (auto simp: start_def nova_start_def qemud_start_def bnd_Inr_iff seqp_Inr_iff ret_def nova_reports_def
        dest!: service_wait_reached)
  ultimately show ?thesis using stop by blast
qed

theorem restart_seen_by_nova_witness:
  "\<exists>s'. restart switch_env (ini_manager NovaManager)
      \<lparr>nodes_cache = None, cleanups = [] :: unit list, world = (True, 0)\<rparr> = Some (Inr (), s') \<and>
    nova_reports switch_env (ini_manager NovaManager) True (world s')"
proof -
  let ?s = "\<lparr>nodes_cache = None, cleanups = [] :: unit list, world = (True, 0)\<rparr> :: (unit, bool \<times> int) proc"
  have run: "restart switch_env (ini_manager NovaManager) ?s = Some (Inr (), ?s)"
    by (simp add: restart_def start_def stop_def nova_start_def nova_stop_def execute_as_root
        as_root_def switch_env_def ini_manager_def fmt_def seqp_def bnd_def external_def ret_def
        run_service_wait poll_service_def py_first_def iterate.simps service_state_step_def
        service_query_def)
  have "sm_class (ini_manager NovaManager) \<noteq> PlainManager" by (simp add: ini_manager_def)
  from restart_seen_by_nova [OF this run] run show ?thesis by blast
qed

text \<open>What the value of an option says about CPUs: none if it is missing or empty.\<close>

definition option_cpus :: "string option \<Rightarrow> int set result" where
  "option_cpus v = (case v of
       None \<Rightarrow> Inr {}
     | Some u \<Rightarrow> if u = [] then Inr {} else parse_cpu_spec u)"

lemma option_cpus_run:
  "(if \<not> truthy v then ret {} else of_result (parse_cpu_spec (fmt v))) s = Some (option_cpus v, s)"
  by (auto simp: option_cpus_def truthy_def fmt_def prog_simps split: option.splits)

text \<open>C32. The CPU sets of a compute service are those its configuration file denotes. The shared CPUs
  are read from \<^verbatim>\<open>cpu_shared_set\<close>; the dedicated ones from \<^verbatim>\<open>cpu_dedicated_set\<close> if that is in the file,
  even if it is empty, and otherwise from the older \<^verbatim>\<open>vcpu_pin_set\<close>. Nothing is changed.\<close>

theorem cpu_sets_of_config:
  assumes ok: "crudini_ok env self view"
  shows "(\<exists>s'. get_cpu_shared_set env self s =
      Some (option_cpus (view (world s) (''compute'', ''cpu_shared_set'')), s') \<and>
      view (world s') = view (world s)) \<and>
    (\<exists>s'. get_cpu_dedicated_set env self s =
      Some (option_cpus (case view (world s) (''compute'', ''cpu_dedicated_set'') of
          Some v \<Rightarrow> Some v | None \<Rightarrow> view (world s) (''DEFAULT'', ''vcpu_pin_set'')), s') \<and>
      view (world s') = view (world s))"
proof
  obtain s1 where "get_conf_opt env self ''compute'' ''cpu_shared_set'' s =
      Some (Inr (view (world s) (''compute'', ''cpu_shared_set'')), s1)" "view (world s1) = view (world s)"
    using get_conf_opt_view [OF ok, of "''compute''" "''cpu_shared_set''" s] by auto
  then show "\<exists>s'. get_cpu_shared_set env self s =
      Some (option_cpus (view (world s) (''compute'', ''cpu_shared_set'')), s') \<and>
      view (world s') = view (world s)"
    unfolding get_cpu_shared_set_def by (simp add: run_bnd_Inr option_cpus_run del: not_not)
next
  obtain s1 where s1: "get_conf_opt env self ''compute'' ''cpu_dedicated_set'' s =
      Some (Inr (view (world s) (''compute'', ''cpu_dedicated_set'')), s1)" "view (world s1) = view (world s)"
    using get_conf_opt_view [OF ok, of "''compute''" "''cpu_dedicated_set''" s] by auto
  obtain s2 where s2: "get_conf_opt env self ''DEFAULT'' ''vcpu_pin_set'' s1 =
      Some (Inr (view (world s1) (''DEFAULT'', ''vcpu_pin_set'')), s2)" "view (world s2) = view (world s1)"
    using get_conf_opt_view [OF ok, of "''DEFAULT''" "''vcpu_pin_set''" s1] by auto
  show "\<exists>s'. get_cpu_dedicated_set env self s =
      Some (option_cpus (case view (world s) (''compute'', ''cpu_dedicated_set'') of
          Some v \<Rightarrow> Some v | None \<Rightarrow> view (world s) (''DEFAULT'', ''vcpu_pin_set'')), s') \<and>
      view (world s') = view (world s)"
    unfolding get_cpu_dedicated_set_def using s1 s2
    by (cases "view (world s) (''compute'', ''cpu_dedicated_set'')")
      (simp_all add: run_bnd_Inr option_cpus_run)
qed

theorem cpu_sets_of_config_witness:
  "\<exists>s'. get_cpu_dedicated_set (ini_env []) (ini_manager NovaManager)
      (ini_state [(''compute'', ''cpu_dedicated_set'') \<mapsto> ''0-3,^2'',
        (''DEFAULT'', ''vcpu_pin_set'') \<mapsto> ''5'']) = Some (Inr {0, 1, 3}, s')"
proof -
  have "parse_cpu_spec ''0-3,^2'' = Inr {0, 1, 3}" by code_simp
  then show ?thesis
    using cpu_sets_of_config [OF ini_crudini_ok, of "[]" NovaManager
        "ini_state [(''compute'', ''cpu_dedicated_set'') \<mapsto> ''0-3,^2'', (''DEFAULT'', ''vcpu_pin_set'') \<mapsto> ''5'']"]
    by (auto simp: option_cpus_def ini_view_def ini_state_def strip_shell_word)
qed

end
