(* ===== verification/Host_Clients.thy ===== *)
theory Host_Clients
  imports Clients "HOL-Library.AList"
begin

text \<open>
  \<^verbatim>\<open>NUMAClient\<close> and \<^verbatim>\<open>SysFSClient\<close> of \<^verbatim>\<open>whitebox_tempest_plugin/services/clients.py\<close>: what the host
  says about its NUMA nodes, CPUs and huge pages (\<^verbatim>\<open>numactl\<close>, \<^verbatim>\<open>/proc\<close> and \<^verbatim>\<open>/sys\<close>), read out of the
  text of a command. A Python dictionary is an association list in the order of insertion.

  Two of the texts are reports in the sense of the contract \<open>line_report\<close>; reading them gives back
  what was printed. The reading of huge pages does so only if every node's text has both counts.
\<close>

section \<open>NUMAClient\<close>

text \<open>One line of \<^verbatim>\<open>numactl -H\<close>.\<close>

definition topology_line ::
  "(int \<times> int list) list \<Rightarrow> string \<Rightarrow> (int \<times> int list) list result" where
  "topology_line nodes line =
     (if py_in ''node'' line \<and> py_in ''cpus'' line
      then bind_res (py_nth (split_on CHR '':'' line) 1) (\<lambda>text.
           bind_res (map_res py_int_res (py_split text)) (\<lambda>cpus.
           bind_res (py_nth (py_split line) 1) (\<lambda>number.
           bind_res (py_int_res number) (\<lambda>node.
           Inr (AList.update node cpus nodes)))))
      else Inr nodes)"

definition get_host_topology ::
  "('w, 'm) sys_env_scheme \<Rightarrow> ssh_client \<Rightarrow> (('c, 'w) proc, (int \<times> int list) list) prog" where
  "get_host_topology env self =
     bnd (execute env self ''numactl -H'' None True) (\<lambda>numactl.
     of_result (fold_res topology_line [] (py_readlines numactl)))"

definition get_num_cpus ::
  "('w, 'm) sys_env_scheme \<Rightarrow> ssh_client \<Rightarrow> (('c, 'w) proc, nat) prog" where
  "get_num_cpus env self =
     bnd (get_host_topology env self) (\<lambda>nodes.
     ret (sum_list (map (\<lambda>(node, cpus). length cpus) nodes)))"

text \<open>The loop returns from the first line that starts with the word; without one it ends with \<^verbatim>\<open>None\<close>.\<close>

fun find_pagesize :: "string list \<Rightarrow> int option result" where
  "find_pagesize [] = Inr None"
| "find_pagesize (line # lines) =
     (if py_startswith ''Hugepagesize'' line
      then bind_res (py_nth (split_on CHR '':'' line) 1) (\<lambda>text.
           bind_res (py_nth (py_split text) 0) (\<lambda>number.
           bind_res (py_int_res number) (\<lambda>size. Inr (Some size))))
      else find_pagesize lines)"

definition get_pagesize ::
  "('w, 'm) sys_env_scheme \<Rightarrow> ssh_client \<Rightarrow> (('c, 'w) proc, int option) prog" where
  "get_pagesize env self =
     bnd (execute env self ''cat /proc/meminfo'' None False) (\<lambda>proc_meminfo.
     of_result (find_pagesize (py_readlines proc_meminfo)))"

text \<open>
  One line of a node's \<^verbatim>\<open>meminfo\<close>. The variables \<^verbatim>\<open>total\<close> and \<^verbatim>\<open>free\<close> are those of the method: they are
  unassigned at first and keep their values from one node to the next.
\<close>

definition hugepage_count :: "string \<Rightarrow> int result" where
  "hugepage_count line =
     bind_res (py_nth (split_on CHR '':'' line) 1) (\<lambda>text. py_int_res (py_lstrip text))"

definition meminfo_line ::
  "int option \<times> int option \<Rightarrow> string \<Rightarrow> (int option \<times> int option) result" where
  "meminfo_line = (\<lambda>(total, free) line.
     bind_res (if py_in ''HugePages_Total'' line
               then bind_res (hugepage_count line) (\<lambda>n. Inr (Some n)) else Inr total) (\<lambda>total.
     bind_res (if py_in ''HugePages_Free'' line
               then bind_res (hugepage_count line) (\<lambda>n. Inr (Some n)) else Inr free) (\<lambda>free.
     Inr (total, free))))"

fun hugepages_loop ::
  "('w, 'm) sys_env_scheme \<Rightarrow> ssh_client \<Rightarrow> int option \<times> int option \<Rightarrow> (int \<times> int \<times> int) list \<Rightarrow>
   int list \<Rightarrow> (('c, 'w) proc, (int \<times> int \<times> int) list) prog" where
  "hugepages_loop env self counts pages [] = ret pages"
| "hugepages_loop env self counts pages (node # nodes) =
     bnd (execute env self (''cat /sys/devices/system/node/node'' @ py_str node @ ''/meminfo'') None False)
       (\<lambda>meminfo.
     bnd (of_result (fold_res meminfo_line counts (py_readlines meminfo))) (\<lambda>counts.
     (case counts of
        (Some n_total, Some n_free) \<Rightarrow>
          hugepages_loop env self counts (AList.update node (n_total, n_free) pages) nodes
      | _ \<Rightarrow> raise UnboundLocalError)))"

definition get_hugepages ::
  "('w, 'm) sys_env_scheme \<Rightarrow> ssh_client \<Rightarrow> (('c, 'w) proc, (int \<times> int \<times> int) list) prog" where
  "get_hugepages env self =
     bnd (get_host_topology env self) (\<lambda>nodes.
     hugepages_loop env self (None, None) [] (map fst nodes))"

section \<open>SysFSClient\<close>

text \<open>\<^verbatim>\<open>'/sys/%s' % p\<close>\<close>

definition sys_path :: "string \<Rightarrow> string" where
  "sys_path p = ''/sys/'' @ p"

text \<open>
  The order in which a set of strings is joined is not specified; it is the parameter \<open>order\<close>.
  \<open>sysfs_line\<close> is one turn of the loop over the lines, on the dictionary of results.
\<close>

definition sysfs_line ::
  "string set \<Rightarrow> (string \<times> string) list \<Rightarrow> string \<Rightarrow> (string \<times> string) list result" where
  "sysfs_line paths results line = (case split_once CHR '':'' line of
       [path, value] \<Rightarrow>
         (if path \<in> fst ` set results \<or> path \<notin> paths
          then Inl (PlainException (''Extra or multi-line value found in '' @ path))
          else Inr (AList.update (drop 5 path) (py_strip value) results))
     | _ \<Rightarrow> Inl ValueError)"

definition get_sysfs_values ::
  "('w, 'm) sys_env_scheme \<Rightarrow> (string set \<Rightarrow> string list) \<Rightarrow> ssh_client \<Rightarrow> string list \<Rightarrow>
   (('c, 'w) proc, (string \<times> string) list) prog" where
  "get_sysfs_values env order self paths =
     (let paths = set (map sys_path paths)
      in bnd (execute env self (''grep -H \"\" '' @ py_join '' '' (order paths)) None False) (\<lambda>result.
         of_result (fold_res (sysfs_line paths) [] (split_on newline (py_strip result)))))"

definition get_sysfs_value ::
  "('w, 'm) sys_env_scheme \<Rightarrow> (string set \<Rightarrow> string list) \<Rightarrow> ssh_client \<Rightarrow> string \<Rightarrow>
   (('c, 'w) proc, string) prog" where
  "get_sysfs_value env order self path =
     bnd (get_sysfs_values env order self [path]) (\<lambda>results.
     of_result (case map_of results path of None \<Rightarrow> Inl (KeyError path) | Some v \<Rightarrow> Inr v))"

definition set_sysfs_value ::
  "('w, 'm) sys_env_scheme \<Rightarrow> ssh_client \<Rightarrow> string \<Rightarrow> string \<Rightarrow> (('c, 'w) proc, unit) prog" where
  "set_sysfs_value env self path value =
     seqp (execute env self (''echo \"'' @ value @ ''\" | sudo tee /sys/'' @ path) None False) (ret ())"

section \<open>What numactl and the kernel print\<close>

datatype numa_item = CpuLine int "int list" | OtherLine string

fun numa_text :: "numa_item \<Rightarrow> string" where
  "numa_text (CpuLine node cpus) =
     ''node '' @ py_str node @ '' cpus: '' @ py_join '' '' (map py_str cpus)"
| "numa_text (OtherLine l) = l"

fun numa_item_ok :: "numa_item \<Rightarrow> bool" where
  "numa_item_ok (CpuLine node cpus) = True"
| "numa_item_ok (OtherLine l) = (newline \<notin> set l \<and> \<not> (py_in ''node'' l \<and> py_in ''cpus'' l))"

fun tell_numa :: "numa_item \<Rightarrow> (int \<times> int list) list \<Rightarrow> (int \<times> int list) list" where
  "tell_numa (CpuLine node cpus) nodes = AList.update node cpus nodes"
| "tell_numa (OtherLine l) nodes = nodes"

fun numa_nodes :: "numa_item list \<Rightarrow> (int \<times> int list) list" where
  "numa_nodes [] = []"
| "numa_nodes (CpuLine node cpus # items) = (node, cpus) # numa_nodes items"
| "numa_nodes (OtherLine l # items) = numa_nodes items"

lemma newline_py_str: "newline \<notin> set (py_str i)" and colon_py_str: "CHR '':'' \<notin> set (py_str i)"
  using set_show_nat [of newline] set_show_nat [of "CHR '':''"] by (auto simp: py_str_def)

lemma set_py_join: "set (py_join sep ws) \<subseteq> set sep \<union> \<Union> (set ` set ws)"
  by (induction sep ws rule: py_join.induct) auto

lemma newline_join: "newline \<notin> set (py_join '' '' (map py_str cpus))"
  using set_py_join [of "'' ''" "map py_str cpus"] newline_py_str by fastforce

lemma colon_join: "CHR '':'' \<notin> set (py_join '' '' (map py_str cpus))"
  using set_py_join [of "'' ''" "map py_str cpus"] colon_py_str by fastforce

lemma map_res_py_str: "map_res py_int_res (map py_str cpus) = Inr cpus"
  by (induction cpus) (simp_all add: py_int_res_def)

lemma py_split_join_space:
  assumes "\<And>w. w \<in> set ws \<Longrightarrow> is_word w" and "py_isspace c"
  shows "py_split (py_join '' '' ws @ [c]) = ws"
  using assms(1)
proof (induction ws rule: induct_list012)
  case (2 w)
  with assms(2) show ?case using py_split_Cons [of w c "[]"] by simp
next
  case (3 w v ws)
  then show ?case using py_split_Cons [of w "CHR '' ''" "py_join '' '' (v # ws) @ [c]"] by simp
qed (use assms(2) in simp)

lemma node_line_words: "py_split (''node '' @ py_str node @ CHR '' '' # rest) = ''node'' # py_str node # py_split rest"
proof -
  have "is_word ''node''" by (simp add: is_word_def py_isspace_def)
  then have "py_split (''node'' @ CHR '' '' # py_str node @ CHR '' '' # rest) = ''node'' # py_split (py_str node @ CHR '' '' # rest)"
    by (intro py_split_Cons) simp_all
  also have "py_split (py_str node @ CHR '' '' # rest) = py_str node # py_split rest"
    by (intro py_split_Cons is_word_py_str) simp
  finally show ?thesis by simp
qed

lemma topology_line_cpus:
  "topology_line nodes (numa_text (CpuLine node cpus) @ [newline]) = Inr (AList.update node cpus nodes)"
proof -
  let ?J = "py_join '' '' (map py_str cpus)"
  let ?line = "numa_text (CpuLine node cpus) @ [newline]"
  have line: "?line = (''node '' @ py_str node @ '' cpus'') @ CHR '':'' # CHR '' '' # ?J @ [newline]"
    by simp
  have "py_in ''node'' ?line"
    using py_in_append [of "''node''" "[]" "'' '' @ py_str node @ '' cpus: '' @ ?J @ [newline]"] by simp
  moreover have "py_in ''cpus'' ?line"
    using py_in_append [of "''cpus''" "''node '' @ py_str node @ '' ''" "'': '' @ ?J @ [newline]"] by simp
  moreover have "split_on CHR '':'' ?line = [''node '' @ py_str node @ '' cpus'', CHR '' '' # ?J @ [newline]]"
    unfolding line using colon_py_str [of node] colon_join [of cpus]
    by (subst split_on_append) (simp_all add: split_on_absent)
  moreover have "py_split (CHR '' '' # ?J @ [newline]) = map py_str cpus"
  proof -
    have "py_split (?J @ [newline]) = map py_str cpus"
      by (rule py_split_join_space) (auto simp: is_word_py_str)
    then show ?thesis using split_words_spaces [of "'' ''" "?J @ [newline]"] by simp
  qed
  moreover have "py_split ?line = ''node'' # py_str node # py_split (''cpus: '' @ ?J @ [newline])"
    using node_line_words [of node "''cpus: '' @ ?J @ [newline]"] by simp
  ultimately show ?thesis
    unfolding topology_line_def by (simp only: py_nth_def) (simp add: map_res_py_str py_int_res_def)
qed

interpretation numa_report: line_report numa_item_ok numa_text topology_line tell_numa
proof
  fix i :: numa_item
  assume "numa_item_ok i"
  then show "newline \<notin> set (numa_text i)"
    using newline_py_str newline_join by (cases i) auto
next
  fix i :: numa_item and nodes
  assume ok: "numa_item_ok i"
  show "topology_line nodes (numa_text i @ [newline]) = Inr (tell_numa i nodes)"
  proof (cases i)
    case (CpuLine node cpus)
    then show ?thesis by (simp only: topology_line_cpus tell_numa.simps)
  next
    case (OtherLine l)
    with ok show ?thesis by (auto simp: topology_line_def py_in_snoc)
  qed
qed

lemma update_fresh: "k \<notin> fst ` set al \<Longrightarrow> AList.update k v al = al @ [(k, v)]"
  by (induction al) auto

lemma tell_numa_nodes:
  assumes "distinct (map fst nodes @ map fst (numa_nodes items))"
  shows "fold tell_numa items nodes = nodes @ numa_nodes items"
  using assms
proof (induction items arbitrary: nodes)
  case (Cons i items)
  show ?case
  proof (cases i)
    case (CpuLine node cpus)
    with Cons.prems have "fold tell_numa items (nodes @ [(node, cpus)]) = (nodes @ [(node, cpus)]) @ numa_nodes items"
      by (intro Cons.IH) auto
    with CpuLine Cons.prems show ?thesis by (simp add: update_fresh)
  next
    case (OtherLine l)
    with Cons show ?thesis by simp
  qed
qed simp

text \<open>
  A node's \<^verbatim>\<open>meminfo\<close>: lines with the two counts, and others. A count is padded with blanks on the left;
  the kernel prints it right-justified, in at least five columns.
\<close>

datatype mem_item = TotalLine string nat int | FreeLine string nat int | OtherMem string

fun mem_text :: "mem_item \<Rightarrow> string" where
  "mem_text (TotalLine pre pad n) = pre @ ''HugePages_Total:'' @ replicate pad CHR '' '' @ py_str n"
| "mem_text (FreeLine pre pad n) = pre @ ''HugePages_Free:'' @ replicate pad CHR '' '' @ py_str n"
| "mem_text (OtherMem l) = l"

text \<open>The words before the name of a count, such as \<^verbatim>\<open>Node 0\<close>, are letters, digits and spaces.\<close>

definition plain_prefix :: "string \<Rightarrow> bool" where
  "plain_prefix pre = list_all (\<lambda>c. c \<noteq> CHR ''H'' \<and> c \<noteq> CHR '':'' \<and> c \<noteq> newline) pre"

fun mem_item_ok :: "mem_item \<Rightarrow> bool" where
  "mem_item_ok (TotalLine pre pad n) = plain_prefix pre"
| "mem_item_ok (FreeLine pre pad n) = plain_prefix pre"
| "mem_item_ok (OtherMem l) =
     (newline \<notin> set l \<and> \<not> py_in ''HugePages_Total'' l \<and> \<not> py_in ''HugePages_Free'' l)"

fun tell_mem :: "mem_item \<Rightarrow> int option \<times> int option \<Rightarrow> int option \<times> int option" where
  "tell_mem (TotalLine pre pad n) (t, f) = (Some n, f)"
| "tell_mem (FreeLine pre pad n) (t, f) = (t, Some n)"
| "tell_mem (OtherMem l) (t, f) = (t, f)"

lemma hugepage_count_line:
  assumes "CHR '':'' \<notin> set pre"
  shows "hugepage_count (pre @ '':'' @ replicate pad CHR '' '' @ py_str n @ [newline]) = Inr n"
proof -
  have "split_on CHR '':'' (pre @ CHR '':'' # replicate pad CHR '' '' @ py_str n @ [newline]) =
      [pre, replicate pad CHR '' '' @ py_str n @ [newline]]"
    using assms colon_py_str [of n] by (subst split_on_append) (auto simp: split_on_absent)
  moreover have "py_lstrip (replicate pad CHR '' '' @ py_str n @ [newline]) = py_str n @ [newline]"
  proof -
    obtain c cs where "py_str n = c # cs" "\<not> py_isspace c"
      using is_word_py_str [of n] by (cases "py_str n") (auto simp: is_word_def)
    then show ?thesis by (induction pad) (simp_all add: py_lstrip_def py_isspace_def)
  qed
  moreover have "py_int (py_str n @ [newline]) = Some n"
    by (subst py_int_word) (auto simp: is_word_py_str int_isspace_def)
  ultimately show ?thesis
    by (simp add: hugepage_count_def py_nth_def py_int_res_def)
qed

text \<open>A word with a letter that occurs once in the line is found only where that letter is.\<close>

lemma py_in_at:
  assumes "py_in (c # w) (pre @ c # rest)" and "c \<notin> set pre" and "c \<notin> set rest"
  shows "prefix w rest"
proof -
  obtain a b where ab: "pre @ c # rest = a @ (c # w) @ b"
    using assms(1) by (auto simp: py_in_def sublist_def)
  moreover from assms(2,3) ab have "pre = a"
    by (metis append_Cons append_Cons_eq_iff)
  ultimately show ?thesis by (simp add: prefix_def)
qed

lemma H_py_str: "CHR ''H'' \<notin> set (py_str n)"
  using set_show_nat [of "CHR ''H''"] by (auto simp: py_str_def is_digit_def)

lemma mem_line_law:
  assumes "mem_item_ok i"
  shows "meminfo_line a (mem_text i @ [newline]) = Inr (tell_mem i a)"
proof (cases i)
  case (TotalLine pre pad n)
  let ?rest = "''ugePages_Total:'' @ replicate pad CHR '' '' @ py_str n @ [newline]"
  have pre: "CHR ''H'' \<notin> set pre" "CHR '':'' \<notin> set pre"
    using assms TotalLine by (auto simp: plain_prefix_def list_all_iff)
  have line: "mem_text i @ [newline] = pre @ CHR ''H'' # ?rest" by (simp add: TotalLine)
  have "py_in ''HugePages_Total'' (pre @ CHR ''H'' # ?rest)"
    using py_in_append [of "''HugePages_Total''" pre "'':'' @ replicate pad CHR '' '' @ py_str n @ [newline]"] by simp
  moreover have "\<not> py_in ''HugePages_Free'' (pre @ CHR ''H'' # ?rest)"
    using py_in_at [of "CHR ''H''" "''ugePages_Free''" pre ?rest] pre H_py_str [of n] by auto
  moreover have "hugepage_count (pre @ CHR ''H'' # ?rest) = Inr n"
    using hugepage_count_line [of "pre @ ''HugePages_Total''" pad n] pre by simp
  ultimately show ?thesis
    unfolding line by (cases a) (simp add: meminfo_line_def TotalLine)
next
  case (FreeLine pre pad n)
  let ?rest = "''ugePages_Free:'' @ replicate pad CHR '' '' @ py_str n @ [newline]"
  have pre: "CHR ''H'' \<notin> set pre" "CHR '':'' \<notin> set pre"
    using assms FreeLine by (auto simp: plain_prefix_def list_all_iff)
  have line: "mem_text i @ [newline] = pre @ CHR ''H'' # ?rest" by (simp add: FreeLine)
  have "py_in ''HugePages_Free'' (pre @ CHR ''H'' # ?rest)"
    using py_in_append [of "''HugePages_Free''" pre "'':'' @ replicate pad CHR '' '' @ py_str n @ [newline]"] by simp
  moreover have "\<not> py_in ''HugePages_Total'' (pre @ CHR ''H'' # ?rest)"
    using py_in_at [of "CHR ''H''" "''ugePages_Total''" pre ?rest] pre H_py_str [of n] by auto
  moreover have "hugepage_count (pre @ CHR ''H'' # ?rest) = Inr n"
    using hugepage_count_line [of "pre @ ''HugePages_Free''" pad n] pre by simp
  ultimately show ?thesis
    unfolding line by (cases a) (simp add: meminfo_line_def FreeLine)
next
  case (OtherMem l)
  with assms show ?thesis by (cases a) (simp add: meminfo_line_def py_in_snoc)
qed

interpretation mem_report: line_report mem_item_ok mem_text meminfo_line tell_mem
proof
  fix i :: mem_item
  assume "mem_item_ok i"
  then show "newline \<notin> set (mem_text i)"
    using newline_py_str by (cases i) (auto simp: plain_prefix_def list_all_iff)
qed (rule mem_line_law)

definition numactl_output :: "numa_item list \<Rightarrow> string" where
  "numactl_output items = concat (map (\<lambda>i. numa_text i @ [newline]) items)"

definition meminfo_output :: "mem_item list \<Rightarrow> string" where
  "meminfo_output items = concat (map (\<lambda>i. mem_text i @ [newline]) items)"

lemma read_numactl:
  assumes "list_all numa_item_ok items" and "distinct (map fst (numa_nodes items))"
  shows "fold_res topology_line [] (py_readlines (numactl_output items)) = Inr (numa_nodes items)"
  using numa_report.read_report [OF assms(1), of "[]"] tell_numa_nodes [of "[]" items] assms(2)
  by (simp add: numactl_output_def)

lemma tell_mem_both:
  "fold tell_mem items (t, f) = (case fold tell_mem items (None, None) of
     (t', f') \<Rightarrow> (case t' of None \<Rightarrow> t | Some n \<Rightarrow> Some n, case f' of None \<Rightarrow> f | Some n \<Rightarrow> Some n))"
proof (induction items rule: rev_induct)
  case (snoc i items)
  then show ?case by (cases i; cases "fold tell_mem items (None, None)") simp_all
qed simp

text \<open>
  Reading a node's text gives the last counts in it; a count that is not in the text stays what it
  was before.
\<close>

lemma read_meminfo:
  assumes "list_all mem_item_ok items"
  shows "fold_res meminfo_line (t, f) (py_readlines (meminfo_output items)) =
    Inr (case fold tell_mem items (None, None) of
      (t', f') \<Rightarrow> (case t' of None \<Rightarrow> t | Some n \<Rightarrow> Some n, case f' of None \<Rightarrow> f | Some n \<Rightarrow> Some n))"
  using mem_report.read_report [OF assms, of "(t, f)"] tell_mem_both [of items t f]
  by (simp add: meminfo_output_def)

lemma hugepages_loop_reads:
  assumes ok: "\<And>n. n \<in> set nodes \<Longrightarrow> list_all mem_item_ok (mem n) \<and>
      fold tell_mem (mem n) (None, None) = (Some (fst (counts n)), Some (snd (counts n)))"
    and run: "\<And>n. n \<in> set nodes \<Longrightarrow> ssh_exec env (ctlplane_address self) (ssh_user self) (ssh_key self)
      (''cat /sys/devices/system/node/node'' @ py_str n @ ''/meminfo'') (world s) =
      (Inr (meminfo_output (mem n)), world s)"
    and dist: "distinct (map fst pages @ nodes)"
  shows "hugepages_loop env self tf pages nodes s =
    Some (Inr (pages @ map (\<lambda>n. (n, counts n)) nodes), s)"
  using assms
proof (induction nodes arbitrary: tf pages)
  case (Cons n nodes)
  obtain t f where tf: "tf = (t, f)" by (cases tf)
  have exec: "execute env self (''cat /sys/devices/system/node/node'' @ py_str n @ ''/meminfo'') None False s =
      Some (Inr (meminfo_output (mem n)), s)"
    using Cons.prems(2) [of n] by (simp add: execute_def full_command_def truthy_def external_def)
  have "list_all mem_item_ok (mem n)"
      and "fold tell_mem (mem n) (None, None) = (Some (fst (counts n)), Some (snd (counts n)))"
    using Cons.prems(1) [of n] by simp_all
  then have read: "fold_res meminfo_line tf (py_readlines (meminfo_output (mem n))) =
      Inr (Some (fst (counts n)), Some (snd (counts n)))"
    unfolding tf by (subst read_meminfo) simp_all
  have "hugepages_loop env self tf pages (n # nodes) s =
      hugepages_loop env self (Some (fst (counts n)), Some (snd (counts n)))
        (AList.update n (counts n) pages) nodes s"
    using exec by (simp add: read bnd_def of_result_def)
  also have "AList.update n (counts n) pages = pages @ [(n, counts n)]"
    using Cons.prems(3) by (intro update_fresh) auto
  also have "hugepages_loop env self (Some (fst (counts n)), Some (snd (counts n)))
      (pages @ [(n, counts n)]) nodes s =
      Some (Inr ((pages @ [(n, counts n)]) @ map (\<lambda>n. (n, counts n)) nodes), s)"
    using Cons.prems by (intro Cons.IH) auto
  finally show ?case by simp
qed (simp add: prog_simps)

text \<open>What \<^verbatim>\<open>grep -H ""\<close> prints of files with one line each.\<close>

definition grep_output :: "(string \<Rightarrow> string) \<Rightarrow> string list \<Rightarrow> string" where
  "grep_output file paths = concat (map (\<lambda>p. (p @ CHR '':'' # file p) @ [newline]) paths)"

definition sysfs_path_ok :: "string \<Rightarrow> bool" where
  "sysfs_path_ok p \<longleftrightarrow> CHR '':'' \<notin> set p \<and> newline \<notin> set p \<and> \<not> prefix ''/sys/'' p"

lemma colon_not_space: "\<not> py_isspace CHR '':''" and slash_not_space: "\<not> py_isspace CHR ''/''"
  by (simp_all add: py_isspace_def)

lemma sys_path_simps [simp]:
  "drop 5 (sys_path p) = p" "prefix ''/sys/'' (sys_path p)" "sys_path p = sys_path q \<longleftrightarrow> p = q"
  "set (sys_path p) = set ''/sys/'' \<union> set p"
  by (auto simp: sys_path_def)

lemma inj_sys_path: "inj sys_path"
  by (rule injI) simp

text \<open>Stripping the output and splitting it takes the white space off the last value only.\<close>

lemma grep_lines:
  assumes "\<And>p. p \<in> set (ps @ [q]) \<Longrightarrow> newline \<notin> set p \<and> newline \<notin> set (file p) \<and> prefix ''/sys/'' p"
  shows "split_on newline (py_strip (grep_output file (ps @ [q]))) =
    map (\<lambda>p. p @ CHR '':'' # file p) ps @ [q @ CHR '':'' # py_rstrip (file q)]"
proof -
  let ?ls = "map (\<lambda>p. p @ CHR '':'' # file p) ps"
  let ?u = "concat (map (\<lambda>l. l @ [newline]) ?ls) @ q"
  have out: "grep_output file (ps @ [q]) = ?u @ CHR '':'' # file q @ [newline]"
    by (simp add: grep_output_def comp_def)
  have "prefix ''/sys/'' (hd (ps @ [q]))"
    using assms by (cases ps) auto
  then obtain u where u: "?u = CHR ''/'' # u"
    by (cases ps) (auto simp: prefix_def)
  have "py_rstrip (file q @ [newline]) = py_rstrip (file q)"
    by (simp add: py_rstrip_def)
  then have strip: "py_strip (grep_output file (ps @ [q])) = ?u @ CHR '':'' # py_rstrip (file q)"
    unfolding out u append_Cons
    by (subst strip_visible) (simp_all add: colon_not_space slash_not_space)
  have "split_on newline (concat (map (\<lambda>l. l @ [newline]) ?ls) @ (q @ CHR '':'' # py_rstrip (file q))) =
      ?ls @ [q @ CHR '':'' # py_rstrip (file q)]"
  proof (rule split_on_lines)
    have "set (py_rstrip (file q)) \<subseteq> set (file q)"
      by (auto simp: py_rstrip_def dest: set_dropWhileD)
    with assms [of q] show "newline \<notin> set (q @ CHR '':'' # py_rstrip (file q))" by auto
    show "newline \<notin> set l" if "l \<in> set ?ls" for l
      using that assms by auto
  qed
  then show ?thesis unfolding strip by simp
qed

lemma sysfs_lines:
  assumes "\<And>q v. (q, v) \<in> set qs \<Longrightarrow> CHR '':'' \<notin> set q \<and> sys_path q \<in> S \<and> \<not> prefix ''/sys/'' q"
    and "\<And>k. k \<in> fst ` set results \<Longrightarrow> \<not> prefix ''/sys/'' k"
    and "distinct (map fst results @ map fst qs)"
  shows "fold_res (sysfs_line S) results (map (\<lambda>(q, v). sys_path q @ CHR '':'' # v) qs) =
    Inr (results @ map (\<lambda>(q, v). (q, py_strip v)) qs)"
  using assms
proof (induction qs arbitrary: results)
  case (Cons qv qs)
  obtain q v where qv: "qv = (q, v)" by (cases qv)
  have "split_once CHR '':'' (sys_path q @ CHR '':'' # v) = [sys_path q, v]"
    using Cons.prems(1) [of q v] by (intro split_once_present) (auto simp: qv)
  moreover have "sys_path q \<notin> fst ` set results"
    using Cons.prems(2) [of "sys_path q"] sys_path_simps(2) [of q] by blast
  moreover have "sys_path q \<in> S"
    using Cons.prems(1) [of q v] by (auto simp: qv)
  moreover have "AList.update q (py_strip v) results = results @ [(q, py_strip v)]"
    using Cons.prems(3) by (intro update_fresh) (auto simp: qv)
  ultimately have "sysfs_line S results (sys_path q @ CHR '':'' # v) = Inr (results @ [(q, py_strip v)])"
    by (simp add: sysfs_line_def)
  moreover have "fold_res (sysfs_line S) (results @ [(q, py_strip v)]) (map (\<lambda>(q, v). sys_path q @ CHR '':'' # v) qs) =
      Inr ((results @ [(q, py_strip v)]) @ map (\<lambda>(q, v). (q, py_strip v)) qs)"
  proof (rule Cons.IH)
    show "\<not> prefix ''/sys/'' k" if "k \<in> fst ` set (results @ [(q, py_strip v)])" for k
      using that Cons.prems(1) [of q v] Cons.prems(2) by (auto simp: qv)
  qed (use Cons.prems in \<open>auto simp: qv\<close>)
  ultimately show ?case by (simp add: qv)
qed simp

lemma read_grep:
  assumes "rs \<noteq> []" and dist: "distinct rs" and ok: "list_all sysfs_path_ok rs"
    and vals: "list_all (\<lambda>r. newline \<notin> set (file (sys_path r))) rs"
  shows "fold_res (sysfs_line (set (map sys_path rs))) []
      (split_on newline (py_strip (grep_output file (map sys_path rs)))) =
    Inr (map (\<lambda>r. (r, py_strip (file (sys_path r)))) rs)"
proof -
  obtain rs0 r where rs: "rs = rs0 @ [r]"
    using assms(1) by (cases rs rule: rev_cases) auto
  let ?qs = "map (\<lambda>r. (r, file (sys_path r))) rs0 @ [(r, py_rstrip (file (sys_path r)))]"
  have lines: "split_on newline (py_strip (grep_output file (map sys_path rs))) =
      map (\<lambda>(q, v). sys_path q @ CHR '':'' # v) ?qs"
  proof -
    have "newline \<notin> set p \<and> newline \<notin> set (file p) \<and> prefix ''/sys/'' p"
      if "p \<in> set (map sys_path rs0 @ [sys_path r])" for p
      using that ok vals by (auto simp: rs list_all_iff sysfs_path_ok_def)
    from grep_lines [of "map sys_path rs0" "sys_path r" "file", OF this]
    show ?thesis by (simp add: rs)
  qed
  have "fold_res (sysfs_line (set (map sys_path rs))) []
      (map (\<lambda>(q, v). sys_path q @ CHR '':'' # v) ?qs) = Inr ([] @ map (\<lambda>(q, v). (q, py_strip v)) ?qs)"
  proof (rule sysfs_lines)
    show "CHR '':'' \<notin> set q \<and> sys_path q \<in> set (map sys_path rs) \<and> \<not> prefix ''/sys/'' q"
      if "(q, v) \<in> set ?qs" for q v
      using that ok by (auto simp: rs list_all_iff sysfs_path_ok_def)
    have "map fst ?qs = rs" by (simp add: rs comp_def)
    with dist show "distinct (map fst [] @ map fst ?qs)" by (simp del: map_append)
  qed simp
  then show ?thesis unfolding lines by (simp add: rs strip_rstrip)
qed

section \<open>Properties\<close>

text \<open>C20. What \<^verbatim>\<open>numactl -H\<close> prints about the CPUs of the nodes is read back exactly, whatever other lines
  it prints: the topology is the printed one in the printed order, and the number of CPUs is the sum
  over the nodes.\<close>

theorem numa_topology_roundtrip:
  assumes items: "list_all numa_item_ok items" "distinct (map fst (numa_nodes items))"
    and run: "ssh_exec env (ctlplane_address self) (ssh_user self) (ssh_key self) ''sudo numactl -H''
      (world s) = (Inr (numactl_output items), w)"
  shows "get_host_topology env self s = Some (Inr (numa_nodes items), s\<lparr>world := w\<rparr>) \<and>
    get_num_cpus env self s =
      Some (Inr (\<Sum>(node, cpus) \<leftarrow> numa_nodes items. length cpus), s\<lparr>world := w\<rparr>)"
proof -
  have "execute env self ''numactl -H'' None True s = Some (Inr (numactl_output items), s\<lparr>world := w\<rparr>)"
    using run by (simp add: execute_def full_command_def truthy_def external_def)
  then have "get_host_topology env self s = Some (Inr (numa_nodes items), s\<lparr>world := w\<rparr>)"
    by (simp add: get_host_topology_def run_bnd_Inr read_numactl [OF items] prog_simps)
  then show ?thesis by (simp add: get_num_cpus_def run_bnd_Inr prog_simps)
qed

text \<open>A host that answers the commands of the client.\<close>

definition numa_host :: "string \<Rightarrow> (string \<times> string) list \<Rightarrow> unit sys_env" where
  "numa_host numactl files = \<lparr>cfg = default_conf 300 1 [] [],
     read_nodes_yaml = (\<lambda>p w. (Inr [], w)),
     ssh_exec = (\<lambda>a u k c w. (if c = ''sudo numactl -H'' then Inr numactl
        else (case map_of files c of Some text \<Rightarrow> Inr text | None \<Rightarrow> Inl (SSHExecCommandFailed c)), w)),
     clock = (\<lambda>w. 0), sleep = (\<lambda>n w. w)\<rparr>"

definition numa_client :: ssh_client where
  "numa_client = \<lparr>ssh_key = [], ssh_user = [], host_parameters = None, ctlplane_address = []\<rparr>"

definition idle :: "(unit, unit) proc" where
  "idle = \<lparr>nodes_cache = None, cleanups = [], world = ()\<rparr>"

definition two_nodes :: "numa_item list" where
  "two_nodes = [OtherLine ''available: 2 nodes (0-1)'', CpuLine 0 [0, 1], OtherLine ''node 0 size: 7975 MB'',
     CpuLine 1 [2, 3, 4]]"

lemma two_nodes_ok:
  "list_all numa_item_ok two_nodes" "numa_nodes two_nodes = [(0, [0, 1]), (1, [2, 3, 4])]"
  by (simp_all add: two_nodes_def py_in_def sublist_code)

theorem numa_topology_roundtrip_witness:
  "get_num_cpus (numa_host (numactl_output two_nodes) []) numa_client idle = Some (Inr 5, idle)"
  using numa_topology_roundtrip [of two_nodes "numa_host (numactl_output two_nodes) []" numa_client idle "()"]
    two_nodes_ok
  by (simp add: numa_host_def idle_def)

text \<open>C21. If the text of every node has the total and the number of free huge pages, each after any number of
  blanks as the kernel pads them, the huge pages of the host are read correctly: one entry per node, in
  the order of the topology, with the node's own counts.\<close>

theorem hugepages_per_node:
  assumes items: "list_all numa_item_ok items" "distinct (map fst (numa_nodes items))"
    and numactl: "ssh_exec env (ctlplane_address self) (ssh_user self) (ssh_key self) ''sudo numactl -H''
      (world s) = (Inr (numactl_output items), world s)"
    and mem: "\<And>n. n \<in> fst ` set (numa_nodes items) \<Longrightarrow> list_all mem_item_ok (mem n) \<and>
      fold tell_mem (mem n) (None, None) = (Some (fst (counts n)), Some (snd (counts n)))"
    and cat: "\<And>n. n \<in> fst ` set (numa_nodes items) \<Longrightarrow>
      ssh_exec env (ctlplane_address self) (ssh_user self) (ssh_key self)
        (''cat /sys/devices/system/node/node'' @ py_str n @ ''/meminfo'') (world s) =
      (Inr (meminfo_output (mem n)), world s)"
  shows "get_hugepages env self s = Some (Inr (map (\<lambda>(n, cpus). (n, counts n)) (numa_nodes items)), s)"
proof -
  have "execute env self ''numactl -H'' None True s = Some (Inr (numactl_output items), s)"
    using numactl by (simp add: execute_def full_command_def truthy_def external_def)
  then have "get_host_topology env self s = Some (Inr (numa_nodes items), s)"
    by (simp add: get_host_topology_def run_bnd_Inr read_numactl [OF items] prog_simps)
  moreover have "hugepages_loop env self (None, None) [] (map fst (numa_nodes items)) s =
      Some (Inr ([] @ map (\<lambda>n. (n, counts n)) (map fst (numa_nodes items))), s)"
    using items(2) mem cat by (intro hugepages_loop_reads [where mem = mem]) auto
  ultimately show ?thesis
    by (simp add: get_hugepages_def run_bnd_Inr split_def comp_def)
qed

definition node_file :: "int \<Rightarrow> mem_item list \<Rightarrow> string \<times> string" where
  "node_file n items = (''cat /sys/devices/system/node/node'' @ py_str n @ ''/meminfo'', meminfo_output items)"

theorem hugepages_per_node_witness:
  "get_hugepages (numa_host (numactl_output two_nodes)
       [node_file 0 [TotalLine ''Node 0 '' 5 8, FreeLine ''Node 0 '' 6 3],
        node_file 1 [TotalLine ''Node 1 '' 5 4, FreeLine ''Node 1 '' 6 4]]) numa_client idle =
     Some (Inr [(0, 8, 3), (1, 4, 4)], idle)"
proof -
  let ?mem = "\<lambda>n :: int. if n = 0 then [TotalLine ''Node 0 '' 5 8, FreeLine ''Node 0 '' 6 3]
    else [TotalLine ''Node 1 '' 5 4, FreeLine ''Node 1 '' 6 4]"
  let ?counts = "\<lambda>n :: int. if n = 0 then (8, 3) else (4, 4 :: int)"
  have str: "py_str 0 = ''0''" "py_str 1 = ''1''" by code_simp+
  have "get_hugepages (numa_host (numactl_output two_nodes) [node_file 0 (?mem 0), node_file 1 (?mem 1)])
      numa_client idle = Some (Inr (map (\<lambda>(n, cpus). (n, ?counts n)) (numa_nodes two_nodes)), idle)"
    by (rule hugepages_per_node [where mem = ?mem])
      (auto simp: two_nodes_ok numa_host_def idle_def node_file_def str plain_prefix_def)
  then show ?thesis by (simp add: two_nodes_ok)
qed

text \<open>A node whose text has no counts is given those of the node before it: the variables keep their
  values between nodes. A host whose first node has none raises.\<close>

theorem hugepages_stale_counts:
  "get_hugepages (numa_host (numactl_output two_nodes)
       [node_file 0 [TotalLine ''Node 0 '' 5 8, FreeLine ''Node 0 '' 6 3], node_file 1 []]) numa_client idle =
     Some (Inr [(0, 8, 3), (1, 8, 3)], idle) \<and>
   get_hugepages (numa_host (numactl_output two_nodes) [node_file 0 [], node_file 1 []]) numa_client idle =
     Some (Inl UnboundLocalError, idle)"
proof -
  have str: "py_str 0 = ''0''" "py_str 1 = ''1''" by code_simp+
  have "fold_res meminfo_line (None, None)
      (py_readlines (meminfo_output [TotalLine ''Node 0 '' 5 8, FreeLine ''Node 0 '' 6 3])) =
      Inr (Some 8, Some 3)"
    by (subst read_meminfo) (simp_all add: plain_prefix_def)
  moreover have "fold_res meminfo_line (t, f) (py_readlines (meminfo_output [])) = Inr (t, f)" for t f
    by (simp add: meminfo_output_def)
  moreover have "fold_res topology_line [] (py_readlines (numactl_output two_nodes)) = Inr (numa_nodes two_nodes)"
    using two_nodes_ok by (intro read_numactl) simp_all
  ultimately show ?thesis
    by (simp add: get_hugepages_def get_host_topology_def execute_def full_command_def truthy_def
        external_def numa_host_def idle_def node_file_def str bnd_def of_result_def ret_def raise_def
        two_nodes_ok)
qed

text \<open>Files with one line each are read correctly: the result has exactly the given paths, each with
  its value without surrounding white space, in whatever order the paths are put into the command.
  The paths have no colon and are relative to \<^verbatim>\<open>/sys\<close>.\<close>

theorem sysfs_values_read:
  assumes order: "set (order (set (map sys_path paths))) = set (map sys_path paths)"
      "distinct (order (set (map sys_path paths)))"
    and paths: "paths \<noteq> []" "list_all sysfs_path_ok paths"
    and vals: "list_all (\<lambda>p. newline \<notin> set (file (sys_path p))) paths"
    and grep: "ssh_exec env (ctlplane_address self) (ssh_user self) (ssh_key self)
      (''grep -H \"\" '' @ py_join '' '' (order (set (map sys_path paths)))) (world s) =
      (Inr (grep_output file (order (set (map sys_path paths)))), w)"
  shows "\<exists>d. get_sysfs_values env order self paths s = Some (Inr d, s\<lparr>world := w\<rparr>) \<and>
    map_of d = (\<lambda>p. if p \<in> set paths then Some (py_strip (file (sys_path p))) else None)"
proof -
  let ?S = "set (map sys_path paths)"
  define rs where "rs = map (drop 5) (order ?S)"
  have "map sys_path rs = order ?S"
    unfolding rs_def map_map using order(1) by (intro map_idI) auto
  then have rs: "order ?S = map sys_path rs" by (rule sym)
  have "sys_path ` set rs = sys_path ` set paths"
    using order(1) unfolding rs by simp
  then have set: "set rs = set paths" by (simp add: inj_image_eq_iff [OF inj_sys_path])
  have S: "set (map sys_path rs) = ?S" by (simp add: set)
  have "distinct rs" using order(2) unfolding rs by (simp add: distinct_map)
  moreover have "rs \<noteq> []" using set paths(1) by auto
  ultimately have "fold_res (sysfs_line ?S) [] (split_on newline (py_strip (grep_output file (order ?S)))) =
      Inr (map (\<lambda>r. (r, py_strip (file (sys_path r)))) rs)"
    using read_grep [of rs "file"] paths(2) vals unfolding S rs by (simp add: list_all_iff set)
  moreover have "execute env self (''grep -H \"\" '' @ py_join '' '' (order ?S)) None False s =
      Some (Inr (grep_output file (order ?S)), s\<lparr>world := w\<rparr>)"
    using grep by (simp add: execute_def full_command_def truthy_def external_def)
  ultimately have "get_sysfs_values env order self paths s =
      Some (Inr (map (\<lambda>r. (r, py_strip (file (sys_path r)))) rs), s\<lparr>world := w\<rparr>)"
    unfolding get_sysfs_values_def Let_def bnd_def of_result_def
    by (simp only: option.case prod.case sum.case)
  moreover have "map_of (map (\<lambda>r. (r, py_strip (file (sys_path r)))) rs) =
      (\<lambda>p. if p \<in> set paths then Some (py_strip (file (sys_path p))) else None)"
    by (simp add: map_of_map_restrict restrict_map_def fun_eq_iff set)
  ultimately show ?thesis by blast
qed

definition sysfs_host :: "string \<Rightarrow> unit sys_env" where
  "sysfs_host answer = \<lparr>cfg = default_conf 300 1 [] [],
     read_nodes_yaml = (\<lambda>p w. (Inr [], w)),
     ssh_exec = (\<lambda>a u k c w. (Inr answer, w)),
     clock = (\<lambda>w. 0), sleep = (\<lambda>n w. w)\<rparr>"

theorem sysfs_values_read_witness:
  "\<exists>d. get_sysfs_values (sysfs_host (grep_output (\<lambda>p. '' 1 '') [''/sys/b'', ''/sys/a'']))
      (\<lambda>S. [''/sys/b'', ''/sys/a'']) numa_client [''a'', ''b'', ''a''] idle = Some (Inr d, idle) \<and>
    map_of d ''b'' = Some ''1'' \<and> map_of d ''c'' = None"
proof -
  let ?order = "\<lambda>S :: string set. [''/sys/b'', ''/sys/a'']"
  obtain d where "get_sysfs_values (sysfs_host (grep_output (\<lambda>p. '' 1 '') [''/sys/b'', ''/sys/a'']))
      ?order numa_client [''a'', ''b'', ''a''] idle = Some (Inr d, idle\<lparr>world := ()\<rparr>)"
    and "map_of d = (\<lambda>p. if p \<in> set [''a'', ''b'', ''a''] then Some (py_strip '' 1 '') else None)"
    using sysfs_values_read [of ?order "[''a'', ''b'', ''a'']" "\<lambda>p. '' 1 ''"
        "sysfs_host (grep_output (\<lambda>p. '' 1 '') [''/sys/b'', ''/sys/a''])" numa_client idle "()"]
    by (auto simp: sys_path_def sysfs_path_ok_def sysfs_host_def)
  moreover have "py_strip '' 1 '' = ''1''" by code_simp
  ultimately show ?thesis by (simp add: idle_def)
qed

text \<open>The check for files with several lines never fires: the keys of the results have lost the
  \<^verbatim>\<open>/sys/\<close> that the paths still have. Instead of an error the caller gets the last line.\<close>

theorem sysfs_multi_line_value:
  "get_sysfs_value (sysfs_host (''/sys/a:first'' @ [newline] @ ''/sys/a:second'' @ [newline]))
     (\<lambda>S. [''/sys/a'']) numa_client ''a'' idle = Some (Inr ''second'', idle)"
proof -
  have "fold_res (sysfs_line (set (map sys_path [''a'']))) []
      (split_on newline (py_strip (''/sys/a:first'' @ [newline] @ ''/sys/a:second'' @ [newline]))) =
      Inr [(''a'', ''second'')]"
    by code_simp
  then show ?thesis
    by (simp add: get_sysfs_value_def get_sysfs_values_def Let_def execute_def full_command_def
        truthy_def external_def sysfs_host_def idle_def bnd_def of_result_def)
qed

end
