(* ===== verification/Database.thy ===== *)
theory Database
  imports Clients
begin

text \<open>
  \<^verbatim>\<open>DatabaseClient\<close> of \<^verbatim>\<open>whitebox_tempest_plugin/services/clients.py\<close>: a cursor on one of Nova's
  databases, through an SSH tunnel where the database is on an internal network. The tunnel, the
  connection and the cursor are parameters; shown is that whatever is opened is closed again, and
  when it is not.
\<close>

section \<open>The client\<close>

text \<open>
  What \<^verbatim>\<open>sshtunnel\<close> and \<^verbatim>\<open>pymysql\<close> provide. A tunnel is given by the gateway (host and port), the user
  and key, the remote and the local end; a connection by host, port, user, password and database.
\<close>

record ('w, 'h) db_env = "'w nova_env" +
  open_tunnel :: "string option \<times> int \<Rightarrow> string \<Rightarrow> string \<Rightarrow> string \<times> int \<Rightarrow> string \<times> int \<Rightarrow> ('w, 'h) ext"
  close_tunnel :: "'h \<Rightarrow> ('w, unit) ext"
  connect :: "string option \<Rightarrow> int \<Rightarrow> string option \<Rightarrow> string option \<Rightarrow> string \<Rightarrow> ('w, 'h) ext"
  open_cursor :: "'h \<Rightarrow> ('w, 'h) ext"
  close_cursor :: "'h \<Rightarrow> ('w, unit) ext"
  commit_conn :: "'h \<Rightarrow> ('w, unit) ext"
  close_conn :: "'h \<Rightarrow> ('w, unit) ext"

record db_client =
  db_ssh_key :: string
  db_ssh_user :: string

definition DatabaseClient :: "('w, 'm) sys_env_scheme \<Rightarrow> db_client" where
  "DatabaseClient env = \<lparr>db_ssh_key = ctlplane_ssh_private_key_path (cfg env),
     db_ssh_user = ctlplane_ssh_username (cfg env)\<rparr>"

text \<open>Lines 420 to 432 and 434 to 446, which differ in where they connect to.\<close>

definition connected ::
  "('w, 'h, 'm) db_env_scheme \<Rightarrow> string option \<Rightarrow> int \<Rightarrow> string \<Rightarrow> bool \<Rightarrow> (('c, 'w) proc, 'h) cm" where
  "connected env host port database_name do_commit =
     bnd (external (connect env host port (db_user (cfg env)) (db_password (cfg env)) database_name)) (\<lambda>conn.
     bnd (external (open_cursor env conn)) (\<lambda>c.
     ret (c, try_finally
       (seqp (if do_commit then external (commit_conn env conn) else ret ())
             (external (close_conn env conn)))
       (external (close_cursor env c)))))"

definition cursor ::
  "('w, 'h, 'm) db_env_scheme \<Rightarrow> db_client \<Rightarrow> string \<Rightarrow> bool \<Rightarrow> (('c, 'w) proc, 'h) cm" where
  "cursor env self database_name do_commit =
     (let tunnel_local_bind_host = ''127.42.42.42'';
          tunnel_local_bind_port = 4242
      in if truthy (db_internal_ip (cfg env))
         then nest_cm
           (bnd (external (open_tunnel env (db_host (cfg env), ssh_gateway_port (cfg env))
                    (db_ssh_user self) (db_ssh_key self) (fmt (db_internal_ip (cfg env)), 3306)
                    (tunnel_local_bind_host, tunnel_local_bind_port)))
              (\<lambda>tunnel. ret ((), external (close_tunnel env tunnel))))
           (\<lambda>_. connected env (Some tunnel_local_bind_host) tunnel_local_bind_port
                  database_name do_commit)
         else connected env (db_host (cfg env)) 3306 database_name do_commit)"

text \<open>A block with a cursor, without its context managers.\<close>

lemma with_connected:
  "with_cm (connected env host port db do_commit) body =
     bnd (external (connect env host port (db_user (cfg env)) (db_password (cfg env)) db)) (\<lambda>conn.
     bnd (external (open_cursor env conn)) (\<lambda>c.
     try_finally (body c) (try_finally
       (seqp (if do_commit then external (commit_conn env conn) else ret ()) (external (close_conn env conn)))
       (external (close_cursor env c)))))"
  by (simp add: with_cm_def connected_def)

lemma with_tunnel:
  "with_cm (bnd (external f) (\<lambda>tunnel. ret ((), external (close tunnel)))) body =
     bnd (external f) (\<lambda>tunnel. try_finally (body ()) (external (close tunnel)))"
  by (simp add: with_cm_def)

lemmas with_cursor = cursor_def Let_def if_distrib [of "\<lambda>c. with_cm c _"] with_nest_cm with_tunnel with_connected

section \<open>What is open\<close>

text \<open>
  The documented behaviour of the libraries, as far as it concerns what is open: opening gives a
  handle that was not open, a failed attempt opens nothing, closing closes the handle it is given,
  and committing neither opens nor closes.
\<close>

definition opens :: "('w \<Rightarrow> 'h set) \<Rightarrow> ('w, 'h) ext \<Rightarrow> bool" where
  "opens opened f \<longleftrightarrow> (\<forall>w. case f w of
       (Inr h, w') \<Rightarrow> h \<notin> opened w \<and> opened w' = insert h (opened w)
     | (Inl e, w') \<Rightarrow> opened w' = opened w)"

definition closes :: "('w \<Rightarrow> 'h set) \<Rightarrow> 'h \<Rightarrow> ('w, unit) ext \<Rightarrow> bool" where
  "closes opened h f \<longleftrightarrow> (\<forall>w. opened (snd (f w)) = opened w - {h})"

definition db_ok :: "('w, 'h, 'm) db_env_scheme \<Rightarrow> ('w \<Rightarrow> 'h set) \<Rightarrow> bool" where
  "db_ok env opened \<longleftrightarrow>
     (\<forall>g u k r l. opens opened (open_tunnel env g u k r l)) \<and>
     (\<forall>h p u w d. opens opened (connect env h p u w d)) \<and>
     (\<forall>h. opens opened (open_cursor env h)) \<and>
     (\<forall>h. closes opened h (close_tunnel env h)) \<and>
     (\<forall>h. closes opened h (close_cursor env h)) \<and>
     (\<forall>h. closes opened h (close_conn env h)) \<and>
     (\<forall>h w. opened (snd (commit_conn env h w)) = opened w)"

text \<open>A body that leaves open what it finds open, and nothing else.\<close>

definition tidy :: "('w \<Rightarrow> 'h set) \<Rightarrow> (('n, 'c, 'w) st, 'a) prog \<Rightarrow> bool" where
  "tidy opened m \<longleftrightarrow> (\<forall>s. \<exists>r s'. m s = Some (r, s') \<and> opened (world s') = opened (world s))"

lemma opensD:
  assumes "opens opened f"
  shows "f w = (Inr h, w') \<Longrightarrow> h \<notin> opened w \<and> opened w' = insert h (opened w)"
    and "f w = (Inl e, w') \<Longrightarrow> opened w' = opened w"
  using assms spec [of "\<lambda>w. case f w of (Inr h, w') \<Rightarrow> h \<notin> opened w \<and> opened w' = insert h (opened w)
     | (Inl e, w') \<Rightarrow> opened w' = opened w" w]
  by (auto simp: opens_def)

lemma closes_run:
  "closes opened h f \<Longrightarrow> \<exists>r s'. external f s = Some (r, s') \<and> opened (world s') = opened (world s) - {h}"
  by (auto simp: closes_def prog_simps)

lemma closing_both:
  assumes ok: "db_ok env opened" and commit: "do_commit \<longrightarrow> (\<forall>h w. \<exists>w'. commit_conn env h w = (Inr (), w'))"
  shows "\<exists>r s'. try_finally
       (seqp (if do_commit then external (commit_conn env conn) else ret ()) (external (close_conn env conn)))
       (external (close_cursor env c)) s = Some (r, s') \<and>
     opened (world s') = opened (world s) - {conn} - {c}"
proof -
  have laws: "closes opened conn (close_conn env conn)" "closes opened c (close_cursor env c)"
      "opened (snd (commit_conn env conn w)) = opened w" for w
    using ok by (simp_all add: db_ok_def)
  have "\<exists>s1. (if do_commit then external (commit_conn env conn) else ret ()) s = Some (Inr (), s1) \<and>
      opened (world s1) = opened (world s)"
  proof (cases do_commit)
    case True
    then obtain w' where "commit_conn env conn (world s) = (Inr (), w')" using commit by blast
    with True laws(3) [of "world s"] show ?thesis by (simp add: external_def)
  qed (simp add: ret_def)
  then obtain s1 where s1: "(if do_commit then external (commit_conn env conn) else ret ()) s = Some (Inr (), s1)"
    "opened (world s1) = opened (world s)" by blast
  obtain r2 s2 where s2: "external (close_conn env conn) s1 = Some (r2, s2)"
    "opened (world s2) = opened (world s1) - {conn}" using closes_run [OF laws(1)] by blast
  obtain r3 s3 where s3: "external (close_cursor env c) s2 = Some (r3, s3)"
    "opened (world s3) = opened (world s2) - {c}" using closes_run [OF laws(2)] by blast
  have "seqp (if do_commit then external (commit_conn env conn) else ret ()) (external (close_conn env conn)) s =
      Some (r2, s2)"
    using s1(1) s2(1) by (simp add: seqp_def bnd_def)
  then show ?thesis
    using s1(2) s2(2) s3 by (cases r3) (simp_all add: try_finally_def)
qed

lemma connected_tidy:
  fixes env :: "('w, 'h, 'm) db_env_scheme" and body :: "'h \<Rightarrow> (('c, 'w) proc, 'a) prog"
  assumes ok: "db_ok env opened" and body: "\<And>c. tidy opened (body c)"
    and cur: "\<forall>h w. \<exists>c w'. open_cursor env h w = (Inr c, w')"
    and commit: "do_commit \<longrightarrow> (\<forall>h w. \<exists>w'. commit_conn env h w = (Inr (), w'))"
  shows "tidy opened (with_cm (connected env host port database_name do_commit) body)"
  unfolding tidy_def
proof
  fix s :: "('c, 'w) proc"
  let ?m = "with_cm (connected env host port database_name do_commit) body"
  obtain r w where con: "connect env host port (db_user (cfg env)) (db_password (cfg env)) database_name
      (world s) = (r, w)" by fastforce
  have con_opens: "opens opened (connect env host port (db_user (cfg env)) (db_password (cfg env)) database_name)"
    using ok by (simp add: db_ok_def)
  show "\<exists>r s'. ?m s = Some (r, s') \<and> opened (world s') = opened (world s)"
  proof (cases r)
    case (Inl e)
    with con opensD(2) [OF con_opens] show ?thesis
      by (simp add: with_cm_def connected_def bnd_def external_def)
  next
    case (Inr conn)
    obtain c w' where c: "open_cursor env conn w = (Inr c, w')" using cur by blast
    then have c_opens: "c \<notin> opened w" "opened w' = insert c (opened w)"
      using opensD(1) [of opened "open_cursor env conn"] ok by (auto simp: db_ok_def)
    obtain rb s1 where b: "body c (s\<lparr>world := w'\<rparr>) = Some (rb, s1)" "opened (world s1) = opened w'"
      using body [of c] spec [of "\<lambda>s. \<exists>r s'. body c s = Some (r, s') \<and> opened (world s') = opened (world s)"
          "s\<lparr>world := w'\<rparr>"] by (auto simp: tidy_def)
    obtain q s2 where l: "try_finally
        (seqp (if do_commit then external (commit_conn env conn) else ret ()) (external (close_conn env conn)))
        (external (close_cursor env c)) s1 = Some (q, s2)"
      "opened (world s2) = opened (world s1) - {conn} - {c}"
      using closing_both [OF ok commit] by blast
    have "?m s = Some (case q of Inl e \<Rightarrow> Inl e | Inr _ \<Rightarrow> rb, s2)"
      using con Inr c b(1) l(1)
      by (simp add: with_cm_def connected_def bnd_def external_def ret_def try_finally_def [of "body c"]
          split: sum.split)
    moreover have "opened (world s2) = opened (world s)"
      using l(2) b(2) c_opens opensD(1) [OF con_opens con [unfolded Inr]] by auto
    ultimately show ?thesis by blast
  qed
qed

lemma opened_closed_tidy:
  fixes body :: "unit \<Rightarrow> (('n, 'c, 'w) st, 'a) prog"
  assumes op: "opens opened op" and cl: "\<And>h. closes opened h (cl h)" and body: "tidy opened (body ())"
  shows "tidy opened (with_cm (bnd (external op) (\<lambda>h. ret ((), external (cl h)))) body)"
  unfolding tidy_def
proof
  fix s :: "('n, 'c, 'w) st"
  obtain r w where run: "op (world s) = (r, w)" by fastforce
  show "\<exists>r s'. with_cm (bnd (external op) (\<lambda>h. ret ((), external (cl h)))) body s = Some (r, s') \<and>
      opened (world s') = opened (world s)"
  proof (cases r)
    case (Inl e)
    with run opensD(2) [OF op] show ?thesis by (simp add: with_cm_def bnd_def external_def)
  next
    case (Inr h)
    obtain rb s1 where b: "body () (s\<lparr>world := w\<rparr>) = Some (rb, s1)" "opened (world s1) = opened w"
      using body spec [of "\<lambda>s. \<exists>r s'. body () s = Some (r, s') \<and> opened (world s') = opened (world s)"
          "s\<lparr>world := w\<rparr>"] by (auto simp: tidy_def)
    obtain q s2 where l: "external (cl h) s1 = Some (q, s2)" "opened (world s2) = opened (world s1) - {h}"
      using closes_run [OF cl] by blast
    have "with_cm (bnd (external op) (\<lambda>h. ret ((), external (cl h)))) body s =
        Some (case q of Inl e \<Rightarrow> Inl e | Inr _ \<Rightarrow> rb, s2)"
      using run Inr b(1) l(1)
      by (simp add: with_cm_def bnd_def external_def [of op] ret_def try_finally_def split: sum.split)
    moreover have "opened (world s2) = opened (world s)"
      using l(2) b(2) opensD(1) [OF op run [unfolded Inr]] by auto
    ultimately show ?thesis by blast
  qed
qed

section \<open>Properties\<close>

text \<open>C16. Whatever a cursor opens is closed again: for every body that returns, however it ends, leaving
  the \<^verbatim>\<open>with\<close> block returns with the same tunnels, connections and cursors open as before, with and
  without a tunnel, also if connecting fails. The hypotheses are that a cursor can be had from a
  connection and that committing, if it was asked for, succeeds.\<close>

theorem cursor_releases:
  assumes ok: "db_ok env opened" and body: "\<And>c. tidy opened (body c)"
    and cur: "\<forall>h w. \<exists>c w'. open_cursor env h w = (Inr c, w')"
    and commit: "do_commit \<longrightarrow> (\<forall>h w. \<exists>w'. commit_conn env h w = (Inr (), w'))"
  shows "\<exists>r s'. with_cm (cursor env self database_name do_commit) body s = Some (r, s') \<and>
    opened (world s') = opened (world s)"
proof -
  have conn: "tidy opened (with_cm (connected env host port database_name do_commit) body)" for host port
    using ok body cur commit by (rule connected_tidy)
  have laws: "opens opened (open_tunnel env g u k r l)" "closes opened h (close_tunnel env h)" for g u k r l h
    using ok unfolding db_ok_def by blast+
  have "tidy opened (with_cm (cursor env self database_name do_commit) body)"
  proof (cases "truthy (db_internal_ip (cfg env))")
    case True
    then show ?thesis
      unfolding cursor_def Let_def if_P [OF True] with_nest_cm
      by (intro opened_closed_tidy laws conn)
  next
    case False
    then show ?thesis unfolding cursor_def Let_def by (simp add: conn)
  qed
  then show ?thesis by (simp add: tidy_def)
qed

text \<open>A database server whose outside world is the list of what is open; handles are numbers.\<close>

definition open_fresh :: "(nat list, nat) ext" where
  "open_fresh w = (Inr (Suc (sum_list w)), Suc (sum_list w) # w)"

definition close_it :: "nat \<Rightarrow> (nat list, unit) ext" where
  "close_it h w = (Inr (), removeAll h w)"

definition db_server :: "string option \<Rightarrow> unit result \<Rightarrow> (nat list, nat) db_env" where
  "db_server ip committed = \<lparr>cfg = (default_conf 300 1 [] [])\<lparr>db_internal_ip := ip\<rparr>,
     read_nodes_yaml = (\<lambda>p w. (Inr [], w)), ssh_exec = (\<lambda>a u k c w. (Inr [], w)),
     clock = (\<lambda>w. 0), sleep = (\<lambda>n w. w), list_services = (\<lambda>h b w. (Inr [], w)),
     services_timeout = 10, services_interval = 1, list_migrations = (\<lambda>w. (Inr [], w)),
     list_rp_traits = (\<lambda>p w. (Inr [], w)),
     open_tunnel = (\<lambda>g u k r l. open_fresh), close_tunnel = close_it,
     connect = (\<lambda>h p u w d. open_fresh), open_cursor = (\<lambda>h. open_fresh),
     close_cursor = close_it, commit_conn = (\<lambda>h w. (committed, w)), close_conn = close_it\<rparr>"

lemma fresh_handle: "Suc (sum_list w) \<notin> set (w :: nat list)"
  using member_le_sum_list [of "Suc (sum_list w)" w] by auto

lemma db_server_ok: "db_ok (db_server ip committed) set"
  by (auto simp: db_ok_def opens_def closes_def db_server_def open_fresh_def close_it_def fresh_handle)

theorem cursor_releases_witness:
  "\<exists>r s'. with_cm (cursor (db_server (Some ''172.17.1.1'') (Inr ())) \<lparr>db_ssh_key = [], db_ssh_user = []\<rparr> ''nova'' True)
      (\<lambda>_. raise AssertionError) \<lparr>nodes_cache = None, cleanups = [] :: unit list, world = [7]\<rparr> =
    Some (r :: unit result, s') \<and> set (world s') = {7}"
  using cursor_releases [OF db_server_ok, of "\<lambda>_. raise AssertionError" "Some ''172.17.1.1''" "Inr ()" True
      "\<lparr>db_ssh_key = [], db_ssh_user = []\<rparr>" "''nova''"
      "\<lparr>nodes_cache = None, cleanups = [] :: unit list, world = [7]\<rparr>"]
  by (simp add: tidy_def raise_def db_server_def open_fresh_def)

text \<open>If committing fails the connection is not closed: the exception leaves the final block between
  the two calls. The cursor is still closed.\<close>

theorem cursor_commit_failure_leaks:
  "\<exists>s'. with_cm (cursor (db_server None (Inl (OtherError ''lost''))) \<lparr>db_ssh_key = [], db_ssh_user = []\<rparr> ''nova'' True)
      (\<lambda>_. ret ()) \<lparr>nodes_cache = None, cleanups = [] :: unit list, world = []\<rparr> =
    Some (Inl (OtherError ''lost''), s') \<and> world s' = [1]"
  by (simp add: cursor_def connected_def with_cm_def bnd_def external_def ret_def seqp_def
      try_finally_def db_server_def open_fresh_def close_it_def truthy_def default_conf_def)

end
