(* ===== verification/Xml.thy ===== *)
theory Xml
  imports WB_Prelude
begin

text \<open>
  The part of \<^verbatim>\<open>xml.etree.ElementTree\<close> the plugin uses: elements with a tag, attributes, text and
  children, and the selection of elements by a path. An element of a document is given by its
  position, the list of child indices that leads to it, since selection tells elements apart by
  identity. A path is the list of its steps: a child with a tag (\<^verbatim>\<open>tag\<close>), a condition on an attribute
  (\<^verbatim>\<open>[@a='v']\<close>, \<^verbatim>\<open>[@a]\<close>) and the parent (\<^verbatim>\<open>..\<close>); \<^verbatim>\<open>.\<close> selects the element itself and is no step. The
  parser is a parameter of the definitions that read a document.
\<close>

section \<open>Elements\<close>

datatype xml = Elem (xml_tag: string) (xml_attrib: "(string \<times> string) list")
  (xml_text: "string option") (xml_children: "xml list")

text \<open>\<^verbatim>\<open>elem.get(a)\<close> and \<^verbatim>\<open>elem.attrib.get(a)\<close>\<close>

definition attr :: "xml \<Rightarrow> string \<Rightarrow> string option" where
  "attr e a = map_of (xml_attrib e) a"

type_synonym position = "nat list"

fun at :: "xml \<Rightarrow> position \<Rightarrow> xml option" where
  "at e [] = Some e"
| "at e (i # p) = (if i < length (xml_children e) then at (xml_children e ! i) p else None)"

definition child_positions :: "xml \<Rightarrow> position \<Rightarrow> position list" where
  "child_positions root p = (case at root p of
       None \<Rightarrow> []
     | Some e \<Rightarrow> map (\<lambda>i. p @ [i]) [0..<length (xml_children e)])"

section \<open>Paths\<close>

datatype step = Child string | AttrIs string string | HasAttr string | Parent

text \<open>Duplicates are dropped where the first occurrence is kept, as the parent step does.\<close>

fun keep_first :: "'a list \<Rightarrow> 'a list" where
  "keep_first [] = []"
| "keep_first (x # xs) = x # filter (\<lambda>y. y \<noteq> x) (keep_first xs)"

definition satisfies :: "xml \<Rightarrow> (xml \<Rightarrow> bool) \<Rightarrow> position \<Rightarrow> bool" where
  "satisfies root f p = (case at root p of None \<Rightarrow> False | Some e \<Rightarrow> f e)"

fun select :: "xml \<Rightarrow> step \<Rightarrow> position list \<Rightarrow> position list" where
  "select root (Child t) ps =
     concat (map (\<lambda>p. filter (satisfies root (\<lambda>e. xml_tag e = t)) (child_positions root p)) ps)"
| "select root (AttrIs a v) ps = filter (satisfies root (\<lambda>e. attr e a = Some v)) ps"
| "select root (HasAttr a) ps = filter (satisfies root (\<lambda>e. attr e a \<noteq> None)) ps"
| "select root Parent ps = keep_first (map butlast (filter (\<lambda>p. p \<noteq> []) ps))"

definition select_path :: "xml \<Rightarrow> step list \<Rightarrow> position list" where
  "select_path root steps = fold (select root) steps [[]]"

definition findall :: "xml \<Rightarrow> step list \<Rightarrow> xml list" where
  "findall root steps = map (\<lambda>p. the (at root p)) (select_path root steps)"

definition find :: "xml \<Rightarrow> step list \<Rightarrow> xml option" where
  "find root steps = (case findall root steps of [] \<Rightarrow> None | e # _ \<Rightarrow> Some e)"

section \<open>Facts on selection\<close>

lemma set_keep_first [simp]: "set (keep_first xs) = set xs"
  by (induction xs) auto

lemma distinct_keep_first [simp]: "distinct (keep_first xs)"
  by (induction xs) auto

lemma keep_first_replicate:
  assumes "p \<notin> set rest"
  shows "keep_first (replicate k p @ rest) = (if k = 0 then [] else [p]) @ keep_first rest"
proof -
  have none: "filter (\<lambda>y. y \<noteq> p) (keep_first rest) = keep_first rest"
    using assms by (intro filter_True) auto
  show ?thesis
    using none by (induction k) auto
qed

lemma at_append: "at e (p @ q) = (case at e p of None \<Rightarrow> None | Some f \<Rightarrow> at f q)"
  by (induction e p rule: at.induct) simp_all

lemma at_child:
  "at root p = Some e \<Longrightarrow> at root (p @ [i]) = (if i < length (xml_children e) then Some (xml_children e ! i) else None)"
  by (simp add: at_append)

lemma child_positions_iff:
  "q \<in> set (child_positions root p) \<longleftrightarrow> (\<exists>e i. at root p = Some e \<and> i < length (xml_children e) \<and> q = p @ [i])"
  by (cases "at root p") (auto simp: child_positions_def)

lemma select_valid:
  assumes "\<And>p. p \<in> set ps \<Longrightarrow> at root p \<noteq> None" and "q \<in> set (select root st ps)"
  shows "at root q \<noteq> None"
proof (cases st)
  case Parent
  then obtain p where p: "p \<in> set ps" "p \<noteq> []" "q = butlast p"
    using assms(2) by (auto)
  then have "p = q @ [last p]" by simp
  with assms(1) [OF p(1)] show ?thesis
    by (metis at_append option.case_eq_if)
qed (use assms in \<open>auto simp: satisfies_def split: option.splits\<close>)

lemma select_path_valid:
  assumes "q \<in> set (select_path root steps)"
  shows "at root q \<noteq> None"
proof -
  have "\<forall>q \<in> set (fold (select root) steps ps). at root q \<noteq> None"
    if "\<forall>p \<in> set ps. at root p \<noteq> None" for ps
    using that
  proof (induction steps arbitrary: ps)
    case (Cons st steps)
    have "\<forall>p \<in> set (select root st ps). at root p \<noteq> None"
      using Cons.prems select_valid [of ps root] by blast
    then show ?case using Cons.IH by simp
  qed simp
  from this [of "[[]]"] assms show ?thesis
    by (simp add: select_path_def)
qed

lemma distinct_child_positions: "distinct (child_positions root p)"
  by (auto simp: child_positions_def distinct_map inj_on_def split: option.splits)

lemma distinct_select:
  assumes "distinct ps"
  shows "distinct (select root st ps)"
proof (cases st)
  case (Child t)
  have "distinct (concat (map (\<lambda>p. filter (satisfies root (\<lambda>e. xml_tag e = t)) (child_positions root p)) ps))"
    using assms
  proof (induction ps)
    case (Cons p ps)
    then show ?case
      by (auto simp: distinct_child_positions child_positions_iff)
  qed simp
  with Child show ?thesis by simp
qed (use assms in \<open>simp_all\<close>)

lemma distinct_select_path: "distinct (select_path root steps)"
proof -
  have "distinct (fold (select root) steps ps)" if "distinct ps" for ps
    using that by (induction steps arbitrary: ps) (simp_all add: distinct_select)
  then show ?thesis by (simp add: select_path_def)
qed

text \<open>
  Going to the children that satisfy a condition and back to the parents selects those elements
  that have such a child, each once and in the order they had.
\<close>

lemma parents_of_children:
  assumes "distinct ps"
  shows "select root Parent (filter f (select root (Child t) ps)) =
    filter (\<lambda>p. \<exists>q \<in> set (select root (Child t) [p]). f q) ps"
  using assms
proof (induction ps)
  case (Cons p ps)
  let ?sel = "\<lambda>p. filter f (select root (Child t) [p])"
  have up: "map butlast (filter (\<lambda>q. q \<noteq> []) (?sel p)) = replicate (length (?sel p)) p"
  proof -
    have up: "\<forall>q \<in> set (?sel p). q \<noteq> [] \<and> butlast q = p"
      by (auto simp: child_positions_iff)
    then have "filter (\<lambda>q. q \<noteq> []) (?sel p) = ?sel p" by (intro filter_True) blast
    moreover have "map butlast (?sel p) = map (\<lambda>q. p) (?sel p)"
      using up by (intro map_cong refl) blast
    ultimately show ?thesis by (simp only: map_replicate_const)
  qed
  let ?rest = "filter f (select root (Child t) ps)"
  have fresh: "p \<notin> set (map butlast (filter (\<lambda>q. q \<noteq> []) ?rest))"
    using Cons.prems by (auto simp: child_positions_iff)
  have "filter f (select root (Child t) (p # ps)) = ?sel p @ ?rest" by simp
  then have "select root Parent (filter f (select root (Child t) (p # ps))) =
      (if length (?sel p) = 0 then [] else [p]) @ select root Parent ?rest"
    by (simp only: select.simps(4) filter_append map_append up keep_first_replicate [OF fresh])
  moreover have "length (?sel p) = 0 \<longleftrightarrow> \<not> (\<exists>q \<in> set (select root (Child t) [p]). f q)"
    by (simp only: length_0_conv filter_empty_conv) blast
  ultimately show ?case using Cons by (simp only: filter.simps) simp
qed simp

section \<open>Selection without positions\<close>

text \<open>
  Without the parent step a path is followed on the elements themselves; a child that is only
  looked for to come back to its parent is a condition on the parent.
\<close>

fun walk :: "step \<Rightarrow> xml list \<Rightarrow> xml list" where
  "walk (Child t) es = concat (map (\<lambda>e. filter (\<lambda>c. xml_tag c = t) (xml_children e)) es)"
| "walk (AttrIs a v) es = filter (\<lambda>e. attr e a = Some v) es"
| "walk (HasAttr a) es = filter (\<lambda>e. attr e a \<noteq> None) es"
| "walk Parent es = []"

abbreviation elements :: "xml \<Rightarrow> position list \<Rightarrow> xml list" where
  "elements root \<equiv> map (\<lambda>p. the (at root p))"

lemma elements_children:
  assumes "at root p = Some e"
  shows "elements root (filter (satisfies root f) (child_positions root p)) = filter f (xml_children e)"
proof -
  let ?n = "length (xml_children e)"
  have "satisfies root f (p @ [i]) = f (xml_children e ! i)" "the (at root (p @ [i])) = xml_children e ! i"
    if "i < ?n" for i
    using that by (simp_all add: satisfies_def at_child [OF assms])
  then have "map (\<lambda>i. the (at root (p @ [i]))) (filter (\<lambda>i. satisfies root f (p @ [i])) [0..<?n]) =
      map (\<lambda>i. xml_children e ! i) (filter (\<lambda>i. f (xml_children e ! i)) [0..<?n])"
    by (intro map_cong filter_cong) auto
  then have "elements root (filter (satisfies root f) (child_positions root p)) =
      filter f (map (\<lambda>i. xml_children e ! i) [0..<?n])"
    by (simp add: child_positions_def assms filter_map comp_def)
  then show ?thesis by (simp only: map_nth)
qed

lemma elements_filter:
  "\<forall>p \<in> set ps. at root p \<noteq> None \<Longrightarrow>
   elements root (filter (satisfies root f) ps) = filter f (elements root ps)"
  by (induction ps) (auto simp: satisfies_def)

lemma elements_select:
  assumes "\<forall>p \<in> set ps. at root p \<noteq> None" and "st \<noteq> Parent"
  shows "elements root (select root st ps) = walk st (elements root ps)"
proof (cases st)
  case (Child t)
  show ?thesis
    using assms(1) unfolding Child
    by (induction ps) (auto simp: elements_children)
qed (use assms in \<open>simp_all add: elements_filter\<close>)

lemma select_path_snoc: "select_path root (steps @ [st]) = select root st (select_path root steps)"
  by (simp add: select_path_def)

lemma findall_walk: "Parent \<notin> set steps \<Longrightarrow> findall root steps = fold walk steps [root]"
proof (induction steps rule: rev_induct)
  case (snoc st steps)
  then show ?case
    using elements_select [of "select_path root steps" root st] select_path_valid [of _ root steps]
    by (auto simp: findall_def select_path_snoc)
qed (simp add: findall_def select_path_def)

lemma findall_with_child:
  assumes "Parent \<notin> set steps"
  shows "findall root (steps @ [Child t, AttrIs a v, Parent]) =
    filter (\<lambda>e. \<exists>c \<in> set (xml_children e). xml_tag c = t \<and> attr c a = Some v) (fold walk steps [root])"
proof -
  let ?ps = "select_path root steps"
  have valid: "\<forall>p \<in> set ?ps. at root p \<noteq> None" using select_path_valid by blast
  have "findall root (steps @ [Child t, AttrIs a v, Parent]) =
      elements root (select root Parent (filter (satisfies root (\<lambda>e. attr e a = Some v)) (select root (Child t) ?ps)))"
    by (simp add: findall_def select_path_def)
  also have "\<dots> = elements root (filter (\<lambda>p. \<exists>q \<in> set (select root (Child t) [p]).
      satisfies root (\<lambda>e. attr e a = Some v) q) ?ps)"
    by (simp only: parents_of_children [OF distinct_select_path])
  also have "\<dots> = elements root (filter (satisfies root
      (\<lambda>e. \<exists>c \<in> set (xml_children e). xml_tag c = t \<and> attr c a = Some v)) ?ps)"
  proof (intro arg_cong [where f = "elements root"] filter_cong refl)
    fix p assume "p \<in> set ?ps"
    then obtain e where e: "at root p = Some e" using valid by auto
    let ?S = "set (select root (Child t) [p])"
    have "set (elements root (select root (Child t) [p])) = {c \<in> set (xml_children e). xml_tag c = t}"
      by (simp add: elements_children [OF e])
    then have img: "(\<lambda>q. the (at root q)) ` ?S = {c \<in> set (xml_children e). xml_tag c = t}"
      by (simp only: list.set_map)
    have "(\<exists>q \<in> ?S. satisfies root (\<lambda>e. attr e a = Some v) q) \<longleftrightarrow>
        (\<exists>q \<in> ?S. attr (the (at root q)) a = Some v)"
      by (rule bex_cong) (auto simp: satisfies_def split: option.splits)
    also have "\<dots> \<longleftrightarrow> (\<exists>c \<in> (\<lambda>q. the (at root q)) ` ?S. attr c a = Some v)"
      by blast
    also have "\<dots> \<longleftrightarrow> (\<exists>c \<in> set (xml_children e). xml_tag c = t \<and> attr c a = Some v)"
      by (simp only: img) blast
    also have "\<dots> \<longleftrightarrow> satisfies root (\<lambda>e. \<exists>c \<in> set (xml_children e). xml_tag c = t \<and> attr c a = Some v) p"
      by (simp only: satisfies_def e option.case)
    finally show "(\<exists>q \<in> ?S. satisfies root (\<lambda>e. attr e a = Some v) q) \<longleftrightarrow>
        satisfies root (\<lambda>e. \<exists>c \<in> set (xml_children e). xml_tag c = t \<and> attr c a = Some v) p" .
  qed
  also have "\<dots> = filter (\<lambda>e. \<exists>c \<in> set (xml_children e). xml_tag c = t \<and> attr c a = Some v) (elements root ?ps)"
    using valid by (rule elements_filter)
  finally show ?thesis
    using findall_walk [OF assms] by (simp add: findall_def)
qed

end
