(* ===== verification/Compute_Base.thy ===== *)
theory Compute_Base
  imports Service_Manager Host_Clients Database Xml
begin

text \<open>
  \<^verbatim>\<open>whitebox_tempest_plugin/api/compute/base.py\<close>: the operations that every test class inherits. They
  call Nova, Glance, Cinder and Neutron through Tempest's clients, which are parameters; they use the
  clients and managers of the other theories; and they register clean-ups for what they create,
  which are kept in the state of the running test.
\<close>

section \<open>The services of the deployment\<close>

text \<open>
  The calls of Tempest's clients, each with the arguments the plugin gives it. The part of an answer
  that the plugin reads is the result: \<^verbatim>\<open>show_server(id)['server']\<close>, \<^verbatim>\<open>create_port(...)['port']\<close> and so on.
  \<open>fmt_json\<close> is \<^verbatim>\<open>'%s' % v\<close> for a value that is no string, \<open>et_fromstring\<close> is \<^verbatim>\<open>ET.fromstring\<close>,
  \<open>class_name\<close> is the name of the test class.
\<close>

datatype creds = Primary | Admin

type_synonym json_object = "(string \<times> json) list"

record ('w, 'h) api_env = "('w, 'h) db_env" +
  class_name :: string
  resource_name_prefix :: string
  fmt_json :: "json \<Rightarrow> string"
  et_fromstring :: "string \<Rightarrow> xml result"
  rand_name :: "string option \<Rightarrow> string \<Rightarrow> ('w, string) ext"
  tempest_create_test_server :: "api_object \<Rightarrow> ('w, api_object) ext"
  delete_server :: "string \<Rightarrow> ('w, unit) ext"
  wait_for_server_termination :: "string \<Rightarrow> ('w, unit) ext"
  tempest_create_flavor :: "int \<Rightarrow> int \<Rightarrow> int \<Rightarrow> string option \<Rightarrow> string \<Rightarrow> api_object \<Rightarrow> ('w, api_object) ext"
  set_flavor_extra_spec :: "string \<Rightarrow> api_object \<Rightarrow> ('w, unit) ext"
  keypairs_create :: "api_object \<Rightarrow> ('w, api_object) ext"
  delete_keypair :: "string \<Rightarrow> ('w, unit) ext"
  servers_reboot :: "string \<Rightarrow> string \<Rightarrow> ('w, unit) ext"
  wait_for_server_status :: "creds \<Rightarrow> string \<Rightarrow> string \<Rightarrow> ('w, unit) ext"
  show_image :: "string \<Rightarrow> ('w, api_object) ext"
  show_image_file :: "string \<Rightarrow> ('w, string) ext"
  create_image :: "api_object \<Rightarrow> ('w, api_object) ext"
  delete_image :: "string \<Rightarrow> ('w, unit) ext"
  store_image_file :: "string \<Rightarrow> string \<Rightarrow> ('w, unit) ext"
  show_server :: "string \<Rightarrow> ('w, api_object) ext"
  get_host_for_server :: "string \<Rightarrow> ('w, string) ext"
  live_migrate_server :: "string \<Rightarrow> string \<Rightarrow> string option \<Rightarrow> ('w, unit) ext"
  servers_evacuate :: "string \<Rightarrow> api_object \<Rightarrow> ('w, unit) ext"
  list_volumes :: "('w, api_object list) ext"
  delete_volume_ignoring_notfound :: "string \<Rightarrow> ('w, unit) ext"
  wait_for_volume_deletion :: "string \<Rightarrow> ('w, unit) ext"
  volume_types_create :: "string \<Rightarrow> api_object \<Rightarrow> api_object \<Rightarrow> ('w, api_object) ext"
  delete_volume_type :: "string \<Rightarrow> ('w, unit) ext"
  encryption_types_create :: "string \<Rightarrow> string option \<Rightarrow> int option \<Rightarrow> string option \<Rightarrow> string option \<Rightarrow> ('w, unit) ext"
  tempest_create_volume :: "string \<Rightarrow> ('w, api_object) ext"
  show_port :: "string \<Rightarrow> ('w, json_object) ext"
  create_network :: "string \<Rightarrow> json_object \<Rightarrow> ('w, api_object) ext"
  delete_network :: "string \<Rightarrow> ('w, unit) ext"
  create_subnet :: "string \<Rightarrow> string \<Rightarrow> string \<Rightarrow> int \<Rightarrow> ('w, api_object) ext"
  delete_subnet :: "string \<Rightarrow> ('w, unit) ext"
  create_port :: "string \<Rightarrow> api_object \<Rightarrow> ('w, api_object) ext"
  delete_port :: "string \<Rightarrow> ('w, unit) ext"
  cursor_execute :: "'h \<Rightarrow> string \<Rightarrow> ('w, unit) ext"
  cursor_fetchall :: "'h \<Rightarrow> ('w, json_object list) ext"

section \<open>Clean-ups\<close>

text \<open>What \<^verbatim>\<open>addCleanup\<close> is given, with its argument.\<close>

datatype cleanup =
    AdminDeleteServer string
  | DeleteKeypair string
  | DeleteImage string
  | CleanupVolumeType api_object
  | DeleteNetwork string
  | DeleteSubnet string
  | DeletePort string

type_synonym 'w test = "(cleanup, 'w) proc"

definition addCleanup :: "cleanup \<Rightarrow> ('w test, unit) prog" where
  "addCleanup c = (\<lambda>s. Some (Inr (), s\<lparr>cleanups := c # cleanups s\<rparr>))"

text \<open>\<^verbatim>\<open>d[k]\<close>\<close>

abbreviation key :: "api_object \<Rightarrow> string \<Rightarrow> ('s, string) prog" where
  "key d k \<equiv> of_result (py_key d k)"

section \<open>Servers, flavors, key pairs and images\<close>

definition create_test_server ::
  "('w, 'h, 'm) api_env_scheme \<Rightarrow> api_object \<Rightarrow> ('w test, api_object) prog" where
  "create_test_server env kwargs =
     bnd (external (tempest_create_test_server env kwargs)) (\<lambda>server.
     bnd (key server ''id'') (\<lambda>server_id.
     seqp (addCleanup (AdminDeleteServer server_id))
     (ret server)))"

text \<open>The inner function of \<^verbatim>\<open>create_test_server\<close>: every exception is logged and swallowed.\<close>

definition admin_delete_server :: "('w, 'h, 'm) api_env_scheme \<Rightarrow> string \<Rightarrow> ('w test, unit) prog" where
  "admin_delete_server env server_id =
     try_except
       (seqp (external (delete_server env server_id))
             (external (wait_for_server_termination env server_id)))
       (\<lambda>e. ret ())"

definition create_flavor ::
  "('w, 'h, 'm) api_env_scheme \<Rightarrow> int option \<Rightarrow> int option \<Rightarrow> int option \<Rightarrow> string option \<Rightarrow>
   string option \<Rightarrow> api_object \<Rightarrow> api_object \<Rightarrow> ('w test, api_object) prog" where
  "create_flavor env ram vcpus disk name is_public extra_specs kwargs =
     (let ram = (case ram of None \<Rightarrow> flavor_ram_size (cfg env) | Some n \<Rightarrow> n);
          vcpus = (case vcpus of None \<Rightarrow> 2 | Some n \<Rightarrow> n);
          disk = (case disk of None \<Rightarrow> flavor_volume_size (cfg env) | Some n \<Rightarrow> n);
          is_public = (case is_public of None \<Rightarrow> ''True'' | Some v \<Rightarrow> v)
      in bnd (external (tempest_create_flavor env ram vcpus disk name is_public kwargs)) (\<lambda>flavor.
         seqp (if extra_specs \<noteq> []
               then bnd (key flavor ''id'') (\<lambda>flavor_id.
                    external (set_flavor_extra_spec env flavor_id extra_specs))
               else ret ())
         (ret flavor)))"

definition create_keypair ::
  "('w, 'h, 'm) api_env_scheme \<Rightarrow> api_object \<Rightarrow> ('w test, api_object) prog" where
  "create_keypair env kwargs =
     bnd (if \<not> truthy (map_of kwargs ''name'')
          then bnd (external (rand_name env (Some (resource_name_prefix env)) (class_name env)))
                 (\<lambda>n. ret (AList.update ''name'' n kwargs))
          else ret kwargs) (\<lambda>kwargs.
     bnd (external (keypairs_create env kwargs)) (\<lambda>keypair.
     bnd (key kwargs ''name'') (\<lambda>n.
     seqp (addCleanup (DeleteKeypair n))
     (ret keypair))))"

definition reboot_server ::
  "('w, 'h, 'm) api_env_scheme \<Rightarrow> string \<Rightarrow> string \<Rightarrow> ('w test, unit) prog" where
  "reboot_server env server_id reboot_type =
     seqp (external (servers_reboot env server_id reboot_type))
     (external (wait_for_server_status env Primary server_id ''ACTIVE''))"

definition copy_default_image ::
  "('w, 'h, 'm) api_env_scheme \<Rightarrow> api_object \<Rightarrow> ('w test, string) prog" where
  "copy_default_image env kwargs =
     bnd (external (show_image env (image_ref (cfg env)))) (\<lambda>img.
     bnd (external (show_image_file env (image_ref (cfg env)))) (\<lambda>image_data.
     bnd (mapM (\<lambda>k. bnd (key img k) (\<lambda>v. ret (k, v)))
            [''container_format'', ''disk_format'', ''min_disk'', ''min_ram'']) (\<lambda>create_dict.
     bnd (external (create_image env (AList.merge create_dict (rev kwargs)))) (\<lambda>new_image.
     bnd (key new_image ''id'') (\<lambda>image_id.
     seqp (addCleanup (DeleteImage image_id))
     (seqp (external (store_image_file env image_id image_data))
     (ret image_id)))))))"

section \<open>The compute hosts\<close>

definition list_compute_hosts :: "('w, 'm) nova_env_scheme \<Rightarrow> (('c, 'w) proc, string list) prog" where
  "list_compute_hosts env =
     bnd (external (list_services env None ''nova-compute'')) (\<lambda>services.
     of_result (map_res (\<lambda>service. py_key service ''host'') services))"

text \<open>A \<^verbatim>\<open>with self.config_all_computes(...)\<close> statement and its body.\<close>

definition config_all_computes ::
  "('w, 'm) nova_env_scheme \<Rightarrow> (string \<times> string \<times> string option) list \<Rightarrow>
   (unit list \<Rightarrow> (('c, 'w) proc, 'a) prog) \<Rightarrow> (('c, 'w) proc, 'a) prog" where
  "config_all_computes env options body =
     bnd (list_compute_hosts env) (\<lambda>computes.
     bnd (mapM (\<lambda>compute. NovaServiceManager env compute ''nova-compute'') computes) (\<lambda>svc_mgrs.
     (let ctxt_mgrs = map (\<lambda>mgr. config_options env mgr options) svc_mgrs
      in with_stack ctxt_mgrs [] [] body)))"

section \<open>Domains\<close>

definition get_server_xml ::
  "('w, 'h, 'm) api_env_scheme \<Rightarrow> string \<Rightarrow> (('c, 'w) proc, xml) prog" where
  "get_server_xml env server_id =
     bnd (external (show_server env server_id)) (\<lambda>server.
     bnd (key server ''OS-EXT-SRV-ATTR:host'') (\<lambda>host.
     bnd (key server ''OS-EXT-SRV-ATTR:instance_name'') (\<lambda>server_instance_name.
     bnd (VirshXMLClient env host) (\<lambda>virshxml.
     bnd (dumpxml env virshxml server_instance_name) (\<lambda>xml.
     of_result (et_fromstring env xml))))))"

definition get_secret_xml ::
  "('w, 'h, 'm) api_env_scheme \<Rightarrow> string \<Rightarrow> string \<Rightarrow> (('c, 'w) proc, xml) prog" where
  "get_secret_xml env secret_uuid host =
     bnd (VirshXMLClient env host) (\<lambda>virshxml.
     bnd (secret_dumpxml env virshxml secret_uuid) (\<lambda>xml.
     of_result (et_fromstring env xml)))"

text \<open>
  One turn of the loop of \<^verbatim>\<open>_wait_for_domain_shutdown\<close>. Both branches of the \<^verbatim>\<open>if\<close> leave the turn before
  the call of \<^verbatim>\<open>time.sleep\<close>.
\<close>

definition domain_step ::
  "('w, 'm) sys_env_scheme \<times> ssh_client \<times> string \<times> int \<Rightarrow> ('c, 'w) proc \<Rightarrow>
   (unit result \<times> ('c, 'w) proc) + ('c, 'w) proc" where
  "domain_step = (\<lambda>(env, ssh_client, domain_name, start_time) s.
     (let timeout = build_timeout (cfg env)
      in if clock env (world s) - start_time \<le> timeout
         then (case as_root env ssh_client ''virsh list --name'' (world s) of (r, w) \<Rightarrow>
           (let s1 = s\<lparr>world := w\<rparr> in
            case r of
              Inl e \<Rightarrow> Inl (Inl e, s1)
            | Inr domains \<Rightarrow> (if py_in domain_name domains then Inr s1 else Inl (Inr (), s1))))
         else Inl (Inl TimeoutException, s)))"

definition wait_for_domain_shutdown ::
  "('w, 'm) sys_env_scheme \<Rightarrow> ssh_client \<Rightarrow> string \<Rightarrow> (('c, 'w) proc, unit) prog" where
  "wait_for_domain_shutdown env ssh_client domain_name =
     (\<lambda>s. iterate (domain_step (env, ssh_client, domain_name, clock env (world s))) s)"

definition shutdown_server_domain ::
  "('w, 'h, 'm) api_env_scheme \<Rightarrow> api_object \<Rightarrow> string \<Rightarrow> (('c, 'w) proc, unit) prog" where
  "shutdown_server_domain env server host =
     bnd (key server ''id'') (\<lambda>server_id.
     bnd (external (show_server env server_id)) (\<lambda>server_details.
     bnd (key server_details ''OS-EXT-SRV-ATTR:instance_name'') (\<lambda>domain_name.
     bnd (SSHClient env host) (\<lambda>ssh_client.
     seqp (execute env ssh_client (''virsh shutdown '' @ domain_name) None True)
     (wait_for_domain_shutdown env ssh_client domain_name)))))"

text \<open>The lines that mention the device; unpacking a line into two variables needs two words.\<close>

definition blockdevice_line :: "string \<Rightarrow> string option \<Rightarrow> string \<Rightarrow> string option result" where
  "blockdevice_line device_name source line =
     (if py_in device_name line
      then (case py_split line of [target, source] \<Rightarrow> Inr (Some source) | _ \<Rightarrow> Inl ValueError)
      else Inr source)"

definition get_server_blockdevice_path ::
  "('w, 'h, 'm) api_env_scheme \<Rightarrow> string \<Rightarrow> string \<Rightarrow> (('c, 'w) proc, string option) prog" where
  "get_server_blockdevice_path env server_id device_name =
     bnd (external (get_host_for_server env server_id)) (\<lambda>host.
     bnd (VirshXMLClient env host) (\<lambda>virshxml.
     bnd (domblklist env virshxml server_id) (\<lambda>blklist.
     of_result (fold_res (blockdevice_line device_name) None (py_splitlines blklist)))))"

definition live_migrate ::
  "('w, 'h, 'm) api_env_scheme \<Rightarrow> creds \<Rightarrow> string \<Rightarrow> string \<Rightarrow> string option \<Rightarrow> (('c, 'w) proc, unit) prog" where
  "live_migrate env clients server_id state target_host =
     bnd (external (get_host_for_server env server_id)) (\<lambda>orig_host.
     seqp (external (live_migrate_server env server_id ''auto'' target_host))
     (seqp (external (wait_for_server_status env clients server_id state))
     (if truthy target_host
      then bnd (external (get_host_for_server env server_id)) (\<lambda>host. check (target_host = Some host))
      else bnd (external (get_host_for_server env server_id)) (\<lambda>host. check (orig_host \<noteq> host)))))"

definition evacuate_server ::
  "('w, 'h, 'm) api_env_scheme \<Rightarrow> string \<Rightarrow> api_object \<Rightarrow> (('c, 'w) proc, unit) prog" where
  "evacuate_server env server_id kwargs =
     seqp (external (servers_evacuate env server_id kwargs))
     (wait_for_server_migration_complete env server_id)"

section \<open>Volume types\<close>

definition cleanup_volume_type ::
  "('w, 'h, 'm) api_env_scheme \<Rightarrow> api_object \<Rightarrow> (('c, 'w) proc, unit) prog" where
  "cleanup_volume_type env volume_type =
     bnd (external (list_volumes env)) (\<lambda>volumes.
     bnd (key volume_type ''name'') (\<lambda>type_name.
     bnd (of_result (map_res (\<lambda>v. py_key v ''volume_type'') volumes)) (\<lambda>types.
     seqp (forM (\<lambda>(volume, t).
             bnd (key volume ''id'') (\<lambda>volume_id.
             seqp (external (delete_volume_ignoring_notfound env volume_id))
             (external (wait_for_volume_deletion env volume_id))))
           (filter (\<lambda>(volume, t). t = type_name) (zip volumes types)))
     (bnd (key volume_type ''id'') (\<lambda>type_id.
     external (delete_volume_type env type_id))))))"

text \<open>
  A client is given by the operation that is called on it; without one the default client is used. A
  given back end is added to the extra specifications.
\<close>

definition create_volume_type ::
  "('w, 'h, 'm) api_env_scheme \<Rightarrow> (string \<Rightarrow> api_object \<Rightarrow> api_object \<Rightarrow> ('w, api_object) ext) option \<Rightarrow>
   string option \<Rightarrow> string option \<Rightarrow> api_object \<Rightarrow> api_object \<Rightarrow> ('w test, api_object) prog" where
  "create_volume_type env client name backend_name extra_specs kwargs =
     bnd (if \<not> truthy name
          then external (rand_name env None (class_name env @ ''-volume-type''))
          else ret (fmt name)) (\<lambda>name.
     bnd (external (rand_name env None (''scenario-type-'' @ name))) (\<lambda>randomized_name.
     (let client = (case client of None \<Rightarrow> volume_types_create env | Some c \<Rightarrow> c);
          extra_specs = (if truthy backend_name
           then AList.update ''volume_backend_name'' (fmt backend_name) extra_specs else extra_specs)
      in bnd (external (client randomized_name extra_specs kwargs)) (\<lambda>volume_type.
         seqp (check (map_of volume_type ''id'' \<noteq> None))
         (seqp (addCleanup (CleanupVolumeType volume_type))
         (ret volume_type))))))"

definition create_encryption_type ::
  "('w, 'h, 'm) api_env_scheme \<Rightarrow>
   (string \<Rightarrow> string option \<Rightarrow> int option \<Rightarrow> string option \<Rightarrow> string option \<Rightarrow> ('w, unit) ext) option \<Rightarrow>
   string option \<Rightarrow> string option \<Rightarrow> int option \<Rightarrow> string option \<Rightarrow> string option \<Rightarrow> ('w test, unit) prog" where
  "create_encryption_type env client type_id provider key_size cipher control_location =
     (let client = (case client of None \<Rightarrow> encryption_types_create env | Some c \<Rightarrow> c)
      in bnd (if \<not> truthy type_id
              then bnd (create_volume_type env None None None [] []) (\<lambda>volume_type. key volume_type ''id'')
              else ret (fmt type_id)) (\<lambda>type_id.
         external (client type_id provider key_size cipher control_location)))"

definition create_encrypted_volume ::
  "('w, 'h, 'm) api_env_scheme \<Rightarrow> string \<Rightarrow> string \<Rightarrow> int option \<Rightarrow> string option \<Rightarrow> string option \<Rightarrow>
   ('w test, api_object) prog" where
  "create_encrypted_volume env encryption_provider volume_type key_size cipher control_location =
     (let key_size = (case key_size of None \<Rightarrow> 256 | Some n \<Rightarrow> n);
          cipher = (case cipher of None \<Rightarrow> ''aes-xts-plain64'' | Some c \<Rightarrow> c);
          control_location = (case control_location of None \<Rightarrow> ''front-end'' | Some l \<Rightarrow> l)
      in bnd (create_volume_type env None (Some volume_type) None [] []) (\<lambda>volume_type.
         bnd (key volume_type ''id'') (\<lambda>type_id.
         seqp (create_encryption_type env None (Some type_id) (Some encryption_provider) (Some key_size)
                 (Some cipher) (Some control_location))
         (bnd (key volume_type ''name'') (\<lambda>type_name.
         external (tempest_create_volume env type_name))))))"

section \<open>Ports and interfaces\<close>

definition json_key :: "json_object \<Rightarrow> string \<Rightarrow> json result" where
  "json_key d k = (case map_of d k of None \<Rightarrow> Inl (KeyError k) | Some v \<Rightarrow> Inr v)"

text \<open>\<^verbatim>\<open>VNIC_MAPPING_DICT.get(vnic_type)\<close>: lists and dictionaries cannot be keys.\<close>

definition VNIC_MAPPING_DICT :: "(string \<times> string) list" where
  "VNIC_MAPPING_DICT = [(''vdpa'', ''vdpa''), (''direct'', ''hostdev''), (''macvtap'', ''direct'')]"

definition get_expected_xml_interface_type :: "json_object \<Rightarrow> string option result" where
  "get_expected_xml_interface_type port =
     bind_res (json_key port ''binding:vnic_type'') (\<lambda>vnic_type. case vnic_type of
         JStr t \<Rightarrow> Inr (map_of VNIC_MAPPING_DICT t)
       | JList _ \<Rightarrow> Inl TypeError
       | JDict _ \<Rightarrow> Inl TypeError
       | _ \<Rightarrow> Inr None)"

text \<open>\<^verbatim>\<open>'%s' % v\<close>\<close>

definition fmt_value :: "('w, 'h, 'm) api_env_scheme \<Rightarrow> json \<Rightarrow> string" where
  "fmt_value env v = (case v of JStr s \<Rightarrow> s | _ \<Rightarrow> fmt_json env v)"

text \<open>\<^verbatim>\<open>./devices/interface[@type='%s']/mac[@address='%s']..\<close>\<close>

definition interface_path :: "string \<Rightarrow> string \<Rightarrow> step list" where
  "interface_path interface_type mac =
     [Child ''devices'', Child ''interface'', AttrIs ''type'' interface_type,
      Child ''mac'', AttrIs ''address'' mac, Parent]"

definition get_xml_interface_device ::
  "('w, 'h, 'm) api_env_scheme \<Rightarrow> string \<Rightarrow> string \<Rightarrow> (('c, 'w) proc, xml) prog" where
  "get_xml_interface_device env server_id port_id =
     bnd (external (show_port env port_id)) (\<lambda>port_info.
     bnd (of_result (get_expected_xml_interface_type port_info)) (\<lambda>interface_type.
     bnd (get_server_xml env server_id) (\<lambda>root.
     bnd (of_result (json_key port_info ''mac_address'')) (\<lambda>mac.
     (let interface_list = findall root (interface_path (fmt interface_type) (fmt_value env mac))
      in seqp (check (length interface_list = 1))
         (of_result (py_nth interface_list 0)))))))"

definition get_port_attribute ::
  "('w, 'h, 'm) api_env_scheme \<Rightarrow> string \<Rightarrow> string \<Rightarrow> (('c, 'w) proc, json option) prog" where
  "get_port_attribute env port_id attribute =
     bnd (external (show_port env port_id)) (\<lambda>port. ret (map_of port attribute))"

definition create_net_from_physical_network ::
  "('w, 'h, 'm) api_env_scheme \<Rightarrow> json \<Rightarrow> string \<Rightarrow> ('w test, api_object) prog" where
  "create_net_from_physical_network env vlan_id physical_net =
     bnd (external (rand_name env None (class_name env))) (\<lambda>name_net.
     (let net_dict = [(''provider:network_type'', JStr ''vlan''),
                      (''provider:physical_network'', JStr physical_net),
                      (''provider:segmentation_id'', vlan_id),
                      (''shared'', JBool True)]
      in bnd (external (create_network env name_net net_dict)) (\<lambda>net.
         bnd (key net ''id'') (\<lambda>net_id.
         seqp (addCleanup (DeleteNetwork net_id))
         (ret net)))))"

definition create_subnet_of ::
  "('w, 'h, 'm) api_env_scheme \<Rightarrow> string \<Rightarrow> ('w test, api_object) prog" where
  "create_subnet_of env network_id =
     bnd (external (rand_name env None (class_name env))) (\<lambda>name_subnet.
     bnd (external (create_subnet env name_subnet network_id (project_network_cidr (cfg env)) 4)) (\<lambda>subnet.
     bnd (key subnet ''id'') (\<lambda>subnet_id.
     seqp (addCleanup (DeleteSubnet subnet_id))
     (ret subnet))))"

definition create_port_from_vnic_type ::
  "('w, 'h, 'm) api_env_scheme \<Rightarrow> api_object \<Rightarrow> string \<Rightarrow> string option \<Rightarrow> ('w test, api_object) prog" where
  "create_port_from_vnic_type env net vnic_type numa_affinity_policy =
     (let vnic_params = [(''binding:vnic_type'', vnic_type)] @
            (if truthy numa_affinity_policy
             then [(''numa_affinity_policy'', fmt numa_affinity_policy)] else [])
      in bnd (key net ''id'') (\<lambda>network_id.
         bnd (external (create_port env network_id vnic_params)) (\<lambda>port.
         bnd (key port ''id'') (\<lambda>port_id.
         seqp (addCleanup (DeletePort port_id))
         (ret port)))))"

section \<open>PCI devices in Nova's database\<close>

definition search_pci_devices ::
  "('w, 'h, 'm) api_env_scheme \<Rightarrow> string \<Rightarrow> string \<Rightarrow> (('c, 'w) proc, json_object list) prog" where
  "search_pci_devices env column value =
     (let db_client = DatabaseClient env;
          db = nova_cell1_db_name (cfg env)
      in with_cm (cursor env db_client db False) (\<lambda>c.
           seqp (external (cursor_execute env c
             (''SELECT address,status,dev_type FROM pci_devices WHERE '' @ column @ '' = \"'' @ value @ ''\"'')))
           (external (cursor_fetchall env c))))"

text \<open>\<^verbatim>\<open>binding_profile['pci_slot']\<close>\<close>

definition pci_slot :: "json option \<Rightarrow> json result" where
  "pci_slot binding_profile = (case binding_profile of
       Some (JDict d) \<Rightarrow> json_key d ''pci_slot''
     | _ \<Rightarrow> Inl TypeError)"

text \<open>The body of the loop of \<^verbatim>\<open>_verify_neutron_port_binding\<close>, for one row.\<close>

definition verify_pci_device ::
  "json option \<Rightarrow> json option \<Rightarrow> json_object \<Rightarrow> ('s, unit) prog" where
  "verify_pci_device binding_profile vnic_type pci_device =
     bnd (of_result (json_key pci_device ''status'')) (\<lambda>status.
     bnd (of_result (json_key pci_device ''address'')) (\<lambda>address.
     seqp (check (JStr ''allocated'' = status))
     (bnd (of_result (pci_slot binding_profile)) (\<lambda>slot.
     seqp (check (address = slot))
     (bnd (of_result (json_key pci_device ''dev_type'')) (\<lambda>dev_type.
      if vnic_type = Some (JStr ''vdpa'') then check (dev_type = JStr ''vdpa'')
      else if vnic_type = Some (JStr ''direct-physical'') then check (dev_type = JStr ''type-PF'')
      else check (dev_type \<in> {JStr ''type-VF'', JStr ''type-PCI''}))))))) "

definition verify_neutron_port_binding ::
  "('w, 'h, 'm) api_env_scheme \<Rightarrow> string \<Rightarrow> string \<Rightarrow> (('c, 'w) proc, unit) prog" where
  "verify_neutron_port_binding env server_id port_id =
     bnd (get_port_attribute env port_id ''binding:profile'') (\<lambda>binding_profile.
     bnd (search_pci_devices env ''instance_uuid'' server_id) (\<lambda>pci_info.
     bnd (get_port_attribute env port_id ''binding:vnic_type'') (\<lambda>vnic_type.
     forM (verify_pci_device binding_profile vnic_type) pci_info)))"

definition get_pci_status_count ::
  "('w, 'h, 'm) api_env_scheme \<Rightarrow> string \<Rightarrow> string option \<Rightarrow> (('c, 'w) proc, json) prog" where
  "get_pci_status_count env status pci_address =
     (let db_client = DatabaseClient env;
          db = nova_cell1_db_name (cfg env);
          query = ''select COUNT(*) from pci_devices WHERE status = \"'' @ status @ ''\"'';
          query = (if truthy pci_address then query @ '' AND address = \"'' @ fmt pci_address @ ''\"''
                   else query)
      in bnd (with_cm (cursor env db_client db False) (\<lambda>c.
                seqp (external (cursor_execute env c query))
                (external (cursor_fetchall env c)))) (\<lambda>data.
         of_result (bind_res (py_nth data 0) (\<lambda>row. json_key row ''COUNT(*)''))))"

text \<open>\<^verbatim>\<open>.memoryBacking/hugepages/page\<close>: the leading dot is a step of its own.\<close>

definition get_hugepage_xml_element ::
  "('w, 'h, 'm) api_env_scheme \<Rightarrow> string \<Rightarrow> (('c, 'w) proc, xml list) prog" where
  "get_hugepage_xml_element env server_id =
     bnd (get_server_xml env server_id) (\<lambda>root.
     ret (findall root [Child ''memoryBacking'', Child ''hugepages'', Child ''page'']))"

section \<open>A deployment in which nothing happens\<close>

text \<open>Every call succeeds and changes nothing; concrete deployments are built from it.\<close>

definition idle_api :: "('w, unit) api_env" where
  "idle_api = \<lparr>cfg = default_conf 300 1 ''img'' ''10.0.0.0/24'',
     read_nodes_yaml = (\<lambda>p w. (Inr [], w)), ssh_exec = (\<lambda>a u k c w. (Inr [], w)),
     clock = (\<lambda>w. 0), sleep = (\<lambda>n w. w), list_services = (\<lambda>h b w. (Inr [], w)),
     services_timeout = 10, services_interval = 1, list_migrations = (\<lambda>w. (Inr [], w)),
     list_rp_traits = (\<lambda>p w. (Inr [], w)),
     open_tunnel = (\<lambda>g u k r l w. (Inr (), w)), close_tunnel = (\<lambda>h w. (Inr (), w)),
     connect = (\<lambda>h p u pw d w. (Inr (), w)), open_cursor = (\<lambda>h w. (Inr (), w)),
     close_cursor = (\<lambda>h w. (Inr (), w)), commit_conn = (\<lambda>h w. (Inr (), w)),
     close_conn = (\<lambda>h w. (Inr (), w)),
     class_name = ''Test'', resource_name_prefix = ''tempest'', fmt_json = (\<lambda>v. ''None''),
     et_fromstring = (\<lambda>t. Inl (OtherError t)), rand_name = (\<lambda>p n w. (Inr n, w)),
     tempest_create_test_server = (\<lambda>kw w. (Inr [], w)), delete_server = (\<lambda>i w. (Inr (), w)),
     wait_for_server_termination = (\<lambda>i w. (Inr (), w)),
     tempest_create_flavor = (\<lambda>r v d n p kw w. (Inr [], w)),
     set_flavor_extra_spec = (\<lambda>i sp w. (Inr (), w)),
     keypairs_create = (\<lambda>kw w. (Inr [], w)), delete_keypair = (\<lambda>n w. (Inr (), w)),
     servers_reboot = (\<lambda>i t w. (Inr (), w)), wait_for_server_status = (\<lambda>c i st w. (Inr (), w)),
     show_image = (\<lambda>i w. (Inr [(''container_format'', ''bare''), (''disk_format'', ''qcow2''),
       (''min_disk'', ''0''), (''min_ram'', ''0'')], w)),
     show_image_file = (\<lambda>i w. (Inr [], w)), create_image = (\<lambda>kw w. (Inr [], w)),
     delete_image = (\<lambda>i w. (Inr (), w)), store_image_file = (\<lambda>i d w. (Inr (), w)),
     show_server = (\<lambda>i w. (Inr [], w)), get_host_for_server = (\<lambda>i w. (Inr [], w)),
     live_migrate_server = (\<lambda>i b t w. (Inr (), w)), servers_evacuate = (\<lambda>i kw w. (Inr (), w)),
     list_volumes = (\<lambda>w. (Inr [], w)), delete_volume_ignoring_notfound = (\<lambda>v w. (Inr (), w)),
     wait_for_volume_deletion = (\<lambda>v w. (Inr (), w)),
     volume_types_create = (\<lambda>n sp kw w. (Inr [], w)), delete_volume_type = (\<lambda>i w. (Inr (), w)),
     encryption_types_create = (\<lambda>i p k c l w. (Inr (), w)),
     tempest_create_volume = (\<lambda>t w. (Inr [], w)), show_port = (\<lambda>i w. (Inr [], w)),
     create_network = (\<lambda>n d w. (Inr [], w)), delete_network = (\<lambda>i w. (Inr (), w)),
     create_subnet = (\<lambda>n i c v w. (Inr [], w)), delete_subnet = (\<lambda>i w. (Inr (), w)),
     create_port = (\<lambda>i p w. (Inr [], w)), delete_port = (\<lambda>i w. (Inr (), w)),
     cursor_execute = (\<lambda>h q w. (Inr (), w)), cursor_fetchall = (\<lambda>h w. (Inr [], w))\<rparr>"

end
