(* ===== verification/All_Computes.thy ===== *)
theory All_Computes
  imports Compute_Base
begin

text \<open>
  \<^verbatim>\<open>config_all_computes\<close> of \<^verbatim>\<open>whitebox_tempest_plugin/api/compute/base.py\<close>: the options of every compute
  service of the deployment are changed for the duration of a block. The promise of
  \<^verbatim>\<open>config_options\<close> for one host is lifted to all of them: what is done on one host leaves the
  configuration of the others alone.
\<close>

section \<open>Several hosts\<close>

type_synonym 'w config_view = "'w \<Rightarrow> string \<times> string \<Rightarrow> string option"

text \<open>
  A view of a configuration that is somebody else's: no command on the host of the manager changes
  it, nor does asking Nova or sleeping.
\<close>

definition bystander :: "('w, 'm) nova_env_scheme \<Rightarrow> service_manager \<Rightarrow> 'w config_view \<Rightarrow> bool" where
  "bystander env self view \<longleftrightarrow> (\<forall>f. polling_keeps env (\<lambda>w. view w = f)) \<and>
     (\<forall>command w. view (snd (as_root env self command w)) = view w)"

text \<open>Managers with the configurations they manage, each a bystander of the others.\<close>

fun fleet_ok :: "('w, 'm) nova_env_scheme \<Rightarrow> (service_manager \<times> 'w config_view) list \<Rightarrow> bool" where
  "fleet_ok env [] = True"
| "fleet_ok env ((self, view) # fleet) = (store_ok env self view \<and>
     (\<forall>(other, view') \<in> set fleet. bystander env self view' \<and> bystander env other view) \<and>
     fleet_ok env fleet)"

lemma bystander_manager_keeps:
  "bystander env self view \<Longrightarrow> manager_keeps env self (\<lambda>w. view w = f)"
  by (auto simp: bystander_def manager_keeps_def)

lemma keeps_bystander_command:
  assumes "bystander env self view"
  shows "keeps (\<lambda>s. view (world s) = f) (execute env self command None True)"
  unfolding execute_as_root
  using assms by (intro keeps_external) (auto simp: bystander_def)

lemma keeps_bystander_get:
  "bystander env self view \<Longrightarrow> keeps (\<lambda>s. view (world s) = f) (get_conf_opt env self a b)"
  unfolding get_conf_opt_def Let_def
  by (intro keeps_try_except keeps_bnd keeps_bystander_command keeps_ret)
    (auto intro: keeps_ret keeps_raise split: exn.split)

lemma keeps_bystander_set:
  "bystander env self view \<Longrightarrow> keeps (\<lambda>s. view (world s) = f) (set_conf_opt env self a b v)"
  unfolding set_conf_opt_def Let_def by (rule keeps_bystander_command)

lemma keeps_bystander_restore:
  assumes "bystander env self view"
  shows "keeps (\<lambda>s. view (world s) = f) (restore env self old)"
  unfolding restore_def
  by (intro keeps_seqp keeps_forM keeps_restart [OF bystander_manager_keeps [OF assms]])
    (auto intro!: keeps_seqp keeps_ret keeps_bystander_set [OF assms])

lemma keeps_bystander_options:
  assumes "bystander env self view"
  shows "keeps_cm (\<lambda>s. view (world s) = f) (config_options env self opts)"
proof -
  note steps = keeps_bystander_get [OF assms] keeps_bystander_set [OF assms]
    keeps_restart [OF bystander_manager_keeps [OF assms]]
  have enter: "keeps (\<lambda>s. view (world s) = f) (mapM (save_and_set env self) opts)"
    by (intro keeps_mapM) (auto simp: save_and_set_def intro!: keeps_bnd keeps_seqp keeps_ret steps)
  have "keeps (\<lambda>s. view (world s) = f) (config_options env self opts)"
    unfolding config_options_def by (intro keeps_bnd keeps_seqp keeps_ret enter steps)
  moreover have "\<exists>old. leave = restore env self old"
    if "config_options env self opts s = Some (Inr (v, leave), s')" for s v leave s'
    using that by (auto simp: config_options_def bnd_Inr_iff seqp_Inr_iff prog_simps)
  ultimately show ?thesis
    unfolding keeps_cm_def using keeps_bystander_restore [OF assms] by blast
qed

section \<open>The block is entered on every host and left on every host\<close>

text \<open>
  Entering managers one after the other, and nothing else: either all of them are entered, or the one
  with the given number is the first that fails, with the given exception. The body of a block has no
  part in this.
\<close>

primrec enter_all :: "('s, 'v) cm list \<Rightarrow> 's \<Rightarrow> ((nat \<times> exn) option \<times> 's) option" where
  "enter_all [] s = Some (None, s)"
| "enter_all (c # cs) s = (case c s of
       None \<Rightarrow> None
     | Some (Inl e, s') \<Rightarrow> Some (Some (0, e), s')
     | Some (Inr _, s') \<Rightarrow> map_option (\<lambda>(failed, t). (map_option (map_prod Suc id) failed, t)) (enter_all cs s'))"

text \<open>The exits of the hosts of a fleet that was configured in \<open>s\<close>, the last host first.\<close>

definition exits ::
  "('w, 'm) nova_env_scheme \<Rightarrow> (string \<times> string \<times> string option) list \<Rightarrow> ('c, 'w) proc \<Rightarrow>
   (service_manager \<times> 'w config_view) list \<Rightarrow> (('c, 'w) proc, unit) prog list" where
  "exits env opts s fleet = rev (map (\<lambda>(self, view). restore env self (saved (view (world s)) opts)) fleet)"

definition restored :: "(service_manager \<times> 'w config_view) list \<Rightarrow> ('c, 'w) proc \<Rightarrow> ('c, 'w) proc \<Rightarrow> bool" where
  "restored fleet s s' \<longleftrightarrow> (\<forall>(self, view) \<in> set fleet. view (world s') = view (world s))"

text \<open>
  What a block on a fleet gives that is entered from \<open>s\<close>, left in \<open>s'\<close> with the outcome \<open>r\<close>, if all
  hosts were entered and this led to \<open>t\<close>. Every host has the new options in \<open>t\<close>; the body is run
  from \<open>t\<close>; its outcome goes through the exits of all hosts; and every host is restored.
\<close>

definition entered_post ::
  "('w, 'm) nova_env_scheme \<Rightarrow> (service_manager \<times> 'w config_view) list \<Rightarrow>
   (string \<times> string \<times> string option) list \<Rightarrow> (unit list \<Rightarrow> (('c, 'w) proc, 'a) prog) \<Rightarrow>
   ('c, 'w) proc \<Rightarrow> ('c, 'w) proc \<Rightarrow> 'a result \<Rightarrow> ('c, 'w) proc \<Rightarrow> bool" where
  "entered_post env fleet opts body s t r s' \<longleftrightarrow>
     (\<forall>(self, view) \<in> set fleet. view (world t) = put_all opts (view (world s))) \<and>
     (\<exists>r0 s2. body (replicate (length fleet) ()) t = Some (r0, s2) \<and>
        unwind (exits env opts s fleet) r0 s2 = Some (r, s')) \<and>
     restored fleet s s'"

text \<open>
  The same if entering host number \<open>k\<close> failed with \<open>e\<close>, in \<open>t\<close>. The body has no part in the outcome:
  only the exits of the hosts before number \<open>k\<close> are run, from \<open>t\<close> on. Number \<open>k\<close> is left with the new
  options, and every other host has the configuration it had.
\<close>

definition failed_post ::
  "('w, 'm) nova_env_scheme \<Rightarrow> (service_manager \<times> 'w config_view) list \<Rightarrow>
   (string \<times> string \<times> string option) list \<Rightarrow> ('c, 'w) proc \<Rightarrow> nat \<Rightarrow> exn \<Rightarrow>
   ('c, 'w) proc \<Rightarrow> 'a result \<Rightarrow> ('c, 'w) proc \<Rightarrow> bool" where
  "failed_post env fleet opts s k e t r s' \<longleftrightarrow> k < length fleet \<and>
     unwind (exits env opts s (take k fleet)) (Inl e) t = Some (r, s') \<and>
     (\<forall>j < length fleet. snd (fleet ! j) (world s') =
        (if j = k then put_all opts (snd (fleet ! j) (world s)) else snd (fleet ! j) (world s)))"

definition fleet_post ::
  "('w, 'm) nova_env_scheme \<Rightarrow> (service_manager \<times> 'w config_view) list \<Rightarrow>
   (string \<times> string \<times> string option) list \<Rightarrow> (unit list \<Rightarrow> (('c, 'w) proc, 'a) prog) \<Rightarrow>
   ('c, 'w) proc \<Rightarrow> (nat \<times> exn) option \<Rightarrow> ('c, 'w) proc \<Rightarrow> 'a result \<Rightarrow> ('c, 'w) proc \<Rightarrow> bool" where
  "fleet_post env fleet opts body s failed t r s' \<longleftrightarrow> (case failed of
       None \<Rightarrow> entered_post env fleet opts body s t r s'
     | Some (k, e) \<Rightarrow> failed_post env fleet opts s k e t r s')"

lemma enter_all_keeps:
  assumes "\<And>c. c \<in> set cs \<Longrightarrow> keeps I c" and "I s" and "enter_all cs s = Some (failed, t)"
  shows "I t"
  using assms
proof (induction cs arbitrary: s failed)
  case (Cons c cs)
  obtain q s1 where c: "c s = Some (q, s1)" using Cons.prems(3) by (auto split: option.splits)
  then have s1: "I s1" using Cons.prems(1,2) by (auto dest: keepsD)
  show ?case
  proof (cases q)
    case (Inr x)
    then obtain failed' where "enter_all cs s1 = Some (failed', t)" using Cons.prems(3) c by auto
    with Cons.IH [of s1 failed'] Cons.prems(1) s1 show ?thesis by simp
  qed (use Cons.prems(3) c s1 in simp)
qed simp

lemma exits_Cons:
  "exits env opts s ((self, view) # fleet) = exits env opts s fleet @ [restore env self (saved (view (world s)) opts)]"
  by (simp add: exits_def)

lemma exits_same:
  assumes "\<And>m v. (m, v) \<in> set fleet \<Longrightarrow> v (world s1) = v (world s)"
  shows "exits env opts s1 fleet = exits env opts s fleet"
  using assms unfolding exits_def by (intro arg_cong [where f = rev] map_cong) auto

text \<open>
  The block around one host, once this is entered: the inner block is run and the host's configuration
  is restored. Bystanders see the inner block only.
\<close>

lemma one_host_left:
  fixes s :: "('c, 'w) proc"
  assumes store: "store_ok env self view" and opts: "good_opts opts" and old: "good_present (view (world s)) opts"
    and s2: "view (world s2) = put_all opts (view (world s))"
  obtains r s3 where "unwind [restore env self (saved (view (world s)) opts)] r1 s2 = Some (r, s3)"
    "view (world s3) = view (world s)" "\<And>v. bystander env self v \<Longrightarrow> v (world s3) = v (world s2)"
proof -
  obtain q s3 where exit: "restore env self (saved (view (world s)) opts) s2 = Some (q, s3)"
    and view: "\<forall>k. view (world s3) k = (if k \<in> set (opt_keys opts) then view (world s) k else view (world s2) k)"
    using restore_restores [OF store opts old, of s2] by blast
  have "view (world s3) = view (world s)"
    using view s2 by (auto simp: put_all_other)
  moreover have "v (world s3) = v (world s2)" if "bystander env self v" for v
    using keeps_bystander_restore [OF that] exit by (auto dest: keepsD)
  ultimately show thesis
    using exit by (cases q) (auto intro!: that)
qed

lemma entered_post_Cons:
  fixes s :: "('c, 'w) proc"
  assumes post: "entered_post env fleet opts (\<lambda>vs. body (() # vs)) s1 t r1 s2"
    and t: "view (world t) = put_all opts (view (world s))"
    and leave: "unwind [restore env self (saved (view (world s)) opts)] r1 s2 = Some (r, s3)"
      "view (world s3) = view (world s)"
    and same: "\<And>m v. (m, v) \<in> set fleet \<Longrightarrow> v (world s1) = v (world s) \<and> v (world s3) = v (world s2)"
  shows "entered_post env ((self, view) # fleet) opts body s t r s3"
proof -
  obtain r0 sb where body: "body (() # replicate (length fleet) ()) t = Some (r0, sb)"
    and unwind: "unwind (exits env opts s1 fleet) r0 sb = Some (r1, s2)"
    using post by (auto simp: entered_post_def)
  have "exits env opts s1 fleet = exits env opts s fleet"
    using same by (intro exits_same) blast
  with unwind leave(1) have "unwind (exits env opts s ((self, view) # fleet)) r0 sb = Some (r, s3)"
    by (simp add: exits_Cons unwind_append)
  with body t leave(2) post same show ?thesis
    by (fastforce simp: entered_post_def restored_def)
qed

lemma failed_post_Cons:
  fixes s :: "('c, 'w) proc"
  assumes post: "failed_post env fleet opts s1 k e t r1 s2"
    and leave: "unwind [restore env self (saved (view (world s)) opts)] r1 s2 = Some (r, s3)"
      "view (world s3) = view (world s)"
    and same: "\<And>m v. (m, v) \<in> set fleet \<Longrightarrow> v (world s1) = v (world s) \<and> v (world s3) = v (world s2)"
  shows "failed_post env ((self, view) # fleet) opts s (Suc k) e t r s3"
proof -
  have unwind: "unwind (exits env opts s1 (take k fleet)) (Inl e) t = Some (r1, s2)"
    using post by (simp add: failed_post_def)
  have "exits env opts s1 (take k fleet) = exits env opts s (take k fleet)"
    by (rule exits_same) (use same in \<open>blast dest: in_set_takeD\<close>)
  with unwind leave(1) have "unwind (exits env opts s ((self, view) # take k fleet)) (Inl e) t = Some (r, s3)"
    by (simp add: exits_Cons unwind_append)
  moreover have "snd (fleet ! j) (world s1) = snd (fleet ! j) (world s) \<and>
      snd (fleet ! j) (world s3) = snd (fleet ! j) (world s2)" if "j < length fleet" for j
    using same [of "fst (fleet ! j)" "snd (fleet ! j)"] that by simp
  ultimately show ?thesis
    using post leave(2) by (auto simp: failed_post_def nth_Cons split: nat.split)
qed

lemma failed_post_first:
  assumes "view (world t) = put_all opts (view (world s))"
    and "\<And>m v. (m, v) \<in> set fleet \<Longrightarrow> v (world t) = v (world s)"
  shows "failed_post env ((self, view) # fleet) opts s 0 e t (Inl e) t"
proof -
  have "snd (fleet ! j) (world t) = snd (fleet ! j) (world s)" if "j < length fleet" for j
    using assms(2) [of "fst (fleet ! j)" "snd (fleet ! j)"] that by simp
  with assms(1) show ?thesis
    by (auto simp: failed_post_def exits_def nth_Cons split: nat.split)
qed

text \<open>A host is entered, and a block on the other hosts is run within.\<close>

lemma fleet_config_Cons:
  fixes env :: "('w, 'm) nova_env_scheme" and opts s
    and body :: "unit list \<Rightarrow> (('c, 'w) proc, 'a) prog"
  defines "cms \<equiv> \<lambda>fleet. map (\<lambda>(self, view). config_options env self opts) fleet"
  assumes fleet: "fleet_ok env ((self, view) # fleet)" and opts: "good_opts opts"
    and old: "good_present (view (world s)) opts"
    and body: "\<And>us f. keeps (\<lambda>s. view (world s) = f) (body us)"
    and enter: "config_options env self opts s = Some (Inr ((), restore env self (saved (view (world s)) opts)), s1)"
      "view (world s1) = put_all opts (view (world s))"
    and same: "\<And>m v. (m, v) \<in> set fleet \<Longrightarrow> v (world s1) = v (world s)"
    and inner: "with_stack (cms fleet) [] [] (\<lambda>vs. body (() # vs)) s1 = Some (r1, s2)"
      "enter_all (cms fleet) s1 = Some (failed, t)"
    and post: "fleet_post env fleet opts (\<lambda>vs. body (() # vs)) s1 failed t r1 s2"
  shows "\<exists>r s'. with_stack (cms ((self, view) # fleet)) [] [] body s = Some (r, s') \<and>
    enter_all (cms ((self, view) # fleet)) s = Some (map_option (map_prod Suc id) failed, t) \<and>
    fleet_post env ((self, view) # fleet) opts body s (map_option (map_prod Suc id) failed) t r s'"
proof -
  have store: "store_ok env self view"
    and others: "\<And>m v. (m, v) \<in> set fleet \<Longrightarrow> bystander env self v \<and> bystander env m view"
    using fleet by auto
  have kept: "keeps_cm (\<lambda>s. view (world s) = view (world s1)) c" if "c \<in> set (cms fleet)" for c
    using that others by (auto simp: cms_def intro: keeps_bystander_options)
  then have "view (world t) = view (world s1)"
    using enter_all_keeps [of "cms fleet" "\<lambda>s. view (world s) = view (world s1)" s1 failed t] inner(2)
    unfolding keeps_cm_def by blast
  with enter(2) have t: "view (world t) = put_all opts (view (world s))" by simp
  have "keeps (\<lambda>s. view (world s) = view (world s1)) (with_stack (cms fleet) [] [] (\<lambda>vs. body (() # vs)))"
    using kept body by (intro keeps_with_stack) auto
  then have "view (world s2) = view (world s1)"
    using inner(1) unfolding keeps_def by blast
  with enter(2) have s2: "view (world s2) = put_all opts (view (world s))" by simp
  obtain r s3 where leave: "unwind [restore env self (saved (view (world s)) opts)] r1 s2 = Some (r, s3)"
    "view (world s3) = view (world s)" and left: "\<And>v. bystander env self v \<Longrightarrow> v (world s3) = v (world s2)"
    using one_host_left [OF store opts old s2] by metis
  have "with_stack (cms ((self, view) # fleet)) [] [] body s = Some (r, s3)"
    using enter(1) inner(1) leave(1) with_stack_push [of "cms fleet" "[]" "[()]" "[]" "[_]" body s1] by (simp add: cms_def)
  moreover have "v (world s1) = v (world s) \<and> v (world s3) = v (world s2)" if "(m, v) \<in> set fleet" for m v
    using same [OF that] left others [OF that] by blast
  then have "fleet_post env ((self, view) # fleet) opts body s (map_option (map_prod Suc id) failed) t r s3"
    using post entered_post_Cons [OF _ t leave] failed_post_Cons [OF _ leave]
    by (auto simp: fleet_post_def split: option.splits prod.splits)
  ultimately show ?thesis using enter(1) inner(2) by (simp add: cms_def)
qed

lemma fleet_config:
  fixes env :: "('w, 'm) nova_env_scheme" and s :: "('c, 'w) proc"
    and body :: "unit list \<Rightarrow> (('c, 'w) proc, 'a) prog"
  assumes "fleet_ok env fleet" and opts: "good_opts opts" "distinct (opt_keys opts)"
    and "\<And>self view. (self, view) \<in> set fleet \<Longrightarrow> good_present (view (world s)) opts"
    and "\<And>us. always_returns (body us)"
    and "\<And>self view us f. (self, view) \<in> set fleet \<Longrightarrow> keeps (\<lambda>s. view (world s) = f) (body us)"
  shows "\<exists>r s' failed t. with_stack (map (\<lambda>(self, view). config_options env self opts) fleet) [] [] body s = Some (r, s') \<and>
    enter_all (map (\<lambda>(self, view). config_options env self opts) fleet) s = Some (failed, t) \<and>
    fleet_post env fleet opts body s failed t r s'"
  using assms(1,4-)
proof (induction fleet arbitrary: s body)
  case Nil
  obtain r s' where body: "body [] s = Some (r, s')"
    using always_returnsD [OF Nil.prems(3)] by blast
  then show ?case
    by (simp add: fleet_post_def entered_post_def exits_def restored_def)
next
  case (Cons p fleet)
  obtain self view where p: "p = (self, view)" by (cases p)
  have store: "store_ok env self view" and others: "\<And>m v. (m, v) \<in> set fleet \<Longrightarrow> bystander env self v"
    using Cons.prems(1) by (auto simp: p)
  obtain q s1 where enter: "config_options env self opts s = Some (q, s1)"
    and s1: "view (world s1) = put_all opts (view (world s))"
    and q: "\<And>x. q = Inr x \<Longrightarrow> x = ((), restore env self (saved (view (world s)) opts))"
    using config_options_enters [OF store opts, of s] by blast
  have same: "v (world s1) = v (world s)" if "(m, v) \<in> set fleet" for m v
    using keeps_bystander_options [of env self v "v (world s)" opts] others [OF that] enter
    by (auto simp: keeps_cm_def dest: keepsD)
  show ?case
  proof (cases q)
    case (Inl e)
    with enter failed_post_first [of view s1 opts s fleet env self e] s1 same show ?thesis
      by (auto simp: p fleet_post_def)
  next
    case (Inr x)
    have "\<exists>r s' failed t. with_stack (map (\<lambda>(self, view). config_options env self opts) fleet) [] [] (\<lambda>vs. body (() # vs)) s1 =
          Some (r, s') \<and>
        enter_all (map (\<lambda>(self, view). config_options env self opts) fleet) s1 = Some (failed, t) \<and>
        fleet_post env fleet opts (\<lambda>vs. body (() # vs)) s1 failed t r s'"
    proof (rule Cons.IH)
      show "keeps (\<lambda>s. v (world s) = f) (body (() # us))" if "(m, v) \<in> set fleet" for m v us f
        using Cons.prems(4) [of m v f "() # us"] that by simp
    qed (use Cons.prems same in \<open>auto simp: p\<close>)
    with fleet_config_Cons [of env self view fleet opts s body s1] enter Inr q s1 same opts(1) Cons.prems
    show ?thesis unfolding p by fastforce
  qed
qed

section \<open>Two hosts\<close>

text \<open>
  A deployment of two compute hosts, each with a configuration file on which \<^verbatim>\<open>crudini\<close> works and a
  compute service whose state Nova reports at once.
\<close>

type_synonym two_hosts = "(string \<Rightarrow> ini) \<times> (string \<Rightarrow> bool) \<times> int"

definition host_exec :: "string \<Rightarrow> string \<Rightarrow> (two_hosts, string) ext" where
  "host_exec h command = (\<lambda>(files, up, t).
     if command = ''sudo start'' then (Inr [], (files, up(h := True), t))
     else if command = ''sudo stop'' then (Inr [], (files, up(h := False), t))
     else (case ini_exec command (files h, t) of (r, (f, t')) \<Rightarrow> (r, (files(h := f), up, t'))))"

definition compute_service :: "(string \<Rightarrow> bool) \<Rightarrow> string \<Rightarrow> api_object" where
  "compute_service up h = [(''host'', h), (''state'', if up h then ''up'' else ''down'')]"

definition fleet_env :: "two_hosts nova_env" where
  "fleet_env = \<lparr>cfg = default_conf 300 1 ''img'' ''10.0.0.0/24'',
      read_nodes_yaml = (\<lambda>p w. (Inr [], w)),
      ssh_exec = (\<lambda>a u k. host_exec a),
      clock = (\<lambda>(files, up, t). t), sleep = (\<lambda>n (files, up, t). (files, up, t + n)),
      list_services = (\<lambda>h b (files, up, t). (Inr (map (compute_service up)
        (case h of None \<Rightarrow> [''c1'', ''c2''] | Some x \<Rightarrow> [x])), (files, up, t))),
      services_timeout = 10, services_interval = 1,
      list_migrations = (\<lambda>w. (Inr [], w)),
      list_rp_traits = (\<lambda>p w. (Inr [], w))\<rparr>"

definition compute_details :: host_details where
  "compute_details = \<lparr>hd_services = Some [(''nova-compute'', [(''config_path'', ''/etc/nova.conf''),
      (''start_command'', ''start''), (''stop_command'', ''stop'')])],
    hd_cpu_dedicated_set = None, hd_cpu_shared_set = None\<rparr>"

definition fleet_manager :: "string \<Rightarrow> service_manager" where
  "fleet_manager h = \<lparr>ssh_key = ''/home/stack/.ssh/id_rsa'', ssh_user = ''heat-admin'',
     host_parameters = Some compute_details, ctlplane_address = h,
     sm_class = NovaManager, sm_host = h, sm_service = ''nova-compute'',
     config_path = Some ''/etc/nova.conf'', start_command = Some ''start'', stop_command = Some ''stop'',
     mask_command = None, unmask_command = None\<rparr>"

definition fleet_view :: "string \<Rightarrow> two_hosts config_view" where
  "fleet_view h = (\<lambda>(files, up, t). ini_view (files h, t))"

definition fleet_state :: "(unit, two_hosts) proc" where
  "fleet_state = \<lparr>nodes_cache = Some [(''c1'', compute_details), (''c2'', compute_details)],
     cleanups = [], world = ((\<lambda>h k. None), (\<lambda>h. True), 0)\<rparr>"

lemma fleet_as_root: "as_root fleet_env (fleet_manager h) c = host_exec h (''sudo '' @ c)"
  by (simp add: as_root_def fleet_env_def fleet_manager_def)

lemma fleet_path: "fmt (config_path (fleet_manager h)) = ''/etc/nova.conf''"
  by (simp add: fleet_manager_def fmt_def)

lemma host_exec_crudini:
  "host_exec h (''sudo '' @ ''crudini '' @ c) (files, up, t) =
     (case ini_exec (''sudo '' @ ''crudini '' @ c) (files h, t) of (r, (f, t')) \<Rightarrow> (r, (files(h := f), up, t')))"
  by (simp add: host_exec_def)

lemma ini_exec_time: "snd (snd (ini_exec c (f, t))) = t"
  by (auto simp: ini_exec_def Let_def split: option.split)

lemma fleet_crudini_ok: "crudini_ok fleet_env (fleet_manager h) (fleet_view h)"
  unfolding crudini_ok_def fleet_as_root fleet_path
proof (intro allI impI conjI)
  fix a b :: string and w :: two_hosts
  assume words: "shell_word a" "shell_word b"
  obtain files up t where w: "w = (files, up, t)" by (cases w)
  show "\<exists>r w'. host_exec h (''sudo '' @ ''crudini --get '' @ ''/etc/nova.conf'' @ '' '' @ a @ '' '' @ b) w = (r, w') \<and>
      fleet_view h w' = fleet_view h w \<and>
      (case fleet_view h w (a, b) of
         Some v \<Rightarrow> (\<exists>out. r = Inr out \<and> py_strip out = v)
       | None \<Rightarrow> (\<exists>msg. r = Inl (SSHExecCommandFailed msg) \<and> py_in ''not found'' msg))"
    using ini_get_exec [OF words, of "files h" t] host_exec_crudini [of h "''--get /etc/nova.conf '' @ a @ '' '' @ b" files up t]
    by (cases "files h (a, b)") (simp_all add: w fleet_view_def ini_view_def strip_by_snoc not_found_message)
  show "\<exists>out w'. host_exec h (''sudo '' @ ''crudini --del '' @ ''/etc/nova.conf'' @ '' '' @ a @ '' '' @ b) w =
      (Inr out, w') \<and> fleet_view h w' = (fleet_view h w)((a, b) := None)"
    using ini_del_exec [OF words, of "files h" t] host_exec_crudini [of h "''--del /etc/nova.conf '' @ a @ '' '' @ b" files up t]
    by (auto simp: w fleet_view_def ini_view_def)
  fix v :: string assume v: "shell_word v"
  show "\<exists>out w'. host_exec h (''sudo '' @ ''crudini --set '' @ ''/etc/nova.conf'' @ '' '' @ a @ '' '' @ b @ '' '' @ v) w =
      (Inr out, w') \<and> fleet_view h w' = (fleet_view h w)((a, b) := Some v)"
    using ini_set_exec [OF words v, of "files h" t] host_exec_crudini [of h "''--set /etc/nova.conf '' @ a @ '' '' @ b @ '' '' @ v" files up t]
    by (auto simp: w fleet_view_def ini_view_def strip_shell_word [OF v])
qed

lemma fleet_bystander:
  assumes "h \<noteq> h'"
  shows "bystander fleet_env (fleet_manager h) (fleet_view h')"
  unfolding bystander_def fleet_as_root
  using assms
  by (auto simp: polling_keeps_def fleet_env_def fleet_view_def ini_view_def host_exec_def split: prod.split)

lemma fleet_store_ok: "store_ok fleet_env (fleet_manager h) (fleet_view h)"
proof -
  have "service_clock_ok fleet_env"
    by (auto simp: service_clock_ok_def sleep_advances_def never_back_def fleet_env_def)
  moreover have "manager_keeps fleet_env (fleet_manager h) (\<lambda>w. fleet_view h w = f)" for f
    unfolding manager_keeps_def fleet_as_root
    by (auto simp: fleet_manager_def fmt_def polling_keeps_def fleet_env_def fleet_view_def ini_view_def
        host_exec_def ini_other_exec)
  ultimately show ?thesis by (simp add: store_ok_def fleet_crudini_ok)
qed

lemma fleet_two_ok:
  "fleet_ok fleet_env [(fleet_manager ''c1'', fleet_view ''c1''), (fleet_manager ''c2'', fleet_view ''c2'')]"
  by (simp add: fleet_store_ok fleet_bystander)

lemma fleet_wait:
  assumes "world s = (files, up, t)" and "state = (if up h then ''up'' else ''down'')"
  shows "wait_for_nova_service_state fleet_env h b ''state'' state s = Some (Inr (), s)"
proof -
  have "poll_service fleet_env h b (world s) = (Inr (compute_service up h), world s)"
    by (simp add: poll_service_def fleet_env_def py_first_def assms(1))
  moreover have "service_state_step (fleet_env, service_query fleet_env h b ''state'' state t0)
      (compute_service up h, s) = Inl (Inr (), s)" for t0
    by (simp add: service_state_step_def service_query_def compute_service_def assms(2))
  ultimately show ?thesis
    by (simp add: run_service_wait iterate.simps)
qed

lemma fleet_restart:
  fixes s :: "('c, two_hosts) proc"
  shows "\<exists>s'. restart fleet_env (fleet_manager h) s = Some (Inr (), s')"
proof -
  obtain files up t where w: "world s = (files, up, t)" by (cases "world s")
  let ?s1 = "s\<lparr>world := (files, up(h := False), t)\<rparr>"
  have m: "sm_class (fleet_manager h) = NovaManager" "sm_host (fleet_manager h) = h"
    "fmt (start_command (fleet_manager h)) = ''start''" "fmt (stop_command (fleet_manager h)) = ''stop''"
    by (simp_all add: fleet_manager_def fmt_def)
  have "execute fleet_env (fleet_manager h) ''stop'' None True s = Some (Inr [], ?s1)"
    by (simp add: execute_as_root fleet_as_root external_def w host_exec_def)
  then have stop: "stop fleet_env (fleet_manager h) s = Some (Inr (Some []), ?s1)"
    by (simp add: stop_def nova_stop_def m bnd_def seqp_def ret_def fleet_wait)
  have "execute fleet_env (fleet_manager h) ''start'' None True ?s1 =
      Some (Inr [], ?s1\<lparr>world := (files, up(h := True), t)\<rparr>)"
    by (simp add: execute_as_root fleet_as_root external_def host_exec_def)
  then have "\<exists>s2. start fleet_env (fleet_manager h) ?s1 = Some (Inr (Some []), s2)"
    by (simp add: start_def nova_start_def m bnd_def seqp_def ret_def fleet_wait)
  with stop show ?thesis
    by (auto simp: restart_def seqp_def bnd_def ret_def)
qed

lemma fleet_restart_succeeds: "restart fleet_env (fleet_manager h) s \<noteq> Some (Inl e, s')"
  using fleet_restart [of h s] by auto

lemma fleet_managers:
  "mapM (\<lambda>compute. NovaServiceManager fleet_env compute ''nova-compute'') [''c1'', ''c2''] fleet_state =
   Some (Inr [fleet_manager ''c1'', fleet_manager ''c2''], fleet_state)"
  by (simp add: NovaServiceManager_def new_manager_def bnd_def run_SSHClient get_host_details_def
      fleet_state_def compute_details_def require_section_cases get_ctlplane_address_def fleet_env_def
      default_conf_def of_result_def ret_def fleet_manager_def ssh_client.defs)

section \<open>Properties\<close>

lemma new_manager_keeps_state:
  fixes s :: "('c, 'w) proc"
  assumes "nodes_cache s = Some ns"
  shows "keeps (\<lambda>t. t = s) (NovaServiceManager env host service)"
  using assms
  by (auto simp: keeps_def NovaServiceManager_def new_manager_def bnd_def run_SSHClient
      get_host_details_def of_result_def ret_def split: option.splits sum.splits prod.splits)

lemma fleet_ok_store: "fleet_ok env fleet \<Longrightarrow> (self, view) \<in> set fleet \<Longrightarrow> store_ok env self view"
  by (induction fleet) auto

lemma list_compute_hosts_keeps:
  assumes "store_ok env self view" and "list_compute_hosts env s = Some (r, s0)"
  shows "view (world s0) = view (world s) \<and> nodes_cache s0 = nodes_cache s"
proof -
  have "view (snd (list_services env None ''nova-compute'' (world s))) = view (world s)"
    using assms(1) by (simp add: store_ok_def manager_keeps_def polling_keeps_def)
  then show ?thesis
    using assms(2) by (auto simp: list_compute_hosts_def bnd_def prog_simps split: sum.splits)
qed

text \<open>Starting a little later, with all configurations unchanged, makes no difference.\<close>

lemma fleet_post_start:
  assumes post: "fleet_post env fleet opts body s0 failed t r s'"
    and same: "\<And>self view. (self, view) \<in> set fleet \<Longrightarrow> view (world s0) = view (world s)"
  shows "fleet_post env fleet opts body s failed t r s'"
proof -
  have "exits env opts s0 fleet = exits env opts s fleet"
    and "exits env opts s0 (take k fleet) = exits env opts s (take k fleet)" for k
    by (rule exits_same, use same in \<open>blast dest: in_set_takeD\<close>)+
  moreover have "snd (fleet ! j) (world s0) = snd (fleet ! j) (world s)" if "j < length fleet" for j
    using same [of "fst (fleet ! j)" "snd (fleet ! j)"] that by simp
  ultimately show ?thesis
    using post same
    by (fastforce simp: fleet_post_def entered_post_def failed_post_def restored_def split: option.splits)
qed

text \<open>C2. Changing options on all compute hosts keeps its promise to every one of them, for a body that returns
  and leaves these configurations alone. Entering the block takes the hosts one after the other and is the
  same whatever the body is. If all hosts can be entered, each has the new values when the body
  starts; the body is run from there; and however it ends, each host gets back the configuration it had. The outcome
  of the block is that of the body, or the exception of the last exit that raised; all exits are run.
  If entering a host fails, the body is not run: what happens is that the exits of the hosts before it are run.
  This host, and no other, is left with the new options; every other host has the configuration it had.
  The conditions are those of \<^verbatim>\<open>config_options\<close> on each host, and that nothing that is done to one
  host changes the configuration of another.\<close>

theorem config_all_computes_restores:
  fixes s :: "('c, 'w) proc"
  assumes cached: "nodes_cache s = Some ns"
    and hosts: "list_compute_hosts env s = Some (Inr hosts, s0)"
    and mgrs: "mapM (\<lambda>h. NovaServiceManager env h ''nova-compute'') hosts s0 = Some (Inr (map fst fleet), s1)"
    and fleet: "fleet_ok env fleet" and opts: "good_opts opts" "distinct (opt_keys opts)"
    and old: "\<And>self view. (self, view) \<in> set fleet \<Longrightarrow> good_present (view (world s)) opts"
    and body: "\<And>us. always_returns (body us)"
      "\<And>self view us f. (self, view) \<in> set fleet \<Longrightarrow> keeps (\<lambda>s. view (world s) = f) (body us)"
  shows "\<exists>r s' failed t. config_all_computes env opts body s = Some (r, s') \<and>
    enter_all (map (\<lambda>mgr. config_options env mgr opts) (map fst fleet)) s1 = Some (failed, t) \<and>
    (case failed of
       None \<Rightarrow>
         (\<forall>(self, view) \<in> set fleet. view (world t) = put_all opts (view (world s))) \<and>
         (\<exists>r0 s2. body (replicate (length fleet) ()) t = Some (r0, s2) \<and>
            unwind (rev (map (\<lambda>(self, view). restore env self (saved (view (world s)) opts)) fleet)) r0 s2 = Some (r, s')) \<and>
         (\<forall>(self, view) \<in> set fleet. view (world s') = view (world s))
     | Some (k, e) \<Rightarrow> k < length fleet \<and>
         unwind (rev (map (\<lambda>(self, view). restore env self (saved (view (world s)) opts)) (take k fleet))) (Inl e) t =
           Some (r, s') \<and>
         (\<forall>j < length fleet. snd (fleet ! j) (world s') =
            (if j = k then put_all opts (snd (fleet ! j) (world s)) else snd (fleet ! j) (world s))))"
proof -
  have managers: "map (\<lambda>mgr. config_options env mgr opts) (map fst fleet) =
      map (\<lambda>(self, view). config_options env self opts) fleet"
    by (simp add: comp_def case_prod_beta')
  have "\<exists>r s' failed t. config_all_computes env opts body s = Some (r, s') \<and>
    enter_all (map (\<lambda>(self, view). config_options env self opts) fleet) s1 = Some (failed, t) \<and>
    fleet_post env fleet opts body s failed t r s'"
  proof -
    have kept: "view (world s0) = view (world s) \<and> nodes_cache s0 = nodes_cache s"
      if "(self, view) \<in> set fleet" for self view
      using list_compute_hosts_keeps [OF fleet_ok_store [OF fleet that] hosts] .
    have same: "view (world s1) = view (world s)" if "(self, view) \<in> set fleet" for self view
    proof -
      have "nodes_cache s0 = Some ns" using kept [OF that] cached by simp
      then have "s1 = s0"
        using keepsD [OF keeps_mapM [OF new_manager_keeps_state, of hosts s0 "\<lambda>_. ns"] _ mgrs] by simp
      with kept [OF that] show ?thesis by simp
    qed
    have "\<exists>r s' failed t. with_stack (map (\<lambda>(self, view). config_options env self opts) fleet) [] [] body s1 = Some (r, s') \<and>
        enter_all (map (\<lambda>(self, view). config_options env self opts) fleet) s1 = Some (failed, t) \<and>
        fleet_post env fleet opts body s1 failed t r s'"
      by (rule fleet_config [OF fleet opts]) (use old same body in auto)
    then obtain r s' failed t where
      run: "with_stack (map (\<lambda>(self, view). config_options env self opts) fleet) [] [] body s1 = Some (r, s')"
      and enter: "enter_all (map (\<lambda>(self, view). config_options env self opts) fleet) s1 = Some (failed, t)"
      and post: "fleet_post env fleet opts body s1 failed t r s'"
      by blast
    have "config_all_computes env opts body s = Some (r, s')"
      using hosts mgrs run by (simp add: config_all_computes_def bnd_def Let_def comp_def case_prod_beta')
    with enter fleet_post_start [OF post] same show ?thesis by blast
  qed
  then show ?thesis
    unfolding managers fleet_post_def entered_post_def failed_post_def exits_def restored_def .
qed

lemma fleet_enter_succeeds:
  fixes s :: "(unit, two_hosts) proc"
  assumes "good_opts opts" and "distinct (opt_keys opts)"
  shows "config_options fleet_env (fleet_manager h) opts s \<noteq> Some (Inl e, s')"
  using config_options_enters [OF fleet_store_ok assms, of h s] by (auto simp: fleet_restart_succeeds)

lemma fleet_exit_succeeds:
  fixes s :: "(unit, two_hosts) proc"
  assumes "good_opts opts" and "good_present f opts"
  shows "restore fleet_env (fleet_manager h) (saved f opts) s \<noteq> Some (Inl e, s')"
  using restore_restores [OF fleet_store_ok assms, of h s] by (auto simp: fleet_restart_succeeds)

theorem config_all_computes_restores_witness:
  "\<exists>s'. config_all_computes fleet_env [(''compute'', ''cpu_shared_set'', Some ''0-1'')]
        (\<lambda>_. raise AssertionError) fleet_state = Some (Inl AssertionError :: unit result, s') \<and>
    fleet_view ''c1'' (world s') (''compute'', ''cpu_shared_set'') = None \<and>
    fleet_view ''c2'' (world s') (''compute'', ''cpu_shared_set'') = None"
proof -
  let ?fleet = "[(fleet_manager ''c1'', fleet_view ''c1''), (fleet_manager ''c2'', fleet_view ''c2'')]"
  let ?opts = "[(''compute'', ''cpu_shared_set'', Some ''0-1'')]"
  let ?body = "\<lambda>_. raise AssertionError :: (_, unit) prog"
  let ?managers = "map (\<lambda>mgr. config_options fleet_env mgr ?opts) (map fst ?fleet)"
  let ?exits = "rev (map (\<lambda>(self, view). restore fleet_env self (saved (view (world fleet_state)) ?opts)) ?fleet)"
  have good: "good_opts ?opts" "distinct (opt_keys ?opts)" "good_present (fleet_view h (world fleet_state)) ?opts" for h
    by (simp_all add: good_opts_def good_present_def good_value_def fleet_view_def fleet_state_def ini_view_def)
  have hosts: "list_compute_hosts fleet_env fleet_state = Some (Inr [''c1'', ''c2''], fleet_state)"
    by (simp add: list_compute_hosts_def bnd_def prog_simps fleet_state_def fleet_env_def compute_service_def py_key_def)
  have mgrs: "mapM (\<lambda>h. NovaServiceManager fleet_env h ''nova-compute'') [''c1'', ''c2''] fleet_state =
      Some (Inr (map fst ?fleet), fleet_state)"
    using fleet_managers by simp
  have cache: "nodes_cache fleet_state = Some [(''c1'', compute_details), (''c2'', compute_details)]"
    by (simp add: fleet_state_def)
  have entered: "failed = None" if "enter_all ?managers fleet_state = Some (failed, t)" for failed t
    using that fleet_enter_succeeds [OF good(1,2)] by (auto split: option.splits prod.splits sum.splits)
  have left: "r = r0" if "unwind ?exits r0 s2 = Some (r, s')" for r r0 :: "unit result" and s2 s' :: "(unit, two_hosts) proc"
    using that fleet_exit_succeeds [OF good(1,3)] by (auto split: option.splits prod.splits sum.splits)
  from config_all_computes_restores [OF cache hosts mgrs fleet_two_ok good(1,2), of ?body]
  obtain r s' failed t where run: "config_all_computes fleet_env ?opts ?body fleet_state = Some (r, s')"
    and enter: "enter_all ?managers fleet_state = Some (failed, t)"
    and post: "failed = None \<Longrightarrow> (\<exists>r0 s2. ?body (replicate (length ?fleet) ()) t = Some (r0, s2) \<and>
        unwind ?exits r0 s2 = Some (r, s')) \<and>
      (\<forall>(self, view) \<in> set ?fleet. view (world s') = view (world fleet_state))"
    using good by (fastforce intro: returns_basic keeps_raise split: option.splits)
  have "r = Inl AssertionError"
    using post [OF entered [OF enter]] left by (auto simp: raise_def)
  with run post [OF entered [OF enter]] show ?thesis
    by (auto simp: fleet_state_def fleet_view_def ini_view_def)
qed

end
