(* ===== verification/Cleanups.thy ===== *)
theory Cleanups
  imports Compute_Base "HOL-Library.Sublist"
begin

text \<open>
  What the operations of \<^verbatim>\<open>whitebox_tempest_plugin/api/compute/base.py\<close> leave behind. Every operation
  that creates something registers a clean-up for it; the clean-ups of a test run after it, the last
  registered first, and an exception of one does not keep the others from running. The theory keeps
  account of what exists in the deployment: a test that creates servers, key pairs, images, volume
  types and their encryption types, encrypted volumes, networks, subnets and ports, and fails at any
  point, leaves of all these what it found. An encryption type for a volume type that was there before
  is not cleaned up.
\<close>

section \<open>Running the clean-ups\<close>

fun run_cleanup :: "('w, 'h, 'm) api_env_scheme \<Rightarrow> cleanup \<Rightarrow> ('w test, unit) prog" where
  "run_cleanup env (AdminDeleteServer i) = admin_delete_server env i"
| "run_cleanup env (DeleteKeypair n) = external (delete_keypair env n)"
| "run_cleanup env (DeleteImage i) = external (delete_image env i)"
| "run_cleanup env (CleanupVolumeType t) = cleanup_volume_type env t"
| "run_cleanup env (DeleteNetwork i) = external (delete_network env i)"
| "run_cleanup env (DeleteSubnet i) = external (delete_subnet env i)"
| "run_cleanup env (DeletePort i) = external (delete_port env i)"

text \<open>\<^verbatim>\<open>TestCase.doCleanups\<close>: the exceptions of the clean-ups are collected.\<close>

fun undo_all :: "('c \<Rightarrow> ('s, unit) prog) \<Rightarrow> 'c list \<Rightarrow> 's \<Rightarrow> (exn list \<times> 's) option" where
  "undo_all undo [] s = Some ([], s)"
| "undo_all undo (c # cs) s = (case undo c s of
       None \<Rightarrow> None
     | Some (r, s') \<Rightarrow> (case undo_all undo cs s' of
           None \<Rightarrow> None
         | Some (es, s'') \<Rightarrow> Some (case r of Inl e \<Rightarrow> e # es | Inr _ \<Rightarrow> es, s'')))"

definition do_cleanups :: "('w, 'h, 'm) api_env_scheme \<Rightarrow> 'w test \<Rightarrow> (exn list \<times> 'w test) option" where
  "do_cleanups env s = undo_all (run_cleanup env) (cleanups s) (s\<lparr>cleanups := []\<rparr>)"

text \<open>A test method and its clean-ups: the outcome of the method and the exceptions of the clean-ups.\<close>

definition run_test ::
  "('w, 'h, 'm) api_env_scheme \<Rightarrow> ('w test, 'a) prog \<Rightarrow> 'w test \<Rightarrow> (('a result \<times> exn list) \<times> 'w test) option" where
  "run_test env body s = (case body s of
       None \<Rightarrow> None
     | Some (r, s1) \<Rightarrow> (case do_cleanups env s1 of
           None \<Rightarrow> None
         | Some (es, s2) \<Rightarrow> Some ((r, es), s2)))"

text \<open>
  The contract of a log of actions to undo: as long as the log is in good order, undoing its first
  action succeeds and leaves the rest in good order.
\<close>

locale undo_log =
  fixes ok :: "'p \<Rightarrow> bool"
    and good :: "'p \<Rightarrow> 'c list \<Rightarrow> 's \<Rightarrow> bool"
    and undo :: "'p \<Rightarrow> 'c \<Rightarrow> ('s, unit) prog"
  assumes undo_law: "ok p \<Longrightarrow> good p (c # cs) s \<Longrightarrow>
    \<exists>s'. undo p c s = Some (Inr (), s') \<and> good p cs s'"
begin

lemma all_undone: "ok p \<Longrightarrow> good p cs s \<Longrightarrow> \<exists>s'. undo_all (undo p) cs s = Some ([], s') \<and> good p [] s'"
proof (induction cs arbitrary: s)
  case (Cons c cs)
  obtain s1 where "undo p c s = Some (Inr (), s1)" and "good p cs s1"
    using undo_law Cons.prems by blast
  with Cons.IH [of s1] Cons.prems(1) show ?case by auto
qed simp

end

section \<open>What exists in the deployment\<close>

datatype resource =
    Server string
  | Keypair string
  | Image string
  | VolumeType string
  | Network string
  | Subnet string
  | Port string

text \<open>
  The resources, which of them needs which other to exist, the volumes with the names of their
  types, and the identifiers of the volume types that have an encryption type. Flavors are not in the
  inventory: Tempest's \<^verbatim>\<open>create_flavor\<close>, which the one of the repository calls, registers their clean-up
  itself.
\<close>

record inventory =
  resources :: "resource set"
  needs :: "(resource \<times> resource) set"
  volumes :: "(string \<times> string) set"
  encryptions :: "string set"

text \<open>
  A call that creates: if it succeeds there is a new resource, given by what it returns, which may
  need some that are there; if it fails nothing has changed. A call that deletes: it succeeds if
  nothing needs what it deletes; a volume type goes with its encryption type.
\<close>

definition added :: "resource \<Rightarrow> inventory \<Rightarrow> inventory \<Rightarrow> bool" where
  "added x i i' \<longleftrightarrow> x \<notin> resources i \<and> resources i' = insert x (resources i) \<and> volumes i' = volumes i \<and>
     encryptions i' = encryptions i \<and> (\<exists>D. D \<subseteq> resources i \<and> needs i' = needs i \<union> {x} \<times> D)"

definition removed :: "resource \<Rightarrow> inventory \<Rightarrow> inventory" where
  "removed x i = i\<lparr>resources := resources i - {x}, needs := needs i - {x} \<times> UNIV,
     encryptions := {t \<in> encryptions i. x \<noteq> VolumeType t}\<rparr>"

definition creates :: "('w \<Rightarrow> inventory) \<Rightarrow> ('a \<Rightarrow> resource option) \<Rightarrow> ('w, 'a) ext \<Rightarrow> bool" where
  "creates stock made f \<longleftrightarrow> (\<forall>w. case f w of
       (Inr x, w') \<Rightarrow> (\<exists>new. made x = Some new \<and> added new (stock w) (stock w'))
     | (Inl e, w') \<Rightarrow> stock w' = stock w)"

definition quiet :: "('w \<Rightarrow> inventory) \<Rightarrow> ('w, 'a) ext \<Rightarrow> bool" where
  "quiet stock f \<longleftrightarrow> (\<forall>w. stock (snd (f w)) = stock w)"

definition deletable :: "resource \<Rightarrow> inventory \<Rightarrow> bool" where
  "deletable x i \<longleftrightarrow> x \<in> resources i \<and> (\<forall>z. (z, x) \<notin> needs i)"

definition deletes :: "('w \<Rightarrow> inventory) \<Rightarrow> resource \<Rightarrow> ('w, unit) ext \<Rightarrow> bool" where
  "deletes stock x f \<longleftrightarrow> (\<forall>w. deletable x (stock w) \<longrightarrow> (\<exists>w'. f w = (Inr (), w') \<and> stock w' = removed x (stock w)))"

text \<open>What is created, by the object that describes it. \<open>tname\<close> gives the name of a volume type.\<close>

definition by_id :: "(string \<Rightarrow> resource) \<Rightarrow> api_object \<Rightarrow> resource option" where
  "by_id kind x = map_option kind (map_of x ''id'')"

definition volume_type_of :: "(string \<Rightarrow> string) \<Rightarrow> api_object \<Rightarrow> resource option" where
  "volume_type_of tname t = (case map_of t ''id'' of
       None \<Rightarrow> None
     | Some i \<Rightarrow> (if map_of t ''name'' = Some (tname i) then Some (VolumeType i) else None))"

text \<open>The documented behaviour of the services, as far as it concerns what exists.\<close>

definition creation_ok ::
  "('w, 'h, 'm) api_env_scheme \<Rightarrow> ('w \<Rightarrow> inventory) \<Rightarrow> (string \<Rightarrow> string) \<Rightarrow> bool" where
  "creation_ok env stock tname \<longleftrightarrow>
     (\<forall>kw. creates stock (by_id Server) (tempest_create_test_server env kw)) \<and>
     (\<forall>kw n. map_of kw ''name'' = Some n \<longrightarrow> creates stock (\<lambda>_. Some (Keypair n)) (keypairs_create env kw)) \<and>
     (\<forall>kw. creates stock (by_id Image) (create_image env kw)) \<and>
     (\<forall>n sp kw. creates stock (volume_type_of tname) (volume_types_create env n sp kw)) \<and>
     (\<forall>n d. creates stock (by_id Network) (create_network env n d)) \<and>
     (\<forall>n i c v. creates stock (by_id Subnet) (create_subnet env n i c v)) \<and>
     (\<forall>i p. creates stock (by_id Port) (create_port env i p)) \<and>
     (\<forall>p n. quiet stock (rand_name env p n)) \<and>
     (\<forall>i. quiet stock (show_image env i)) \<and>
     (\<forall>i. quiet stock (show_image_file env i)) \<and>
     (\<forall>i d. quiet stock (store_image_file env i d)) \<and>
     (\<forall>r v d n p kw. quiet stock (tempest_create_flavor env r v d n p kw)) \<and>
     (\<forall>i sp. quiet stock (set_flavor_extra_spec env i sp)) \<and>
     (\<forall>i p k c l w. case encryption_types_create env i p k c l w of
          (Inr _, w') \<Rightarrow> stock w' = (stock w)\<lparr>encryptions := insert i (encryptions (stock w))\<rparr>
        | (Inl e, w') \<Rightarrow> stock w' = stock w)"

definition deletion_ok ::
  "('w, 'h, 'm) api_env_scheme \<Rightarrow> ('w \<Rightarrow> inventory) \<Rightarrow> bool" where
  "deletion_ok env stock \<longleftrightarrow>
     (\<forall>i w. deletable (Server i) (stock w) \<longrightarrow> (\<exists>w1 w2. delete_server env i w = (Inr (), w1) \<and>
        wait_for_server_termination env i w1 = (Inr (), w2) \<and> stock w2 = removed (Server i) (stock w))) \<and>
     (\<forall>n. deletes stock (Keypair n) (delete_keypair env n)) \<and>
     (\<forall>i. deletes stock (Image i) (delete_image env i)) \<and>
     (\<forall>i. deletes stock (Network i) (delete_network env i)) \<and>
     (\<forall>i. deletes stock (Subnet i) (delete_subnet env i)) \<and>
     (\<forall>i. deletes stock (Port i) (delete_port env i))"

text \<open>
  Volumes: they are listed with their types; a type can be deleted when it has no volumes; no volume
  has a type that is only just created.
\<close>

definition volumes_ok ::
  "('w, 'h, 'm) api_env_scheme \<Rightarrow> ('w \<Rightarrow> inventory) \<Rightarrow> (string \<Rightarrow> string) \<Rightarrow> bool" where
  "volumes_ok env stock tname \<longleftrightarrow>
     (\<forall>w. \<exists>vs w' ps. list_volumes env w = (Inr vs, w') \<and> stock w' = stock w \<and> set ps = volumes (stock w) \<and>
        list_all2 (\<lambda>v (i, t). map_of v ''id'' = Some i \<and> map_of v ''volume_type'' = Some t) vs ps) \<and>
     (\<forall>v w. \<exists>w'. delete_volume_ignoring_notfound env v w = (Inr (), w') \<and>
        stock w' = (stock w)\<lparr>volumes := {p \<in> volumes (stock w). fst p \<noteq> v}\<rparr>) \<and>
     (\<forall>v w. \<exists>w'. wait_for_volume_deletion env v w = (Inr (), w') \<and> stock w' = stock w) \<and>
     (\<forall>i w. deletable (VolumeType i) (stock w) \<longrightarrow> (\<forall>v. (v, tname i) \<notin> volumes (stock w)) \<longrightarrow>
        (\<exists>w'. delete_volume_type env i w = (Inr (), w') \<and> stock w' = removed (VolumeType i) (stock w))) \<and>
     (\<forall>w v t t'. (v, t) \<in> volumes (stock w) \<longrightarrow> (v, t') \<in> volumes (stock w) \<longrightarrow> t = t') \<and>
     (\<forall>t w. case tempest_create_volume env t w of
          (Inr x, w') \<Rightarrow> (\<exists>v. stock w' = (stock w)\<lparr>volumes := insert (v, t) (volumes (stock w))\<rparr>)
        | (Inl e, w') \<Rightarrow> stock w' = stock w) \<and>
     (\<forall>n sp kw w t w' i v. volume_types_create env n sp kw w = (Inr t, w') \<longrightarrow>
        map_of t ''id'' = Some i \<longrightarrow> (v, tname i) \<notin> volumes (stock w))"

text \<open>What is needed exists, and so does what is encrypted.\<close>

definition consistent :: "inventory \<Rightarrow> bool" where
  "consistent i \<longleftrightarrow> needs i \<subseteq> resources i \<times> resources i \<and> VolumeType ` encryptions i \<subseteq> resources i"

definition api_ok ::
  "('w, 'h, 'm) api_env_scheme \<Rightarrow> ('w \<Rightarrow> inventory) \<Rightarrow> (string \<Rightarrow> string) \<Rightarrow> bool" where
  "api_ok env stock tname \<longleftrightarrow> (\<forall>w. consistent (stock w)) \<and>
     creation_ok env stock tname \<and> deletion_ok env stock \<and> volumes_ok env stock tname"

lemma volumes_okD:
  assumes "volumes_ok env stock tname"
  shows "\<forall>w. \<exists>vs w' ps. list_volumes env w = (Inr vs, w') \<and> stock w' = stock w \<and> set ps = volumes (stock w) \<and>
         list_all2 (\<lambda>v (i, t). map_of v ''id'' = Some i \<and> map_of v ''volume_type'' = Some t) vs ps"
    and "\<forall>v w. \<exists>w'. delete_volume_ignoring_notfound env v w = (Inr (), w') \<and>
         stock w' = (stock w)\<lparr>volumes := {p \<in> volumes (stock w). fst p \<noteq> v}\<rparr>"
    and "\<forall>v w. \<exists>w'. wait_for_volume_deletion env v w = (Inr (), w') \<and> stock w' = stock w"
    and "\<forall>i w. deletable (VolumeType i) (stock w) \<longrightarrow> (\<forall>v. (v, tname i) \<notin> volumes (stock w)) \<longrightarrow>
         (\<exists>w'. delete_volume_type env i w = (Inr (), w') \<and> stock w' = removed (VolumeType i) (stock w))"
    and "\<forall>w v t t'. (v, t) \<in> volumes (stock w) \<longrightarrow> (v, t') \<in> volumes (stock w) \<longrightarrow> t = t'"
    and "\<forall>t w. case tempest_create_volume env t w of
           (Inr x, w') \<Rightarrow> (\<exists>v. stock w' = (stock w)\<lparr>volumes := insert (v, t) (volumes (stock w))\<rparr>)
         | (Inl e, w') \<Rightarrow> stock w' = stock w"
    and "\<forall>n sp kw w t w' i v. volume_types_create env n sp kw w = (Inr t, w') \<longrightarrow>
         map_of t ''id'' = Some i \<longrightarrow> (v, tname i) \<notin> volumes (stock w)"
  by (insert assms, unfold volumes_ok_def, (elim conjE, assumption)+)

lemma creation_okD:
  assumes "creation_ok env stock tname"
  shows "\<forall>kw. creates stock (by_id Server) (tempest_create_test_server env kw)"
    and "\<forall>kw n. map_of kw ''name'' = Some n \<longrightarrow> creates stock (\<lambda>_. Some (Keypair n)) (keypairs_create env kw)"
    and "\<forall>kw. creates stock (by_id Image) (create_image env kw)"
    and "\<forall>n sp kw. creates stock (volume_type_of tname) (volume_types_create env n sp kw)"
    and "\<forall>n d. creates stock (by_id Network) (create_network env n d)"
    and "\<forall>n i c v. creates stock (by_id Subnet) (create_subnet env n i c v)"
    and "\<forall>i p. creates stock (by_id Port) (create_port env i p)"
    and "\<forall>p n. quiet stock (rand_name env p n)"
    and "\<forall>i. quiet stock (show_image env i)"
    and "\<forall>i. quiet stock (show_image_file env i)"
    and "\<forall>i d. quiet stock (store_image_file env i d)"
    and "\<forall>r v d n p kw. quiet stock (tempest_create_flavor env r v d n p kw)"
    and "\<forall>i sp. quiet stock (set_flavor_extra_spec env i sp)"
    and "\<forall>i p k c l w. case encryption_types_create env i p k c l w of
          (Inr _, w') \<Rightarrow> stock w' = (stock w)\<lparr>encryptions := insert i (encryptions (stock w))\<rparr>
        | (Inl e, w') \<Rightarrow> stock w' = stock w"
  by (insert assms, unfold creation_ok_def, (elim conjE, assumption)+)

lemma deletion_okD:
  assumes "deletion_ok env stock"
  shows "\<forall>i w. deletable (Server i) (stock w) \<longrightarrow> (\<exists>w1 w2. delete_server env i w = (Inr (), w1) \<and>
        wait_for_server_termination env i w1 = (Inr (), w2) \<and> stock w2 = removed (Server i) (stock w))"
    and "\<forall>n. deletes stock (Keypair n) (delete_keypair env n)"
    and "\<forall>i. deletes stock (Image i) (delete_image env i)"
    and "\<forall>i. deletes stock (Network i) (delete_network env i)"
    and "\<forall>i. deletes stock (Subnet i) (delete_subnet env i)"
    and "\<forall>i. deletes stock (Port i) (delete_port env i)"
  by (insert assms, unfold deletion_ok_def, (elim conjE, assumption)+)

section \<open>The account\<close>

text \<open>What a clean-up is for.\<close>

fun target :: "cleanup \<Rightarrow> resource" where
  "target (AdminDeleteServer i) = Server i"
| "target (DeleteKeypair n) = Keypair n"
| "target (DeleteImage i) = Image i"
| "target (CleanupVolumeType t) = VolumeType (case map_of t ''id'' of None \<Rightarrow> [] | Some i \<Rightarrow> i)"
| "target (DeleteNetwork i) = Network i"
| "target (DeleteSubnet i) = Subnet i"
| "target (DeletePort i) = Port i"

fun good_cleanup :: "(string \<Rightarrow> string) \<Rightarrow> cleanup \<Rightarrow> bool" where
  "good_cleanup tname (CleanupVolumeType t) = (volume_type_of tname t \<noteq> None)"
| "good_cleanup tname _ = True"

text \<open>Nothing in the list needs what stands before it, or itself.\<close>

fun in_order :: "(resource \<times> resource) set \<Rightarrow> resource list \<Rightarrow> bool" where
  "in_order N [] = True"
| "in_order N (x # xs) = ((\<forall>z \<in> set (x # xs). (z, x) \<notin> N) \<and> in_order N xs)"

definition type_names :: "(string \<Rightarrow> string) \<Rightarrow> resource set \<Rightarrow> string set" where
  "type_names tname ts = {tname i |i. VolumeType i \<in> ts}"

text \<open>
  The account balances: what exists is what was there in \<open>base\<close> and, each once, what the registered
  clean-ups are for; volumes that were not there have a type that a clean-up is for, and so have
  encryption types; and the clean-ups are in an order in which they can be run.
\<close>

definition accounted ::
  "(string \<Rightarrow> string) \<Rightarrow> inventory \<Rightarrow> cleanup list \<Rightarrow> inventory \<Rightarrow> bool" where
  "accounted tname base cs i \<longleftrightarrow>
     resources i = resources base \<union> target ` set cs \<and> distinct (map target cs) \<and>
     target ` set cs \<inter> resources base = {} \<and> needs i \<inter> resources base \<times> UNIV = needs base \<and>
     needs base \<subseteq> resources base \<times> resources base \<and>
     {p \<in> volumes i. snd p \<notin> type_names tname (target ` set cs)} = volumes base \<and>
     {t \<in> encryptions i. VolumeType t \<notin> target ` set cs} = encryptions base \<and>
     in_order (needs i) (map target cs) \<and> list_all (good_cleanup tname) cs"

lemma in_order_mono:
  assumes "in_order N xs" and "\<And>z y. z \<in> set xs \<Longrightarrow> (z, y) \<in> N' \<Longrightarrow> (z, y) \<in> N"
  shows "in_order N' xs"
  using assms
proof (induction xs)
  case (Cons x xs)
  have "in_order N' xs" using Cons by (intro Cons.IH) auto
  moreover have "(z, x) \<notin> N'" if "z \<in> set (x # xs)" for z
    using Cons.prems that by auto
  ultimately show ?case by simp
qed simp

lemma accounted_start: "consistent i \<Longrightarrow> accounted tname i [] i"
  by (auto simp: accounted_def type_names_def consistent_def)

lemma accounted_end:
  assumes "accounted tname base [] i" and "consistent i"
  shows "i = base"
proof -
  have "resources i = resources base" and "volumes i = volumes base" and "encryptions i = encryptions base"
    and n: "needs i \<inter> resources base \<times> UNIV = needs base"
    using assms(1) by (simp_all add: accounted_def type_names_def)
  moreover from this assms(2) have "needs i = needs base" by (auto simp: consistent_def)
  ultimately show ?thesis by simp
qed

lemma type_names_insert:
  "type_names tname (insert x ts) = (case x of VolumeType i \<Rightarrow> {tname i} | _ \<Rightarrow> {}) \<union> type_names tname ts"
  by (auto simp: type_names_def split: resource.split)

lemma volumes_push:
  assumes vb: "{p \<in> vs. snd p \<notin> type_names tname ts} = base"
    and fresh: "\<And>k v. x = VolumeType k \<Longrightarrow> (v, tname k) \<notin> vs"
  shows "{p \<in> vs. snd p \<notin> type_names tname (insert x ts)} = base"
proof (cases "\<exists>k. x = VolumeType k")
  case True
  then obtain k where k: "x = VolumeType k" by blast
  have "snd p \<noteq> tname k" if "p \<in> vs" for p
    using fresh [OF k, of "fst p"] that by (cases p) auto
  then show ?thesis using vb by (auto simp: type_names_insert k)
next
  case False
  then have "type_names tname (insert x ts) = type_names tname ts"
    by (cases x) (simp_all add: type_names_insert)
  with vb show ?thesis by simp
qed

text \<open>Creating something and registering its clean-up keeps the account.\<close>

lemma accounted_push:
  assumes acc: "accounted tname base cs i" and wf: "consistent i"
    and new: "added (target c) i i'" and good: "good_cleanup tname c"
    and fresh: "\<And>k v. target c = VolumeType k \<Longrightarrow> (v, tname k) \<notin> volumes i"
  shows "accounted tname base (c # cs) i'"
proof -
  obtain D where D: "D \<subseteq> resources i" and N: "needs i' = needs i \<union> {target c} \<times> D"
    and x: "target c \<notin> resources i" and res: "resources i' = insert (target c) (resources i)"
    and vol: "volumes i' = volumes i" and enc: "encryptions i' = encryptions i"
    using new by (auto simp: added_def)
  have ri: "resources i = resources base \<union> target ` set cs"
    using acc by (simp add: accounted_def)
  have "in_order (needs i') (map target cs)"
    using acc x by (auto simp: accounted_def N intro!: in_order_mono [of "needs i"])
  moreover have "(z, target c) \<notin> needs i'" for z
    using wf x D by (auto simp: N consistent_def)
  moreover have "needs i' \<inter> resources base \<times> UNIV = needs base"
    using acc x ri by (auto simp: accounted_def N)
  moreover have "{p \<in> volumes i'. snd p \<notin> type_names tname (insert (target c) (target ` set cs))} = volumes base"
    using volumes_push [of "volumes i" tname] acc fresh by (simp add: accounted_def vol)
  moreover have "VolumeType t \<noteq> target c" if "t \<in> encryptions i" for t
    using wf x that by (auto simp: consistent_def image_subset_iff)
  then have "{t \<in> encryptions i'. VolumeType t \<notin> insert (target c) (target ` set cs)} =
      {t \<in> encryptions i. VolumeType t \<notin> target ` set cs}"
    unfolding enc by blast
  then have "{t \<in> encryptions i'. VolumeType t \<notin> insert (target c) (target ` set cs)} = encryptions base"
    using acc by (simp add: accounted_def)
  ultimately show ?thesis
    using acc x good ri by (auto simp: accounted_def res)
qed

text \<open>The clean-up that was registered last can be run, and running it keeps the account.\<close>

lemma accounted_deletable:
  assumes acc: "accounted tname base (c # cs) i" and wf: "consistent i"
  shows "deletable (target c) i"
proof -
  have "(z, target c) \<notin> needs i" for z
  proof
    assume z: "(z, target c) \<in> needs i"
    with wf have "z \<in> resources base \<or> z \<in> set (map target (c # cs))"
      using acc by (auto simp: accounted_def consistent_def)
    then show False
    proof
      assume "z \<in> resources base"
      then have "(z, target c) \<in> needs base" using acc z by (auto simp: accounted_def)
      then have "target c \<in> resources base" using acc by (auto simp: accounted_def)
      then show False using acc by (auto simp: accounted_def)
    qed (use acc z in \<open>auto simp: accounted_def\<close>)
  qed
  then show ?thesis using acc by (auto simp: deletable_def accounted_def)
qed

lemma accounted_pop:
  assumes acc: "accounted tname base (c # cs) i"
    and vols: "vs = {p \<in> volumes i. \<forall>k. target c = VolumeType k \<longrightarrow> snd p \<noteq> tname k}"
  shows "accounted tname base cs ((removed (target c) i)\<lparr>volumes := vs\<rparr>)"
proof -
  have "in_order (needs i - {target c} \<times> UNIV) (map target cs)"
    using acc by (auto simp: accounted_def intro: in_order_mono)
  moreover have "(needs i - {target c} \<times> UNIV) \<inter> resources base \<times> UNIV = needs base"
    using acc by (auto simp: accounted_def)
  moreover have "{p \<in> vs. snd p \<notin> type_names tname (target ` set cs)} = volumes base"
    using acc by (auto simp: accounted_def vols type_names_insert split: resource.splits)
  moreover have "{t \<in> encryptions i. target c \<noteq> VolumeType t \<and> VolumeType t \<notin> target ` set cs} = encryptions base"
    using acc by (auto simp: accounted_def)
  ultimately show ?thesis
    using acc by (auto simp: accounted_def removed_def)
qed

section \<open>Every clean-up does its part\<close>

lemma delete_volumes_run:
  fixes vts :: "(api_object \<times> string) list" and ps :: "(string \<times> string) list"
  assumes ok: "volumes_ok env stock tname"
    and ids: "list_all2 (\<lambda>(v, t) (i, t'). map_of v ''id'' = Some i) vts ps"
  shows "\<exists>s'. forM (\<lambda>(volume, t). bnd (key volume ''id'') (\<lambda>volume_id.
        seqp (external (delete_volume_ignoring_notfound env volume_id))
             (external (wait_for_volume_deletion env volume_id)))) vts s = Some (Inr (), s') \<and>
     stock (world s') = (stock (world s))\<lparr>volumes := {p \<in> volumes (stock (world s)). fst p \<notin> fst ` set ps}\<rparr>"
  using ids
proof (induction vts ps arbitrary: s rule: list_all2_induct)
  case (Cons vt vts p ps)
  obtain v t i t' where vt: "vt = (v, t)" and p: "p = (i, t')" by (cases vt, cases p)
  have i: "map_of v ''id'' = Some i" using Cons.hyps(1) by (simp add: vt p)
  obtain w1 where w1: "delete_volume_ignoring_notfound env i (world s) = (Inr (), w1)"
    "stock w1 = (stock (world s))\<lparr>volumes := {p \<in> volumes (stock (world s)). fst p \<noteq> i}\<rparr>"
    using volumes_okD(2) [OF ok, rule_format, of i "world s"] by blast
  obtain w2 where w2: "wait_for_volume_deletion env i w1 = (Inr (), w2)" "stock w2 = stock w1"
    using volumes_okD(3) [OF ok, rule_format, of i w1] by blast
  let ?f = "\<lambda>(volume, t :: string). bnd (key volume ''id'') (\<lambda>volume_id.
      seqp (external (delete_volume_ignoring_notfound env volume_id))
        (external (wait_for_volume_deletion env volume_id)))"
  have "?f vt s = Some (Inr (), s\<lparr>world := w2\<rparr>)"
    using i w1(1) w2(1) by (simp add: vt bnd_def seqp_def of_result_def py_key_def external_def)
  then have "forM ?f (vt # vts) s = forM ?f vts (s\<lparr>world := w2\<rparr>)"
    unfolding forM.simps by (rule run_seqp_Inr)
  then show ?case
    using Cons.IH [of "s\<lparr>world := w2\<rparr>"] w1(2) w2(2) by (auto simp: p)
qed (simp add: ret_def)

lemma volumes_of_type:
  assumes "list_all2 (\<lambda>v (i, t). map_of v ''id'' = Some i \<and> map_of v ''volume_type'' = Some t) vs ps"
  shows "list_all2 (\<lambda>(v, t) (i, t'). map_of v ''id'' = Some i)
      (filter (\<lambda>(v, t). t = n) (zip vs (map snd ps))) (filter (\<lambda>(i, t). t = n) ps)"
    and "map_res (\<lambda>v. py_key v ''volume_type'') vs = Inr (map snd ps)"
  using assms
  by (induction vs ps rule: list_all2_induct) (auto simp: py_key_def split: prod.splits)

lemma volumes_unique:
  "volumes_ok env stock tname \<Longrightarrow> (v, t) \<in> volumes (stock w) \<Longrightarrow> (v, t') \<in> volumes (stock w) \<Longrightarrow> t = t'"
  by (rule volumes_okD(5) [rule_format])

lemma cleanup_volume_type_run:
  assumes ok: "volumes_ok env stock tname"
    and t: "map_of t ''id'' = Some i" "map_of t ''name'' = Some (tname i)"
    and del: "deletable (VolumeType i) (stock (world s))"
  shows "\<exists>s'. cleanup_volume_type env t s = Some (Inr (), s') \<and>
    stock (world s') = (removed (VolumeType i) (stock (world s)))
      \<lparr>volumes := {p \<in> volumes (stock (world s)). snd p \<noteq> tname i}\<rparr>"
proof -
  obtain vs w1 ps where list: "list_volumes env (world s) = (Inr vs, w1)" and w1: "stock w1 = stock (world s)"
    and ps: "set ps = volumes (stock (world s))"
    and rows: "list_all2 (\<lambda>v (i, t). map_of v ''id'' = Some i \<and> map_of v ''volume_type'' = Some t) vs ps"
    using volumes_okD(1) [OF ok, rule_format, of "world s"] by blast
  let ?mine = "filter (\<lambda>(j, t). t = tname i) ps"
  obtain s2 where loop: "forM (\<lambda>(volume, t). bnd (key volume ''id'') (\<lambda>volume_id.
        seqp (external (delete_volume_ignoring_notfound env volume_id))
             (external (wait_for_volume_deletion env volume_id))))
        (filter (\<lambda>(v, t). t = tname i) (zip vs (map snd ps))) (s\<lparr>world := w1\<rparr>) = Some (Inr (), s2)"
    and s2: "stock (world s2) = (stock w1)\<lparr>volumes := {p \<in> volumes (stock w1). fst p \<notin> fst ` set ?mine}\<rparr>"
    using delete_volumes_run [OF ok volumes_of_type(1) [OF rows, of "tname i"], of "s\<lparr>world := w1\<rparr>"] by auto
  have "fst p \<in> fst ` set ?mine \<longleftrightarrow> snd p = tname i" if "p \<in> volumes (stock (world s))" for p
    using volumes_unique [OF ok, of "fst p" _ "world s"] that by (cases p) (auto simp: ps image_iff)
  then have vol: "{p \<in> volumes (stock (world s)). fst p \<notin> fst ` set ?mine} =
      {p \<in> volumes (stock (world s)). snd p \<noteq> tname i}"
    by blast
  have s2: "stock (world s2) = (stock (world s))\<lparr>volumes := {p \<in> volumes (stock (world s)). snd p \<noteq> tname i}\<rparr>"
    using s2 by (simp only: w1 vol)
  have "deletable (VolumeType i) (stock (world s2))" and "\<forall>v. (v, tname i) \<notin> volumes (stock (world s2))"
    using del by (simp_all add: s2 deletable_def)
  then obtain w3 where "delete_volume_type env i (world s2) = (Inr (), w3)"
    and "stock w3 = removed (VolumeType i) (stock (world s2))"
    using volumes_okD(4) [OF ok, rule_format, of i "world s2"] by blast
  moreover have "cleanup_volume_type env t s = external (delete_volume_type env i) s2"
    using list loop t volumes_of_type(2) [OF rows]
    by (simp add: cleanup_volume_type_def bnd_def seqp_def of_result_def py_key_def external_def)
  ultimately show ?thesis
    by (simp add: external_def s2 removed_def)
qed

lemma api_okD:
  assumes "api_ok env stock tname"
  shows "creation_ok env stock tname" "deletion_ok env stock" "volumes_ok env stock tname"
    "consistent (stock w)"
  using assms by (simp_all add: api_ok_def)

lemma deletes_run:
  "deletes stock x f \<Longrightarrow> deletable x (stock (world s)) \<Longrightarrow>
   \<exists>s'. external f s = Some (Inr (), s') \<and> stock (world s') = removed x (stock (world s))"
  by (fastforce simp: deletes_def external_def)

lemma run_cleanup_removes:
  assumes ok: "api_ok env stock tname" and del: "deletable (target c) (stock (world s))"
    and plain: "\<And>t. c \<noteq> CleanupVolumeType t"
  shows "\<exists>s'. run_cleanup env c s = Some (Inr (), s') \<and> stock (world s') = removed (target c) (stock (world s))"
proof (cases c)
  case (AdminDeleteServer i)
  then obtain w1 w2 where "delete_server env i (world s) = (Inr (), w1)"
    "wait_for_server_termination env i w1 = (Inr (), w2)" "stock w2 = removed (Server i) (stock (world s))"
    using deletion_okD(1) [OF api_okD(2) [OF ok], rule_format, of i "world s"] del by auto
  then show ?thesis
    by (simp add: AdminDeleteServer admin_delete_server_def try_except_def seqp_def bnd_def external_def)
next
  case (CleanupVolumeType t)
  then show ?thesis using plain by simp
qed (use deletion_okD(2-6) [OF api_okD(2) [OF ok], rule_format] del in
    \<open>auto intro!: deletes_run\<close>)

lemma run_cleanup_pops:
  assumes ok: "api_ok env stock tname" and acc: "accounted tname base (c # cs) (stock (world s))"
  shows "\<exists>s'. run_cleanup env c s = Some (Inr (), s') \<and> accounted tname base cs (stock (world s'))"
proof -
  have del: "deletable (target c) (stock (world s))"
    using acc api_okD(4) [OF ok] by (rule accounted_deletable)
  show ?thesis
  proof (cases "\<exists>t. c = CleanupVolumeType t")
    case True
    then obtain t where c: "c = CleanupVolumeType t" by blast
    then obtain i where i: "map_of t ''id'' = Some i" "map_of t ''name'' = Some (tname i)"
      using acc by (auto simp: accounted_def volume_type_of_def split: option.splits if_splits)
    then have "target c = VolumeType i" by (simp add: c)
    with cleanup_volume_type_run [OF api_okD(3) [OF ok] i, of s] del accounted_pop [OF acc]
    show ?thesis by (auto simp: c)
  next
    case False
    then have "\<forall>k. target c \<noteq> VolumeType k" by (cases c) auto
    then have "accounted tname base cs (removed (target c) (stock (world s)))"
      using accounted_pop [OF acc, of "volumes (stock (world s))"] by (simp add: removed_def)
    with run_cleanup_removes [OF ok del] False show ?thesis by auto
  qed
qed

interpretation test_cleanups: undo_log "\<lambda>(env, stock, tname, base). api_ok env stock tname"
  "\<lambda>(env, stock, tname, base) cs s. accounted tname base cs (stock (world s))"
  "\<lambda>(env, stock, tname, base). run_cleanup env"
proof (unfold_locales, goal_cases)
  case (1 p c cs s)
  then show ?case by (cases p) (simp add: run_cleanup_pops)
qed

lemma do_cleanups_undo:
  assumes ok: "api_ok env stock tname" and acc: "accounted tname base (cleanups s) (stock (world s))"
  shows "\<exists>s'. do_cleanups env s = Some ([], s') \<and> stock (world s') = base"
proof -
  obtain s' where "undo_all (run_cleanup env) (cleanups s) (s\<lparr>cleanups := []\<rparr>) = Some ([], s')"
    and "accounted tname base [] (stock (world s'))"
    using test_cleanups.all_undone [of "(env, stock, tname, base)" "cleanups s" "s\<lparr>cleanups := []\<rparr>"] ok acc
    by auto
  moreover from this(2) api_okD(4) [OF ok] have "stock (world s') = base" by (rule accounted_end)
  ultimately show ?thesis by (auto simp: do_cleanups_def)
qed

section \<open>Every operation keeps the account\<close>

abbreviation balanced ::
  "('w \<Rightarrow> inventory) \<Rightarrow> (string \<Rightarrow> string) \<Rightarrow> inventory \<Rightarrow> 'w test \<Rightarrow> bool" where
  "balanced stock tname base \<equiv> \<lambda>s. accounted tname base (cleanups s) (stock (world s))"

lemma keeps_quiet:
  "quiet stock f \<Longrightarrow> keeps (balanced stock tname base) (external f)"
  by (auto simp: keeps_def quiet_def prog_simps)

text \<open>The pattern of the operations: create, then register the clean-up, then go on.\<close>

lemma keeps_create:
  assumes ok: "api_ok env stock tname" and create: "creates stock made f"
    and g: "\<And>x new. made x = Some new \<Longrightarrow> \<exists>c m. g x = seqp (addCleanup c) m \<and> target c = new \<and>
      good_cleanup tname c \<and> keeps (balanced stock tname base) m"
    and fresh: "\<And>w x w' k v. f w = (Inr x, w') \<Longrightarrow> made x = Some (VolumeType k) \<Longrightarrow>
      (v, tname k) \<notin> volumes (stock w)"
  shows "keeps (balanced stock tname base) (bnd (external f) g)"
  unfolding keeps_def
proof (intro allI impI)
  fix s r s'
  assume acc: "accounted tname base (cleanups s) (stock (world s))"
    and run: "bnd (external f) g s = Some (r, s')"
  obtain q w where f: "f (world s) = (q, w)" by fastforce
  note law = create [unfolded creates_def, rule_format, of "world s", unfolded f prod.case]
  show "accounted tname base (cleanups s') (stock (world s'))"
  proof (cases q)
    case (Inl e)
    with f run have "s' = s\<lparr>world := w\<rparr>" by (simp add: bnd_def external_def)
    with acc law Inl show ?thesis by simp
  next
    case (Inr x)
    then obtain new where new: "made x = Some new" "added new (stock (world s)) (stock w)"
      using law by auto
    then obtain c m where c: "g x = seqp (addCleanup c) m" "target c = new" "good_cleanup tname c"
      and m: "keeps (balanced stock tname base) m"
      using g by blast
    have "accounted tname base (c # cleanups s) (stock w)"
      using fresh [of "world s" x w] f Inr new c
      by (intro accounted_push [OF acc api_okD(4) [OF ok]]) auto
    moreover have "m (s\<lparr>world := w, cleanups := c # cleanups s\<rparr>) = Some (r, s')"
      using run f Inr c(1) by (simp add: bnd_def external_def seqp_def addCleanup_def)
    ultimately show ?thesis
      using keepsD [OF m, of "s\<lparr>world := w, cleanups := c # cleanups s\<rparr>" r s'] by simp
  qed
qed

text \<open>The objects that creations return have the keys that are read.\<close>

lemma bnd_key_Some: "map_of x k = Some v \<Longrightarrow> bnd (key x k) f = f v"
  by (rule ext) (simp add: bnd_def of_result_def py_key_def)

lemma keeps_create_by_id:
  assumes ok: "api_ok env stock tname" and create: "creates stock (by_id kind) f"
    and kind: "\<And>i. target (clean i) = kind i" "\<And>i. good_cleanup tname (clean i)" "\<And>i k. kind i \<noteq> VolumeType k"
    and rest: "\<And>x i. keeps (balanced stock tname base) (m x i)"
  shows "keeps (balanced stock tname base)
    (bnd (external f) (\<lambda>x. bnd (key x ''id'') (\<lambda>i. seqp (addCleanup (clean i)) (m x i))))"
proof (rule keeps_create [OF ok create])
  fix x new
  assume "by_id kind x = Some new"
  then obtain i where "map_of x ''id'' = Some i" and "new = kind i" by (auto simp: by_id_def)
  then show "\<exists>c m'. bnd (key x ''id'') (\<lambda>i. seqp (addCleanup (clean i)) (m x i)) = seqp (addCleanup c) m' \<and>
      target c = new \<and> good_cleanup tname c \<and> keeps (balanced stock tname base) m'"
    using kind rest by (intro exI [of _ "clean i"] exI [of _ "m x i"]) (simp add: bnd_key_Some)
qed (use kind in \<open>auto simp: by_id_def\<close>)

text \<open>
  The operations of a test that create something, with the default clients. An encryption type is
  created for a new volume type, or together with an encrypted volume.
\<close>

datatype creation =
    CreateTestServer api_object
  | CreateFlavor "int option" "int option" "int option" "string option" "string option" api_object api_object
  | CreateKeypair api_object
  | CopyDefaultImage api_object
  | CreateVolumeType "string option" "string option" api_object api_object
  | CreateEncryptionType "string option" "int option" "string option" "string option"
  | CreateEncryptedVolume string string "int option" "string option" "string option"
  | CreateNetFromPhysicalNetwork json string
  | CreateSubnet string
  | CreatePortFromVnicType api_object string "string option"

fun run_creation :: "('w, 'h, 'm) api_env_scheme \<Rightarrow> creation \<Rightarrow> ('w test, unit) prog" where
  "run_creation env (CreateTestServer kw) = seqp (create_test_server env kw) (ret ())"
| "run_creation env (CreateFlavor r v d n p sp kw) = seqp (create_flavor env r v d n p sp kw) (ret ())"
| "run_creation env (CreateKeypair kw) = seqp (create_keypair env kw) (ret ())"
| "run_creation env (CopyDefaultImage kw) = seqp (copy_default_image env kw) (ret ())"
| "run_creation env (CreateVolumeType n b sp kw) = seqp (create_volume_type env None n b sp kw) (ret ())"
| "run_creation env (CreateEncryptionType p k c l) = create_encryption_type env None None p k c l"
| "run_creation env (CreateEncryptedVolume p t k c l) = seqp (create_encrypted_volume env p t k c l) (ret ())"
| "run_creation env (CreateNetFromPhysicalNetwork v p) = seqp (create_net_from_physical_network env v p) (ret ())"
| "run_creation env (CreateSubnet i) = seqp (create_subnet_of env i) (ret ())"
| "run_creation env (CreatePortFromVnicType n v a) = seqp (create_port_from_vnic_type env n v a) (ret ())"

lemma keeps_create_test_server:
  assumes "api_ok env stock tname"
  shows "keeps (balanced stock tname base) (create_test_server env kw)"
  unfolding create_test_server_def
  by (rule keeps_create_by_id [OF assms creation_okD(1) [OF api_okD(1) [OF assms], rule_format]])
    (simp_all add: keeps_ret)

lemma keeps_create_flavor:
  assumes "api_ok env stock tname"
  shows "keeps (balanced stock tname base) (create_flavor env r v d n p sp kw)"
  unfolding create_flavor_def Let_def
  using creation_okD(12,13) [OF api_okD(1) [OF assms], rule_format]
  by (intro keeps_bnd keeps_seqp keeps_If keeps_of_result keeps_ret keeps_quiet)

lemma keeps_create_keypair:
  assumes "api_ok env stock tname"
  shows "keeps (balanced stock tname base) (create_keypair env kw)"
proof -
  note ok = creation_okD [OF api_okD(1) [OF assms], rule_format]
  have named: "keeps (balanced stock tname base) (bnd (external (keypairs_create env kw)) (\<lambda>keypair.
      bnd (key kw ''name'') (\<lambda>n. seqp (addCleanup (DeleteKeypair n)) (ret keypair))))"
    if "map_of kw ''name'' = Some n" for kw n
  proof (rule keeps_create [OF assms ok(2) [OF that]])
    show "\<exists>c m. bnd (key kw ''name'') (\<lambda>n. seqp (addCleanup (DeleteKeypair n)) (ret x)) = seqp (addCleanup c) m \<and>
        target c = new \<and> good_cleanup tname c \<and> keeps (balanced stock tname base) m"
      if "Some (Keypair n) = Some new" for x :: api_object and new
      using that \<open>map_of kw ''name'' = Some n\<close>
      by (intro exI [of _ "DeleteKeypair n"] exI [of _ "ret x"]) (simp add: bnd_key_Some keeps_ret)
  qed simp
  have "map_of (AList.update ''name'' n kw) ''name'' = Some n" for n
    by (simp add: update_conv)
  then show ?thesis
    unfolding create_keypair_def
    by (auto simp: truthy_def intro!: keeps_bnd keeps_quiet ok(8) named keeps_ret split: option.splits)
qed

lemma keeps_copy_default_image:
  assumes "api_ok env stock tname"
  shows "keeps (balanced stock tname base) (copy_default_image env kw)"
proof -
  note ok = creation_okD [OF api_okD(1) [OF assms], rule_format]
  show ?thesis
    unfolding copy_default_image_def
    by (intro keeps_bnd [of _ "external (show_image env (image_ref (cfg env)))"]
        keeps_bnd [of _ "external (show_image_file env (image_ref (cfg env)))"]
        keeps_bnd [of _ "mapM _ _"] keeps_quiet ok keeps_mapM keeps_bnd [of _ "of_result _"] keeps_of_result
        keeps_ret keeps_create_by_id [OF assms ok(3)] keeps_seqp) simp_all
qed

lemma keeps_create_net:
  assumes "api_ok env stock tname"
  shows "keeps (balanced stock tname base) (create_net_from_physical_network env vlan_id physical_net)"
  unfolding create_net_from_physical_network_def Let_def
  using creation_okD [OF api_okD(1) [OF assms], rule_format]
  by (intro keeps_bnd [of _ "external (rand_name _ _ _)"] keeps_quiet keeps_create_by_id [OF assms])
    (auto simp: keeps_ret)

lemma keeps_create_subnet:
  assumes "api_ok env stock tname"
  shows "keeps (balanced stock tname base) (create_subnet_of env network_id)"
  unfolding create_subnet_of_def
  using creation_okD [OF api_okD(1) [OF assms], rule_format]
  by (intro keeps_bnd [of _ "external (rand_name _ _ _)"] keeps_quiet keeps_create_by_id [OF assms])
    (auto simp: keeps_ret)

lemma keeps_create_port:
  assumes "api_ok env stock tname"
  shows "keeps (balanced stock tname base) (create_port_from_vnic_type env net vnic_type policy)"
  unfolding create_port_from_vnic_type_def Let_def
  using creation_okD [OF api_okD(1) [OF assms], rule_format]
  by (intro keeps_bnd [of _ "of_result _"] keeps_of_result keeps_create_by_id [OF assms])
    (auto simp: keeps_ret)

lemma volume_type_of_Some:
  "volume_type_of tname t = Some x \<longleftrightarrow>
     (\<exists>i. map_of t ''id'' = Some i \<and> map_of t ''name'' = Some (tname i) \<and> x = VolumeType i)"
  by (auto simp: volume_type_of_def split: option.splits)

lemma seqp_check_True: "seqp (check True) m = m"
  by (simp add: seqp_def check_def)

lemma keeps_create_volume_type:
  assumes "api_ok env stock tname"
  shows "keeps (balanced stock tname base) (create_volume_type env None name backend_name specs kw)"
proof -
  note ok = creation_okD [OF api_okD(1) [OF assms], rule_format]
  have "keeps (balanced stock tname base) (bnd (external (volume_types_create env n sp kw)) (\<lambda>volume_type.
      seqp (check (map_of volume_type ''id'' \<noteq> None))
        (seqp (addCleanup (CleanupVolumeType volume_type)) (ret volume_type))))" for n sp
  proof (rule keeps_create [OF assms ok(4)])
    fix t new
    assume "volume_type_of tname t = Some new"
    then show "\<exists>c m. seqp (check (map_of t ''id'' \<noteq> None))
          (seqp (addCleanup (CleanupVolumeType t)) (ret t)) = seqp (addCleanup c) m \<and>
        target c = new \<and> good_cleanup tname c \<and> keeps (balanced stock tname base) m"
      by (intro exI [of _ "CleanupVolumeType t"] exI [of _ "ret t"])
        (auto simp: volume_type_of_Some seqp_check_True keeps_ret)
  next
    fix w t w' k v
    assume "volume_types_create env n sp kw w = (Inr t, w')" and "volume_type_of tname t = Some (VolumeType k)"
    then show "(v, tname k) \<notin> volumes (stock w)"
      using volumes_okD(7) [OF api_okD(3) [OF assms], rule_format] by (auto simp: volume_type_of_Some)
  qed
  then show ?thesis
    unfolding create_volume_type_def Let_def option.case
    by (intro keeps_bnd [of _ "if _ then _ else _"] keeps_bnd [of _ "external (rand_name _ _ _)"] keeps_If
        keeps_quiet ok(8) keeps_ret)
qed

text \<open>An encryption type for a volume type whose clean-up is registered.\<close>

lemma balanced_encryption:
  assumes ok: "api_ok env stock tname" and bal: "balanced stock tname base s"
    and reg: "CleanupVolumeType t \<in> set (cleanups s)" and i: "map_of t ''id'' = Some i"
    and run: "external (encryption_types_create env i provider key_size cipher loc) s = Some (r, s')"
  shows "balanced stock tname base s'"
proof -
  obtain q w where q: "encryption_types_create env i provider key_size cipher loc (world s) = (q, w)" by fastforce
  have s': "s' = s\<lparr>world := w\<rparr>" using run q by (simp add: external_def)
  have "VolumeType i \<in> target ` set (cleanups s)"
    using reg i by (intro image_eqI [of _ _ "CleanupVolumeType t"]) simp_all
  then have "accounted tname base (cleanups s)
      ((stock (world s))\<lparr>encryptions := insert i (encryptions (stock (world s)))\<rparr>)"
    using bal by (auto simp: accounted_def)
  moreover have "stock w = stock (world s) \<or>
      stock w = (stock (world s))\<lparr>encryptions := insert i (encryptions (stock (world s)))\<rparr>"
    using creation_okD(14) [OF api_okD(1) [OF ok], rule_format, where i = i and p = provider and k = key_size
        and c = cipher and l = loc and w = "world s"] q
    by (auto split: sum.splits)
  ultimately show ?thesis using bal unfolding s' by auto
qed

text \<open>Clean-ups stay registered while a test runs.\<close>

lemma keeps_registered_external [keeps_intros]: "keeps (\<lambda>s. c \<in> set (cleanups s)) (external f)"
  by (auto simp: keeps_def prog_simps)

lemma keeps_registered_add [keeps_intros]: "keeps (\<lambda>s. c \<in> set (cleanups s)) (addCleanup c')"
  by (auto simp: keeps_def addCleanup_def)

lemma keeps_registered_encryption_type:
  "keeps (\<lambda>s. c \<in> set (cleanups s)) (create_encryption_type env client type_id provider key_size cipher loc)"
  unfolding create_encryption_type_def create_volume_type_def Let_def by (intro keeps_intros)

lemma create_volume_type_registers:
  "create_volume_type env client name backend_name specs kw s = Some (Inr t, s') \<Longrightarrow>
   CleanupVolumeType t \<in> set (cleanups s')"
  by (auto simp: create_volume_type_def Let_def bnd_Inr_iff seqp_Inr_iff addCleanup_def ret_def)

lemma keeps_create_encryption_type:
  assumes ok: "api_ok env stock tname"
  shows "keeps (balanced stock tname base) (create_encryption_type env None None provider key_size cipher loc)"
  unfolding keeps_def
proof (intro allI impI)
  fix s r s'
  assume bal: "balanced stock tname base s"
    and run: "create_encryption_type env None None provider key_size cipher loc s = Some (r, s')"
  let ?create = "create_volume_type env None None None [] []"
  obtain q s1 where create: "?create s = Some (q, s1)"
    using run by (auto simp: create_encryption_type_def Let_def truthy_def bnd_def split: option.splits)
  have s1: "balanced stock tname base s1"
    using keepsD [OF keeps_create_volume_type [OF ok] bal create] .
  show "balanced stock tname base s'"
  proof (cases q)
    case (Inl e)
    with run create s1 show ?thesis by (simp add: create_encryption_type_def Let_def truthy_def bnd_def)
  next
    case (Inr t)
    then have reg: "CleanupVolumeType t \<in> set (cleanups s1)"
      using create create_volume_type_registers by blast
    then obtain i where i: "map_of t ''id'' = Some i"
      using s1 by (fastforce simp: accounted_def list_all_iff volume_type_of_def split: option.splits)
    then have "external (encryption_types_create env i provider key_size cipher loc) s1 = Some (r, s')"
      using run create Inr
      by (simp add: create_encryption_type_def Let_def truthy_def bnd_def of_result_def py_key_def)
    then show ?thesis by (rule balanced_encryption [OF ok s1 reg i])
  qed
qed

lemma accounted_volume:
  assumes acc: "accounted tname base cs i" and n: "n \<in> type_names tname (target ` set cs)"
  shows "accounted tname base cs (i\<lparr>volumes := insert (v, n) (volumes i)\<rparr>)"
proof -
  have "{p \<in> insert (v, n) (volumes i). snd p \<notin> type_names tname (target ` set cs)} =
      {p \<in> volumes i. snd p \<notin> type_names tname (target ` set cs)}"
    using n by auto
  moreover have "resources (i\<lparr>volumes := vs\<rparr>) = resources i" "needs (i\<lparr>volumes := vs\<rparr>) = needs i"
    "volumes (i\<lparr>volumes := vs\<rparr>) = vs" "encryptions (i\<lparr>volumes := vs\<rparr>) = encryptions i" for vs by simp_all
  ultimately show ?thesis using acc by (simp only: accounted_def)
qed

lemma balanced_create_volume:
  assumes ok: "api_ok env stock tname" and bal: "balanced stock tname base s"
    and reg: "CleanupVolumeType t \<in> set (cleanups s)" and name: "map_of t ''name'' = Some n"
    and run: "external (tempest_create_volume env n) s = Some (r, s')"
  shows "balanced stock tname base s'"
proof -
  obtain q w where q: "tempest_create_volume env n (world s) = (q, w)" by fastforce
  have s': "s' = s\<lparr>world := w\<rparr>" using run q by (simp add: external_def)
  have "good_cleanup tname (CleanupVolumeType t)"
    using bal reg by (auto simp: accounted_def list_all_iff)
  then obtain i where i: "map_of t ''id'' = Some i" "n = tname i"
    using name by (auto simp: volume_type_of_Some)
  have "VolumeType i \<in> target ` set (cleanups s)"
    using reg i(1) by (intro image_eqI [of _ _ "CleanupVolumeType t"]) simp_all
  then have n: "n \<in> type_names tname (target ` set (cleanups s))"
    using i(2) by (auto simp: type_names_def)
  have "stock w = stock (world s) \<or> (\<exists>v. stock w = (stock (world s))\<lparr>volumes := insert (v, n) (volumes (stock (world s)))\<rparr>)"
    using volumes_okD(6) [OF api_okD(3) [OF ok], rule_format, of "world s" n] q by (auto split: sum.splits)
  then show ?thesis
    using bal accounted_volume [OF bal n] unfolding s' by auto
qed

lemma encryption_for_type:
  assumes ok: "api_ok env stock tname" and bal: "balanced stock tname base s"
    and reg: "CleanupVolumeType t \<in> set (cleanups s)" and i: "map_of t ''id'' = Some i"
    and run: "create_encryption_type env None (Some i) provider key_size cipher loc s = Some (r, s')"
  shows "balanced stock tname base s'"
proof (cases "i = []")
  case True
  then have "create_encryption_type env None None provider key_size cipher loc s = Some (r, s')"
    using run by (simp add: create_encryption_type_def Let_def truthy_def)
  then show ?thesis using keepsD [OF keeps_create_encryption_type [OF ok] bal] by blast
next
  case False
  then have "external (encryption_types_create env i provider key_size cipher loc) s = Some (r, s')"
    using run by (simp add: create_encryption_type_def Let_def truthy_def fmt_def bnd_def ret_def)
  then show ?thesis by (rule balanced_encryption [OF ok bal reg i])
qed

lemma encrypted_volume_tail:
  assumes ok: "api_ok env stock tname" and bal: "balanced stock tname base s"
    and reg: "CleanupVolumeType t \<in> set (cleanups s)"
    and run: "bnd (key t ''id'') (\<lambda>i. seqp (create_encryption_type env None (Some i) provider key_size cipher loc)
      (bnd (key t ''name'') (\<lambda>n. external (tempest_create_volume env n)))) s = Some (r, s')"
  shows "balanced stock tname base s'"
proof (cases "map_of t ''id''")
  case None
  with run bal show ?thesis by (auto simp: bnd_def of_result_def py_key_def)
next
  case (Some i)
  let ?enc = "create_encryption_type env None (Some i) provider key_size cipher loc"
  have run: "seqp ?enc (bnd (key t ''name'') (\<lambda>n. external (tempest_create_volume env n))) s = Some (r, s')"
    using run by (simp add: bnd_key_Some [OF Some])
  then obtain q s1 where enc: "?enc s = Some (q, s1)"
    by (auto simp: seqp_def bnd_def split: option.splits)
  have s1: "balanced stock tname base s1" "CleanupVolumeType t \<in> set (cleanups s1)"
    using encryption_for_type [OF ok bal reg Some enc] keepsD [OF keeps_registered_encryption_type reg enc] by auto
  show ?thesis
  proof (cases q)
    case (Inl e)
    with run enc s1 show ?thesis by (simp add: seqp_def bnd_def)
  next
    case (Inr u)
    with run enc have tail: "bnd (key t ''name'') (\<lambda>n. external (tempest_create_volume env n)) s1 = Some (r, s')"
      by (simp add: seqp_def bnd_def)
    show ?thesis
    proof (cases "map_of t ''name''")
      case None
      with tail s1 show ?thesis by (auto simp: bnd_def of_result_def py_key_def)
    next
      case (Some n)
      then show ?thesis
        using balanced_create_volume [OF ok s1 Some] tail by (simp add: bnd_key_Some)
    qed
  qed
qed

lemma keeps_create_encrypted_volume:
  assumes ok: "api_ok env stock tname"
  shows "keeps (balanced stock tname base) (create_encrypted_volume env provider vtype key_size cipher loc)"
  unfolding keeps_def
proof (intro allI impI)
  fix s r s'
  assume bal: "balanced stock tname base s" and run: "create_encrypted_volume env provider vtype key_size cipher loc s = Some (r, s')"
  let ?create = "create_volume_type env None (Some vtype) None [] []"
  obtain q s1 where create: "?create s = Some (q, s1)"
    using run by (auto simp: create_encrypted_volume_def Let_def bnd_def split: option.splits)
  have s1: "balanced stock tname base s1"
    using keepsD [OF keeps_create_volume_type [OF ok] bal create] .
  show "balanced stock tname base s'"
  proof (cases q)
    case (Inl e)
    with run create s1 show ?thesis by (simp add: create_encrypted_volume_def Let_def bnd_def)
  next
    case (Inr t)
    then have "CleanupVolumeType t \<in> set (cleanups s1)"
      using create create_volume_type_registers by blast
    then show ?thesis
      using run create Inr
      by (intro encrypted_volume_tail [OF ok s1])
        (simp_all add: create_encrypted_volume_def Let_def bnd_def [of ?create])
  qed
qed

lemma keeps_run_creation:
  assumes "api_ok env stock tname"
  shows "keeps (balanced stock tname base) (run_creation env c)"
  using assms
  by (cases c)
    (simp_all add: keeps_seqp keeps_ret keeps_create_test_server keeps_create_flavor keeps_create_keypair
      keeps_copy_default_image keeps_create_volume_type keeps_create_encryption_type
      keeps_create_encrypted_volume keeps_create_net keeps_create_subnet keeps_create_port)

lemma returns_addCleanup [returns_intros]: "always_returns (addCleanup c)"
  by (simp add: always_returns_def addCleanup_def)

lemma returns_volume_type [returns_intros]: "always_returns (create_volume_type env cl n b sp kw)"
  unfolding create_volume_type_def Let_def by (intro returns_intros)

lemma returns_encryption_type [returns_intros]: "always_returns (create_encryption_type env cl t p k c l)"
  unfolding create_encryption_type_def Let_def by (intro returns_intros)

lemma returns_run_creation: "always_returns (run_creation env c)"
  by (cases c)
    (auto simp: create_test_server_def create_flavor_def create_keypair_def copy_default_image_def
      create_encrypted_volume_def create_net_from_physical_network_def create_subnet_of_def
      create_port_from_vnic_type_def Let_def intro!: returns_intros)

section \<open>A small deployment\<close>

text \<open>
  The outside world is the list of the resources, an association list of the volumes and the list of the
  volume types that were given an encryption type. A new identifier is longer than all that are in use;
  ports and subnets are named after their network, which cannot be deleted before them.
\<close>

type_synonym demo = "resource list \<times> (string \<times> string) list \<times> string list"

fun res_id :: "resource \<Rightarrow> string" where
  "res_id (Server i) = i" | "res_id (Keypair i) = i" | "res_id (Image i) = i" | "res_id (VolumeType i) = i"
| "res_id (Network i) = i" | "res_id (Subnet i) = i" | "res_id (Port i) = i"

fun on_network :: "resource \<Rightarrow> resource \<Rightarrow> bool" where
  "on_network (Port p) (Network n) = prefix n p"
| "on_network (Subnet p) (Network n) = prefix n p"
| "on_network _ _ = False"

definition fresh_id :: "demo \<Rightarrow> string" where
  "fresh_id = (\<lambda>(rs, vs, es). replicate (Suc (sum_list (map (length \<circ> res_id) rs) +
     sum_list (map (\<lambda>(v, t). length v + length t) vs) + sum_list (map length es))) CHR ''x'')"

definition demo_stock :: "demo \<Rightarrow> inventory" where
  "demo_stock = (\<lambda>(rs, vs, es). \<lparr>resources = set rs,
     needs = {(x, y). x \<in> set rs \<and> y \<in> set rs \<and> on_network x y},
     volumes = {(v, t). map_of vs v = Some t},
     encryptions = {t \<in> set es. VolumeType t \<in> set rs}\<rparr>)"

definition demo_add :: "(demo \<Rightarrow> resource) \<Rightarrow> (demo \<Rightarrow> 'a) \<Rightarrow> (demo, 'a) ext" where
  "demo_add x answer w = (if x w \<in> set (fst w) then (Inl (OtherError ''Conflict''), w)
     else (Inr (answer w), (x w # fst w, snd w)))"

definition demo_delete :: "resource \<Rightarrow> (demo, unit) ext" where
  "demo_delete x = (\<lambda>(rs, vs, es). if (\<exists>z \<in> set rs. on_network z x) then (Inl (OtherError ''Conflict''), (rs, vs, es))
     else (Inr (), (filter (\<lambda>z. z \<noteq> x) rs, vs, es)))"

lemma fresh_longer:
  "r \<in> set (fst w) \<Longrightarrow> length (res_id r) < length (fresh_id w)"
  "(v, t) \<in> set (fst (snd w)) \<Longrightarrow> length v < length (fresh_id w) \<and> length t < length (fresh_id w)"
  "e \<in> set (snd (snd w)) \<Longrightarrow> length e < length (fresh_id w)"
proof -
  obtain rs vs es where w: "w = (rs, vs, es)" by (cases w)
  show "length (res_id r) < length (fresh_id w)" if "r \<in> set (fst w)"
    using member_le_sum_list [of "length (res_id r)" "map (length \<circ> res_id) rs"] that
    by (force simp: w fresh_id_def)
  show "length v < length (fresh_id w) \<and> length t < length (fresh_id w)" if "(v, t) \<in> set (fst (snd w))"
    using member_le_sum_list [of "length v + length t" "map (\<lambda>(v, t). length v + length t) vs"] that
    by (force simp: w fresh_id_def)
  show "length e < length (fresh_id w)" if "e \<in> set (snd (snd w))"
    using member_le_sum_list [of "length e" "map length es"] that by (force simp: w fresh_id_def)
qed

lemma demo_creates:
  assumes made: "\<And>w. made (answer w) = Some (x w)"
    and long: "\<And>w n. x w = Network n \<or> x w = VolumeType n \<Longrightarrow> length (fresh_id w) \<le> length n"
  shows "creates demo_stock made (demo_add x answer)"
  unfolding creates_def
proof
  fix w :: demo
  obtain rs vs es where w: "w = (rs, vs, es)" by (cases w)
  have unneeded: "\<not> on_network z (x w)" if "z \<in> set rs" for z
    using fresh_longer(1) [of z w] that long [of w] by (cases z; cases "x w") (auto simp: w dest!: prefix_length_le)
  have "\<not> on_network (x w) (x w)" by (cases "x w") simp_all
  then have "{(a, b). a \<in> set (x w # rs) \<and> b \<in> set (x w # rs) \<and> on_network a b} =
      {(a, b). a \<in> set rs \<and> b \<in> set rs \<and> on_network a b} \<union> {x w} \<times> {b \<in> set rs. on_network (x w) b}"
    using unneeded by auto
  moreover have "t \<notin> set es" if "x w = VolumeType t" for t
    using fresh_longer(3) [of t w] long [of w t] that by (auto simp: w)
  then have "{t \<in> set es. VolumeType t \<in> set (x w # rs)} = {t \<in> set es. VolumeType t \<in> set rs}"
    by auto
  ultimately show "case demo_add x answer w of
       (Inr a, w') \<Rightarrow> (\<exists>new. made a = Some new \<and> added new (demo_stock w) (demo_stock w'))
     | (Inl e, w') \<Rightarrow> demo_stock w' = demo_stock w"
    using made by (auto simp: demo_add_def added_def demo_stock_def w intro!: exI [of _ "{b \<in> set rs. on_network (x w) b}"])
qed

lemma demo_deletes: "deletes demo_stock x (demo_delete x)"
  by (auto simp: deletes_def deletable_def demo_stock_def demo_delete_def removed_def)

definition demo_env :: "(demo, unit) api_env" where
  "demo_env = idle_api\<lparr>
     tempest_create_test_server := (\<lambda>kw. demo_add (Server \<circ> fresh_id) (\<lambda>w. [(''id'', fresh_id w)])),
     wait_for_server_termination := (\<lambda>i. demo_delete (Server i)),
     keypairs_create := (\<lambda>kw. demo_add (\<lambda>w. Keypair (fmt (map_of kw ''name''))) (\<lambda>w. kw)),
     delete_keypair := (\<lambda>n. demo_delete (Keypair n)),
     create_image := (\<lambda>kw. demo_add (Image \<circ> fresh_id) (\<lambda>w. [(''id'', fresh_id w)])),
     delete_image := (\<lambda>i. demo_delete (Image i)),
     list_volumes := (\<lambda>w. (Inr (map (\<lambda>(v, t). [(''id'', v), (''volume_type'', t)]) (AList.clearjunk (fst (snd w)))), w)),
     delete_volume_ignoring_notfound := (\<lambda>v (rs, vs, es). (Inr (), (rs, filter (\<lambda>p. fst p \<noteq> v) vs, es))),
     volume_types_create := (\<lambda>n sp kw. demo_add (VolumeType \<circ> fresh_id)
       (\<lambda>w. [(''id'', fresh_id w), (''name'', fresh_id w)])),
     delete_volume_type := (\<lambda>i. demo_delete (VolumeType i)),
     encryption_types_create := (\<lambda>i p k c l (rs, vs, es).
       if VolumeType i \<in> set rs then (Inr (), (rs, vs, i # es)) else (Inl (OtherError ''NotFound''), (rs, vs, es))),
     tempest_create_volume := (\<lambda>t w. (Inr [], (fst w, (fresh_id w, t) # fst (snd w), snd (snd w)))),
     create_network := (\<lambda>n d. demo_add (Network \<circ> fresh_id) (\<lambda>w. [(''id'', fresh_id w)])),
     delete_network := (\<lambda>i. demo_delete (Network i)),
     create_subnet := (\<lambda>n i c v. demo_add (\<lambda>w. Subnet (i @ fresh_id w)) (\<lambda>w. [(''id'', i @ fresh_id w)])),
     delete_subnet := (\<lambda>i. demo_delete (Subnet i)),
     create_port := (\<lambda>i p. demo_add (\<lambda>w. Port (i @ fresh_id w)) (\<lambda>w. [(''id'', i @ fresh_id w)])),
     delete_port := (\<lambda>i. demo_delete (Port i))\<rparr>"

definition demo_state :: "demo test" where
  "demo_state = \<lparr>nodes_cache = None, cleanups = [], world = ([Network ''n'', VolumeType ''lvm''], [(''v'', ''lvm'')], [])\<rparr>"

lemma demo_encrypts:
  "VolumeType i \<in> set rs \<Longrightarrow> demo_stock (rs, vs, i # es) =
     (demo_stock (rs, vs, es))\<lparr>encryptions := insert i (encryptions (demo_stock (rs, vs, es)))\<rparr>"
  by (auto simp: demo_stock_def)

lemma demo_creation_ok: "creation_ok demo_env demo_stock id"
  unfolding creation_ok_def demo_env_def idle_api_def
  by (auto simp: demo_encrypts quiet_def by_id_def volume_type_of_def fmt_def intro!: demo_creates)

lemma demo_deletion_ok: "deletion_ok demo_env demo_stock"
  unfolding deletion_ok_def demo_env_def idle_api_def
  using demo_deletes by (auto simp: deletes_def)

lemma map_of_filter_fst: "map_of (filter (\<lambda>p. fst p \<noteq> v) vs) u = (if u = v then None else map_of vs u)"
  by (induction vs) auto

lemma demo_volumes_ok: "volumes_ok demo_env demo_stock id"
  unfolding volumes_ok_def
proof (intro conjI allI impI)
  fix w :: demo
  show "\<exists>vs w' ps. list_volumes demo_env w = (Inr vs, w') \<and> demo_stock w' = demo_stock w \<and>
      set ps = volumes (demo_stock w) \<and>
      list_all2 (\<lambda>v (i, t). map_of v ''id'' = Some i \<and> map_of v ''volume_type'' = Some t) vs ps"
    by (rule exI, rule exI [of _ w], rule exI [of _ "AList.clearjunk (fst (snd w))"])
      (auto simp: demo_env_def demo_stock_def list_all2_map1 list.rel_refl split_beta
        map_of_eq_Some_iff [OF distinct_clearjunk, symmetric] map_of_clearjunk
        intro!: list_all2_refl)
next
  fix v :: string and w :: demo
  show "\<exists>w'. delete_volume_ignoring_notfound demo_env v w = (Inr (), w') \<and>
      demo_stock w' = (demo_stock w)\<lparr>volumes := {p \<in> volumes (demo_stock w). fst p \<noteq> v}\<rparr>"
    by (cases w) (auto simp: demo_env_def demo_stock_def map_of_filter_fst split: if_splits)
  show "\<exists>w'. wait_for_volume_deletion demo_env v w = (Inr (), w') \<and> demo_stock w' = demo_stock w"
    by (simp add: demo_env_def idle_api_def)
next
  fix i :: string and w :: demo
  assume "deletable (VolumeType i) (demo_stock w)"
  then show "\<exists>w'. delete_volume_type demo_env i w = (Inr (), w') \<and> demo_stock w' = removed (VolumeType i) (demo_stock w)"
    using demo_deletes [of "VolumeType i", unfolded deletes_def, rule_format, of w] by (simp add: demo_env_def)
next
  fix w v t t'
  assume "(v, t) \<in> volumes (demo_stock w)" and "(v, t') \<in> volumes (demo_stock w)"
  then show "t = t'" by (auto simp: demo_stock_def split: prod.splits)
next
  fix t :: string and w :: demo
  have "map_of (fst (snd w)) (fresh_id w) = None"
    using fresh_longer(2) [of "fresh_id w" _ w] by (fastforce simp: map_of_eq_None_iff)
  then have "\<exists>v. demo_stock (fst w, (fresh_id w, t) # fst (snd w), snd (snd w)) =
      (demo_stock w)\<lparr>volumes := insert (v, t) (volumes (demo_stock w))\<rparr>"
    by (intro exI [of _ "fresh_id w"]) (cases w; auto simp: demo_stock_def split: if_splits)
  then show "case tempest_create_volume demo_env t w of
      (Inr x, w') \<Rightarrow> (\<exists>v. demo_stock w' = (demo_stock w)\<lparr>volumes := insert (v, t) (volumes (demo_stock w))\<rparr>)
    | (Inl e, w') \<Rightarrow> demo_stock w' = demo_stock w"
    by (simp add: demo_env_def)
next
  fix n :: string and sp kw :: api_object and w :: demo and t w' i v
  assume "volume_types_create demo_env n sp kw w = (Inr t, w')" and "map_of t ''id'' = Some i"
  then have "i = fresh_id w" by (auto simp: demo_env_def demo_add_def split: if_splits)
  then show "(v, id i) \<notin> volumes (demo_stock w)"
    using fresh_longer(2) [of v i w] by (auto simp: demo_stock_def split: prod.splits dest!: map_of_SomeD)
qed

lemma demo_api_ok: "api_ok demo_env demo_stock id"
  using demo_creation_ok demo_deletion_ok demo_volumes_ok
  by (auto simp: api_ok_def consistent_def demo_stock_def)

section \<open>Properties\<close>

text \<open>C3. Tests clean up after themselves. Whatever servers, flavors, key pairs, images, volume types, encryption
  types for new volume types, encrypted volumes, networks, subnets and ports a test creates with the operations
  of the base class, in any order and up to the first call that fails, every clean-up that these operations register
  succeeds when they are run in reverse order, and the deployment then holds exactly the servers, key pairs, images,
  volume types with their encryption types, volumes, networks, subnets and ports that it held before the test. The
  services are taken to behave as documented; a volume type is deleted together with its encryption type. Not
  counted are flavors, which Tempest cleans up itself, and not among the operations is the creation of an encryption
  type for a volume type that was there before, which is not cleaned up.\<close>

theorem test_leaves_nothing:
  assumes "api_ok env stock tname" and "cleanups s = []"
  shows "\<exists>r s'. run_test env (forM (run_creation env) cs) s = Some ((r, []), s') \<and>
    stock (world s') = stock (world s)"
proof -
  have "balanced stock tname (stock (world s)) s"
    using assms(2) accounted_start [OF api_okD(4) [OF assms(1)]] by simp
  moreover obtain r s1 where run: "forM (run_creation env) cs s = Some (r, s1)"
    using always_returnsD [OF returns_forM [of "run_creation env" cs, OF returns_run_creation]] by blast
  ultimately have "balanced stock tname (stock (world s)) s1"
    using keepsD [OF keeps_forM [of cs _ "run_creation env", OF keeps_run_creation [OF assms(1)]]] by blast
  from do_cleanups_undo [OF assms(1) this] run show ?thesis
    by (auto simp: run_test_def)
qed

theorem test_leaves_nothing_witness:
  "\<exists>r s'. run_test demo_env (forM (run_creation demo_env)
      [CreateNetFromPhysicalNetwork (JInt 5) ''physnet'', CreateSubnet ''n'',
       CreatePortFromVnicType [(''id'', ''n'')] ''direct'' None, CopyDefaultImage [],
       CreateEncryptedVolume ''luks'' ''t'' None None None, CreateEncryptionType None None None None,
       CreateTestServer []]) demo_state = Some ((r, []), s') \<and>
    demo_stock (world s') = demo_stock ([Network ''n'', VolumeType ''lvm''], [(''v'', ''lvm'')], [])"
proof -
  have world: "([Network ''n'', VolumeType ''lvm''], [(''v'', ''lvm'')], []) = world demo_state" and none: "cleanups demo_state = []"
    by (simp_all add: demo_state_def)
  show ?thesis
    unfolding world by (rule test_leaves_nothing [OF demo_api_ok none])
qed

text \<open>An encryption type for a volume type that was there before stays: no clean-up is registered for it.\<close>

lemma encryption_type_stays:
  assumes ok: "api_ok env stock tname" and none: "cleanups s = []" and i: "i \<noteq> []"
    and run: "create_encryption_type env None (Some i) provider key_size cipher loc s = Some (Inr (), s1)"
  shows "\<exists>s'. run_test env (create_encryption_type env None (Some i) provider key_size cipher loc) s = Some ((Inr (), []), s') \<and>
    encryptions (stock (world s')) = insert i (encryptions (stock (world s)))"
proof -
  have "external (encryption_types_create env i provider key_size cipher loc) s = Some (Inr (), s1)"
    using run i by (simp add: create_encryption_type_def Let_def truthy_def fmt_def bnd_def ret_def)
  then obtain w where "encryption_types_create env i provider key_size cipher loc (world s) = (Inr (), w)"
    and s1: "s1 = s\<lparr>world := w\<rparr>"
    by (cases "encryption_types_create env i provider key_size cipher loc (world s)") (simp add: external_def)
  then have "stock w = (stock (world s))\<lparr>encryptions := insert i (encryptions (stock (world s)))\<rparr>"
    using creation_okD(14) [OF api_okD(1) [OF ok], rule_format, where i = i and p = provider and k = key_size
        and c = cipher and l = loc and w = "world s"] by simp
  with run none show ?thesis by (simp add: run_test_def do_cleanups_def s1)
qed

text \<open>Cleaning up after a volume type removes it together with every volume of that type, and no other
  volume; the volumes go first, since a type that is in use cannot be deleted.\<close>

theorem cleanup_volume_type_removes:
  assumes "volumes_ok env stock tname" and "map_of t ''id'' = Some i" and "map_of t ''name'' = Some (tname i)"
    and "deletable (VolumeType i) (stock (world s))"
  shows "\<exists>s'. cleanup_volume_type env t s = Some (Inr (), s') \<and>
    stock (world s') = (removed (VolumeType i) (stock (world s)))
      \<lparr>volumes := {p \<in> volumes (stock (world s)). snd p \<noteq> tname i}\<rparr>"
  using assms by (rule cleanup_volume_type_run)

theorem cleanup_volume_type_removes_witness:
  "\<exists>s'. cleanup_volume_type demo_env [(''id'', ''lvm''), (''name'', ''lvm'')]
      (demo_state\<lparr>world := ([VolumeType ''lvm''], [(''v'', ''lvm''), (''u'', ''nfs'')], [''lvm''])\<rparr>) = Some (Inr (), s') \<and>
    volumes (demo_stock (world s')) = {(''u'', ''nfs'')} \<and> resources (demo_stock (world s')) = {} \<and>
    encryptions (demo_stock (world s')) = {}"
proof -
  let ?s = "demo_state\<lparr>world := ([VolumeType ''lvm''], [(''v'', ''lvm''), (''u'', ''nfs'')], [''lvm''])\<rparr>"
  have "deletable (VolumeType ''lvm'') (demo_stock (world ?s))"
    by (simp add: deletable_def demo_stock_def)
  from cleanup_volume_type_removes [OF demo_volumes_ok, of "[(''id'', ''lvm''), (''name'', ''lvm'')]" "''lvm''" ?s] this
  show ?thesis by (auto simp: demo_stock_def removed_def split: if_splits)
qed

end
