(* ===== verification/Server_Checks.thy ===== *)
theory Server_Checks
  imports Compute_Base
begin

text \<open>
  What the operations of \<^verbatim>\<open>whitebox_tempest_plugin/api/compute/base.py\<close> that look at a running server
  tell a test: where a server is after a migration, which interface of its domain belongs to a port,
  whether its PCI devices are those of the port, and whether its domain has been shut down.
\<close>

section \<open>Migrations\<close>

text \<open>Tempest reports the host of a server truthfully, and asking does not move it.\<close>

definition host_reported ::
  "('w, 'h, 'm) api_env_scheme \<Rightarrow> string \<Rightarrow> ('w \<Rightarrow> string) \<Rightarrow> bool" where
  "host_reported env server_id place \<longleftrightarrow> (\<forall>w. \<exists>w'. get_host_for_server env server_id w = (Inr (place w), w') \<and>
     place w' = place w)"

lemma host_reportedD:
  assumes "host_reported env server_id place"
  shows "\<exists>s'. external (get_host_for_server env server_id) s = Some (Inr (place (world s)), s') \<and>
    place (world s') = place (world s)"
proof -
  obtain w where "get_host_for_server env server_id (world s) = (Inr (place (world s)), w)"
    and "place w = place (world s)"
    using assms unfolding host_reported_def by blast
  then show ?thesis by (simp add: external_def)
qed

definition migrated :: "string option \<Rightarrow> string \<Rightarrow> string \<Rightarrow> bool" where
  "migrated target before after \<longleftrightarrow> (if truthy target then target = Some after else before \<noteq> after)"

lemma live_migrate_run:
  assumes report: "host_reported env server_id place"
    and migrate: "\<And>w. \<exists>w'. live_migrate_server env server_id ''auto'' target_host w = (Inr (), w')"
    and wait: "\<And>w. \<exists>w'. wait_for_server_status env creds server_id state w = (Inr (), w')"
  shows "\<exists>s'. live_migrate env creds server_id state target_host s =
    Some (if migrated target_host (place (world s)) (place (world s')) then Inr () else Inl AssertionError, s')"
proof -
  obtain s1 where s1: "external (get_host_for_server env server_id) s = Some (Inr (place (world s)), s1)"
    using host_reportedD [OF report] by blast
  obtain w2 where w2: "live_migrate_server env server_id ''auto'' target_host (world s1) = (Inr (), w2)"
    using migrate by blast
  obtain w3 where w3: "wait_for_server_status env creds server_id state w2 = (Inr (), w3)"
    using wait by blast
  obtain s4 where s4: "external (get_host_for_server env server_id) (s1\<lparr>world := w3\<rparr>) =
      Some (Inr (place w3), s4)" "place (world s4) = place w3"
    using host_reportedD [OF report, of "s1\<lparr>world := w3\<rparr>"] by auto
  have "live_migrate env creds server_id state target_host s =
      check (migrated target_host (place (world s)) (place w3)) s4"
    using s1 w2 w3 s4(1)
    by (auto simp: live_migrate_def bnd_def seqp_def migrated_def external_def [of "live_migrate_server _ _ _ _"]
        external_def [of "wait_for_server_status _ _ _ _"])
  then show ?thesis using s4(2) by (simp add: prog_simps)
qed

section \<open>Interfaces\<close>

text \<open>The interfaces of a domain, and those of a type with a given MAC address.\<close>

definition interfaces :: "xml \<Rightarrow> xml list" where
  "interfaces root = walk (Child ''interface'') (walk (Child ''devices'') [root])"

definition has_mac :: "string \<Rightarrow> xml \<Rightarrow> bool" where
  "has_mac mac e \<longleftrightarrow> (\<exists>c \<in> set (xml_children e). xml_tag c = ''mac'' \<and> attr c ''address'' = Some mac)"

lemma findall_interface_path:
  "findall root (interface_path t mac) =
   filter (\<lambda>e. attr e ''type'' = Some t \<and> has_mac mac e) (interfaces root)"
  using findall_with_child [of "[Child ''devices'', Child ''interface'', AttrIs ''type'' t]" root "''mac''"
      "''address''" mac]
  by (simp add: interface_path_def interfaces_def has_mac_def conj_commute)

section \<open>PCI devices\<close>

definition allowed_dev_types :: "json option \<Rightarrow> json set" where
  "allowed_dev_types vnic_type =
     (if vnic_type = Some (JStr ''vdpa'') then {JStr ''vdpa''}
      else if vnic_type = Some (JStr ''direct-physical'') then {JStr ''type-PF''}
      else {JStr ''type-VF'', JStr ''type-PCI''})"

definition bound_device :: "json option \<Rightarrow> json option \<Rightarrow> json_object \<Rightarrow> bool" where
  "bound_device profile vnic_type row \<longleftrightarrow> map_of row ''status'' = Some (JStr ''allocated'') \<and>
     (\<exists>slot. pci_slot profile = Inr slot \<and> map_of row ''address'' = Some slot) \<and>
     (\<exists>t \<in> allowed_dev_types vnic_type. map_of row ''dev_type'' = Some t)"

lemma json_key_Inr_iff: "json_key d k = Inr v \<longleftrightarrow> map_of d k = Some v"
  by (auto simp: json_key_def split: option.splits)

lemma dev_type_check:
  "(if vnic_type = Some (JStr ''vdpa'') then check (t = JStr ''vdpa'')
    else if vnic_type = Some (JStr ''direct-physical'') then check (t = JStr ''type-PF'')
    else check (t \<in> {JStr ''type-VF'', JStr ''type-PCI''})) = check (t \<in> allowed_dev_types vnic_type)"
  by (simp add: allowed_dev_types_def)

lemma check_Inr_iff: "check b s = Some (Inr u, s') \<longleftrightarrow> b \<and> s' = s"
  by (auto simp: run_check)

lemma py_nth_Inr_0: "py_nth xs 0 = Inr x \<longleftrightarrow> (\<exists>ys. xs = x # ys)"
  by (cases xs) (auto simp: py_nth_def)

lemma run_key_Inr_iff: "key d k s = Some (Inr v, s') \<longleftrightarrow> map_of d k = Some v \<and> s' = s"
  by (auto simp: run_of_result py_key_def split: option.splits)

lemma verify_pci_device_Inr_iff:
  "verify_pci_device profile vnic_type row s = Some (Inr (), s') \<longleftrightarrow>
     s' = s \<and> bound_device profile vnic_type row"
proof -
  have "verify_pci_device profile vnic_type row s = Some (Inr (), s') \<longleftrightarrow> s' = s \<and>
      (\<exists>status address slot t. json_key row ''status'' = Inr status \<and> json_key row ''address'' = Inr address \<and>
        JStr ''allocated'' = status \<and> pci_slot profile = Inr slot \<and> address = slot \<and>
        json_key row ''dev_type'' = Inr t \<and> t \<in> allowed_dev_types vnic_type)"
    unfolding verify_pci_device_def dev_type_check
    by (simp only: bnd_Inr_iff seqp_Inr_iff run_of_result check_Inr_iff option.inject prod.inject) blast
  also have "\<dots> \<longleftrightarrow> s' = s \<and> bound_device profile vnic_type row"
    by (auto simp: json_key_Inr_iff bound_device_def)
  finally show ?thesis .
qed

lemma verify_pci_devices_Inr_iff:
  "forM (verify_pci_device profile vnic_type) rows s = Some (Inr (), s') \<longleftrightarrow>
     s' = s \<and> list_all (bound_device profile vnic_type) rows"
  by (induction rows) (auto simp: seqp_Inr_iff verify_pci_device_Inr_iff run_ret)

section \<open>Waiting for a domain to be shut down\<close>

text \<open>
  Since the loop never sleeps, only the command it runs can make time pass. A single listing may be
  too short to be seen by a clock that counts seconds; what the loop needs is that listing the domains
  again and again lets the clock go beyond every bound.
\<close>

definition listing :: "('w, 'm) sys_env_scheme \<Rightarrow> ssh_client \<Rightarrow> ('w, string) ext" where
  "listing env c = as_root env c ''virsh list --name''"

definition after_listings :: "('w, 'm) sys_env_scheme \<Rightarrow> ssh_client \<Rightarrow> nat \<Rightarrow> 'w \<Rightarrow> 'w" where
  "after_listings env c n = (\<lambda>w. snd (listing env c w)) ^^ n"

definition listing_takes_time :: "('w, 'm) sys_env_scheme \<Rightarrow> ssh_client \<Rightarrow> bool" where
  "listing_takes_time env c \<longleftrightarrow> (\<forall>w t. \<exists>n. t < clock env (after_listings env c n w))"

text \<open>The time is not over, and the domain is listed: the loop goes on.\<close>

definition still_listed :: "('w, 'm) sys_env_scheme \<Rightarrow> ssh_client \<Rightarrow> string \<Rightarrow> int \<Rightarrow> 'w \<Rightarrow> bool" where
  "still_listed env c name t0 w \<longleftrightarrow> clock env w - t0 \<le> build_timeout (cfg env) \<and>
     (\<exists>domains. fst (listing env c w) = Inr domains \<and> py_in name domains)"

lemma after_listings_0 [simp]: "after_listings env c 0 w = w"
  by (simp add: after_listings_def)

lemma after_listings_Suc: "after_listings env c (Suc n) w = after_listings env c n (snd (listing env c w))"
  by (simp add: after_listings_def funpow_Suc_right del: funpow.simps)

lemma domain_step_cases:
  "domain_step (env, c, name, t0) s =
     (if clock env (world s) - t0 \<le> build_timeout (cfg env)
      then (case listing env c (world s) of
          (Inl e, w) \<Rightarrow> Inl (Inl e, s\<lparr>world := w\<rparr>)
        | (Inr domains, w) \<Rightarrow>
            (if py_in name domains then Inr (s\<lparr>world := w\<rparr>) else Inl (Inr (), s\<lparr>world := w\<rparr>)))
      else Inl (Inl TimeoutException, s))"
  by (simp add: domain_step_def listing_def Let_def split: prod.split sum.split)

lemma domain_step_Inr_iff:
  "domain_step (env, c, name, t0) s = Inr s' \<longleftrightarrow>
     still_listed env c name t0 (world s) \<and> s' = s\<lparr>world := snd (listing env c (world s))\<rparr>"
  by (auto simp: domain_step_cases still_listed_def split: prod.splits sum.splits)

interpretation domain_poll: polling "\<lambda>(env, c, name, t0). listing_takes_time env c" domain_step
  "\<lambda>(env, c, name, t0) s. LEAST n. build_timeout (cfg env) < clock env (after_listings env c n (world s)) - t0"
proof (unfold_locales, goal_cases)
  case (1 p s s')
  obtain env c name t0 where p: "p = (env, c, name, t0)" by (cases p)
  let ?over = "\<lambda>n. build_timeout (cfg env) < clock env (after_listings env c n (world s)) - t0"
  have "still_listed env c name t0 (world s)" and world: "world s' = snd (listing env c (world s))"
    using 1(2) by (simp_all add: p domain_step_Inr_iff)
  then have "\<not> ?over 0" by (simp add: still_listed_def)
  moreover obtain n where "?over n"
    using 1(1) unfolding p listing_takes_time_def
    by simp (metis add.commute less_diff_eq)
  ultimately have "(LEAST n. ?over n) = Suc (LEAST n. ?over (Suc n))"
    by (rule_tac Least_Suc)
  then show ?case by (simp add: p world after_listings_Suc)
qed

lemma iterate_runs_on:
  assumes "I x" and "\<And>y. I y \<Longrightarrow> \<exists>z. step y = Inr z \<and> I z"
  shows "iterate step x = None"
proof (rule ccontr)
  assume "iterate step x \<noteq> None"
  then obtain r where "iterate step x = Some r" by blast
  then have "\<exists>y. I y \<and> step y = Inl r"
    using assms by (rule_tac iterate_invariant) (auto, metis sum.sel(2))
  then show False using assms(2) by fastforce
qed

lemma domain_turns:
  assumes "turns (domain_step (env, c, name, t0)) n s r"
  shows "(\<forall>m<n. still_listed env c name t0 (after_listings env c m (world s))) \<and>
    domain_step (env, c, name, t0) (s\<lparr>world := after_listings env c n (world s)\<rparr>) = Inl r"
  using assms
proof (induction n s r rule: turns.induct)
  case (go_on s s1 n r)
  then show ?case
    by (auto simp: domain_step_Inr_iff after_listings_Suc less_Suc_eq_0_disj)
qed simp

text \<open>How the loop is left in the first state in which it does not go on.\<close>

definition domain_result ::
  "('w, 'm) sys_env_scheme \<Rightarrow> ssh_client \<Rightarrow> int \<Rightarrow> 'w \<Rightarrow> unit result \<times> 'w" where
  "domain_result env c t0 w =
     (if build_timeout (cfg env) < clock env w - t0 then (Inl TimeoutException, w)
      else case listing env c w of (r, w') \<Rightarrow> (map_sum id (\<lambda>_. ()) r, w'))"

lemma domain_step_Inl:
  "domain_step (env, c, name, t0) s = Inl q \<longleftrightarrow> \<not> still_listed env c name t0 (world s) \<and>
     q = (fst (domain_result env c t0 (world s)), s\<lparr>world := snd (domain_result env c t0 (world s))\<rparr>)"
  by (auto simp: domain_step_cases still_listed_def domain_result_def split: prod.splits sum.splits)

lemma domain_result_cases:
  "Some (fst (domain_result env c t0 w), s\<lparr>world := snd (domain_result env c t0 w)\<rparr>) =
     (if \<not> clock env w - t0 \<le> build_timeout (cfg env) then Some (Inl TimeoutException, s\<lparr>world := w\<rparr>)
      else case listing env c w of
          (Inl e, w') \<Rightarrow> Some (Inl e, s\<lparr>world := w'\<rparr>)
        | (Inr domains, w') \<Rightarrow> Some (Inr (), s\<lparr>world := w'\<rparr>))"
  by (simp add: domain_result_def split: prod.split sum.split)

lemma domain_wait_run:
  assumes "listing_takes_time env c"
  shows "\<exists>n. let t0 = clock env (world s); w = after_listings env c n (world s) in
    (\<forall>m<n. still_listed env c name t0 (after_listings env c m (world s))) \<and> \<not> still_listed env c name t0 w \<and>
    wait_for_domain_shutdown env c name s =
      Some (fst (domain_result env c t0 w), s\<lparr>world := snd (domain_result env c t0 w)\<rparr>)"
proof -
  let ?step = "domain_step (env, c, name, clock env (world s))"
  obtain n q where turns: "turns ?step n s q"
    using domain_poll.bounded [of "(env, c, name, clock env (world s))" s] assms by auto
  from domain_turns [OF turns] iterate_turns [OF turns] show ?thesis
    by (auto simp: Let_def wait_for_domain_shutdown_def domain_step_Inl)
qed

lemma domain_wait_None_iff:
  fixes s :: "('c, 'w) proc"
  shows "wait_for_domain_shutdown env c name s = None \<longleftrightarrow>
    (\<forall>n. still_listed env c name (clock env (world s)) (after_listings env c n (world s)))" (is "?L \<longleftrightarrow> ?R")
proof
  let ?p = "(env, c, name, clock env (world s))"
  assume none: ?L
  show ?R
  proof (rule ccontr)
    assume "\<not> ?R"
    then obtain n where n: "\<not> still_listed env c name (clock env (world s)) (after_listings env c n (world s))"
      by blast
    have "\<exists>r. iterate (domain_step ?p) t = Some r"
      if "\<not> still_listed env c name (clock env (world s)) (after_listings env c n (world t))" for t :: "('c, 'w) proc"
      using that
    proof (induction n arbitrary: t)
      case 0
      then show ?case by (cases "domain_step ?p t") (auto simp: iterate.simps [of _ t] domain_step_Inr_iff)
    next
      case (Suc n)
      show ?case
      proof (cases "domain_step ?p t")
        case (Inr z)
        then have "world z = snd (listing env c (world t))" by (simp add: domain_step_Inr_iff)
        with Suc.IH [of z] Suc.prems Inr show ?thesis
          by (simp add: iterate.simps [of _ t] after_listings_Suc)
      qed (simp add: iterate.simps [of _ t])
    qed
    from this [OF n] none show False by (simp add: wait_for_domain_shutdown_def)
  qed
next
  let ?go = "\<lambda>t :: ('c, 'w) proc. \<forall>n. still_listed env c name (clock env (world s)) (after_listings env c n (world t))"
  assume ?R
  moreover have "\<exists>z. domain_step (env, c, name, clock env (world s)) t = Inr z \<and> ?go z" if go: "?go t" for t
  proof (intro exI conjI)
    show "domain_step (env, c, name, clock env (world s)) t = Inr (t\<lparr>world := snd (listing env c (world t))\<rparr>)"
      using go [rule_format, of 0] by (simp add: domain_step_Inr_iff)
    show "?go (t\<lparr>world := snd (listing env c (world t))\<rparr>)"
      using go [rule_format, of "Suc _"] by (simp add: after_listings_Suc)
  qed
  ultimately show ?L
    unfolding wait_for_domain_shutdown_def by (rule iterate_runs_on [of ?go])
qed

section \<open>Properties\<close>

text \<open>C22. A live migration that is reported as done is done. If Tempest reports the host of a server
  truthfully and both the request and the wait go through, whenever the server moves meanwhile, the
  operation returns normally exactly if the server ended on the target host, or, without a target, on
  another host than before; otherwise it fails with an assertion error.\<close>

theorem live_migrate_outcome:
  assumes "host_reported env server_id place"
    and "\<And>w. \<exists>w'. live_migrate_server env server_id ''auto'' target_host w = (Inr (), w')"
    and "\<And>w. \<exists>w'. wait_for_server_status env creds server_id state w = (Inr (), w')"
  shows "\<exists>s'. live_migrate env creds server_id state target_host s =
    Some (if (if truthy target_host then target_host = Some (place (world s'))
              else place (world s) \<noteq> place (world s'))
          then Inr () else Inl AssertionError, s')"
  by (rule live_migrate_run [OF assms, unfolded migrated_def])

definition moving_env :: "(string, unit) api_env" where
  "moving_env = idle_api\<lparr>get_host_for_server := (\<lambda>i w. (Inr w, w)),
     live_migrate_server := (\<lambda>i b t w. (Inr (), ''c2''))\<rparr>"

theorem live_migrate_outcome_witness:
  "\<exists>s'. live_migrate moving_env Primary ''vm'' ''ACTIVE'' (Some ''c3'')
      \<lparr>nodes_cache = None, cleanups = [] :: unit list, world = ''c1''\<rparr> = Some (Inl AssertionError, s') \<and>
    world s' \<noteq> ''c3''"
proof -
  let ?s = "\<lparr>nodes_cache = None, cleanups = [], world = ''c1''\<rparr> :: (unit, string) proc"
  have "\<exists>s'. live_migrate moving_env Primary ''vm'' ''ACTIVE'' (Some ''c3'') ?s =
    Some (if (if truthy (Some ''c3'') then Some ''c3'' = Some (id (world s')) else id (world ?s) \<noteq> id (world s'))
      then Inr () else Inl AssertionError, s')"
    by (rule live_migrate_outcome [where place = id])
      (simp_all add: host_reported_def moving_env_def idle_api_def)
  then obtain s' where run: "live_migrate moving_env Primary ''vm'' ''ACTIVE'' (Some ''c3'') ?s =
    Some (if (if truthy (Some ''c3'') then Some ''c3'' = Some (id (world s')) else id (world ?s) \<noteq> id (world s'))
      then Inr () else Inl AssertionError, s')" ..
  have "world s' = ''c2''"
    using run by (auto simp: live_migrate_def bnd_def seqp_def prog_simps truthy_def moving_env_def idle_api_def)
  with run show ?thesis by (simp add: truthy_def)
qed

text \<open>C15. The interface of a port is found by what it is. Given the port and the domain of the server, the
  operation returns an element exactly if it is the only interface of the domain that has the type
  the port's kind stands for and a MAC element with the port's address; if there is none, or more
  than one, it fails with an assertion error.\<close>

theorem interface_device_found:
  assumes "external (show_port env port_id) s = Some (Inr port, s1)"
    and "get_expected_xml_interface_type port = Inr t"
    and "get_server_xml env server_id s1 = Some (Inr root, s2)"
    and "map_of port ''mac_address'' = Some mac"
  shows "get_xml_interface_device env server_id port_id s =
    (case filter (\<lambda>e. attr e ''type'' = Some (fmt t) \<and>
        (\<exists>c \<in> set (xml_children e). xml_tag c = ''mac'' \<and> attr c ''address'' = Some (fmt_value env mac)))
      (concat (map (\<lambda>d. filter (\<lambda>e. xml_tag e = ''interface'') (xml_children d))
        (filter (\<lambda>d. xml_tag d = ''devices'') (xml_children root)))) of
     [e] \<Rightarrow> Some (Inr e, s2)
   | _ \<Rightarrow> Some (Inl AssertionError, s2))"
proof -
  let ?found = "findall root (interface_path (fmt t) (fmt_value env mac))"
  have "get_xml_interface_device env server_id port_id s =
      seqp (check (length ?found = 1)) (of_result (py_nth ?found 0)) s2"
    using assms by (simp add: get_xml_interface_device_def bnd_def of_result_def json_key_def Let_def)
  also have "\<dots> = (case ?found of [e] \<Rightarrow> Some (Inr e, s2) | _ \<Rightarrow> Some (Inl AssertionError, s2))"
    by (auto simp: seqp_def bnd_def prog_simps py_nth_def split: list.split)
  finally show ?thesis
    by (simp add: findall_interface_path has_mac_def interfaces_def)
qed

text \<open>A server with one interface, on a host that prints its domain.\<close>

definition one_interface :: xml where
  "one_interface = Elem ''domain'' [] None [Elem ''devices'' [] None
     [Elem ''interface'' [(''type'', ''hostdev'')] None [Elem ''mac'' [(''address'', ''52:54'')] None []],
      Elem ''interface'' [(''type'', ''bridge'')] None [Elem ''mac'' [(''address'', ''52:55'')] None []]]]"

definition port_env :: "(unit, unit) api_env" where
  "port_env = idle_api\<lparr>show_port := (\<lambda>i w. (Inr [(''binding:vnic_type'', JStr ''direct''),
       (''mac_address'', JStr ''52:54'')], w)),
     show_server := (\<lambda>i w. (Inr [(''OS-EXT-SRV-ATTR:host'', ''c1''),
       (''OS-EXT-SRV-ATTR:instance_name'', ''instance-1'')], w)),
     et_fromstring := (\<lambda>t. Inr one_interface)\<rparr>"

definition port_state :: "(unit, unit) proc" where
  "port_state = \<lparr>nodes_cache = Some [(''c1'', \<lparr>hd_services = Some [(''libvirt'', [])],
     hd_cpu_dedicated_set = None, hd_cpu_shared_set = None\<rparr>)], cleanups = [], world = ()\<rparr>"

lemma port_env_xml: "get_server_xml port_env i port_state = Some (Inr one_interface, port_state)"
  by (simp add: get_server_xml_def port_env_def idle_api_def port_state_def bnd_def prog_simps py_key_def
      VirshXMLClient_def run_SSHClient get_host_details_def require_section_cases get_ctlplane_address_def
      default_conf_def dumpxml_def execute_def in_container_def ssh_client.defs)

theorem interface_device_found_witness:
  "get_xml_interface_device port_env ''vm'' ''port'' port_state =
   Some (Inr (Elem ''interface'' [(''type'', ''hostdev'')] None [Elem ''mac'' [(''address'', ''52:54'')] None []]),
     port_state)"
proof -
  have "get_expected_xml_interface_type [(''binding:vnic_type'', JStr ''direct''), (''mac_address'', JStr ''52:54'')] =
      Inr (Some ''hostdev'')"
    by (simp add: get_expected_xml_interface_type_def json_key_def VNIC_MAPPING_DICT_def)
  with interface_device_found [of port_env "''port''" port_state
      "[(''binding:vnic_type'', JStr ''direct''), (''mac_address'', JStr ''52:54'')]" port_state
      "Some ''hostdev''" "''vm''" one_interface port_state "JStr ''52:54''"] port_env_xml [of "''vm''"]
  show ?thesis
    by (simp add: port_env_def idle_api_def port_state_def external_def one_interface_def attr_def fmt_def fmt_value_def)
qed

text \<open>C25. A port binding is accepted exactly if every PCI device that Nova's database has for the server
  is allocated, has the address in the port's binding profile and is of a kind that fits the port. A
  server without PCI devices is accepted whatever the port says.\<close>

theorem port_binding_accepted:
  assumes "get_port_attribute env port_id ''binding:profile'' s = Some (Inr profile, s1)"
    and "search_pci_devices env ''instance_uuid'' server_id s1 = Some (Inr rows, s2)"
    and "get_port_attribute env port_id ''binding:vnic_type'' s2 = Some (Inr vnic_type, s3)"
  shows "verify_neutron_port_binding env server_id port_id s = Some (Inr (), s3) \<longleftrightarrow>
    list_all (\<lambda>row. map_of row ''status'' = Some (JStr ''allocated'') \<and>
      (\<exists>slot. pci_slot profile = Inr slot \<and> map_of row ''address'' = Some slot) \<and>
      (\<exists>t \<in> allowed_dev_types vnic_type. map_of row ''dev_type'' = Some t)) rows"
proof -
  have "verify_neutron_port_binding env server_id port_id s = forM (verify_pci_device profile vnic_type) rows s3"
    using assms by (simp add: verify_neutron_port_binding_def bnd_def)
  then show ?thesis
    by (simp add: verify_pci_devices_Inr_iff bound_device_def [abs_def])
qed

definition pci_env :: "(unit, unit) api_env" where
  "pci_env = idle_api\<lparr>show_port := (\<lambda>i w. (Inr [(''binding:vnic_type'', JStr ''direct''),
       (''binding:profile'', JDict [(''pci_slot'', JStr ''0000:05:00.1'')])], w)),
     cursor_fetchall := (\<lambda>h w. (Inr [[(''address'', JStr ''0000:05:00.1''), (''status'', JStr ''allocated''),
       (''dev_type'', JStr ''type-VF'')]], w))\<rparr>"

theorem port_binding_accepted_witness:
  "verify_neutron_port_binding pci_env ''vm'' ''port'' port_state = Some (Inr (), port_state)"
proof -
  have "get_port_attribute pci_env ''port'' ''binding:profile'' port_state =
      Some (Inr (Some (JDict [(''pci_slot'', JStr ''0000:05:00.1'')])), port_state)"
    and "get_port_attribute pci_env ''port'' ''binding:vnic_type'' port_state = Some (Inr (Some (JStr ''direct'')), port_state)"
    by (simp_all add: get_port_attribute_def pci_env_def idle_api_def bnd_def prog_simps port_state_def)
  moreover have "search_pci_devices pci_env ''instance_uuid'' ''vm'' port_state =
      Some (Inr [[(''address'', JStr ''0000:05:00.1''), (''status'', JStr ''allocated''),
       (''dev_type'', JStr ''type-VF'')]], port_state)"
    by (simp add: search_pci_devices_def Let_def cursor_def connected_def with_cm_def bnd_def seqp_def prog_simps
        try_finally_def pci_env_def idle_api_def truthy_def default_conf_def port_state_def)
  ultimately show ?thesis
    using port_binding_accepted [of pci_env "''port''" port_state _ port_state "''vm''" _ port_state _ port_state]
    by (simp add: pci_slot_def json_key_def allowed_dev_types_def)
qed

text \<open>C28. Waiting for a domain to be shut down returns, provided that listing the domains again and again
  lets the clock pass every bound. The listings follow each other without a pause. The wait ends at the
  first of them that starts after the timeout, that fails, or that does not contain the domain's name: with
  a timeout, with the error of the listing, or normally, in this order. So it returns normally
  only after a listing without the name that was started in time, and times out only when
  the time is over, while each earlier listing was started in time and had the name. How long
  the last listing takes is not bounded.\<close>

theorem domain_wait_outcome:
  assumes "listing_takes_time env c"
  shows "\<exists>n. let t0 = clock env (world s); w = after_listings env c n (world s);
      in_time = (\<lambda>w. clock env w - t0 \<le> build_timeout (cfg env));
      listed = (\<lambda>w. \<exists>domains. fst (listing env c w) = Inr domains \<and> py_in name domains) in
    (\<forall>m<n. in_time (after_listings env c m (world s)) \<and> listed (after_listings env c m (world s))) \<and>
    \<not> (in_time w \<and> listed w) \<and>
    wait_for_domain_shutdown env c name s =
      (if \<not> in_time w then Some (Inl TimeoutException, s\<lparr>world := w\<rparr>)
       else case listing env c w of
           (Inl e, w') \<Rightarrow> Some (Inl e, s\<lparr>world := w'\<rparr>)
         | (Inr domains, w') \<Rightarrow> Some (Inr (), s\<lparr>world := w'\<rparr>))"
  using domain_wait_run [OF assms, of s name]
  unfolding Let_def still_listed_def domain_result_cases .

text \<open>A host whose clock a command advances by the given time, with the given domains running.\<close>

definition domain_env :: "int \<Rightarrow> string \<Rightarrow> int sys_env" where
  "domain_env duration domains = \<lparr>cfg = default_conf 300 1 [] [],
     read_nodes_yaml = (\<lambda>p t. (Inr [], t)), ssh_exec = (\<lambda>a u k c t. (Inr domains, t + duration)),
     clock = id, sleep = (\<lambda>n t. t + n)\<rparr>"

definition domain_client :: ssh_client where
  "domain_client = \<lparr>ssh_key = [], ssh_user = [], host_parameters = None, ctlplane_address = ''c1''\<rparr>"

lemma domain_listing: "listing (domain_env duration domains) domain_client t = (Inr domains, t + duration)"
  by (simp add: listing_def as_root_def domain_env_def)

lemma domain_env_simps:
  "clock (domain_env duration domains) = id" "build_timeout (cfg (domain_env duration domains)) = 300"
  by (simp_all add: domain_env_def default_conf_def)

lemma domain_listings:
  "after_listings (domain_env duration domains) domain_client n t = t + int n * duration"
  by (induction n arbitrary: t) (simp_all add: after_listings_Suc domain_listing algebra_simps)

lemma domain_env_takes_time:
  assumes "0 < duration"
  shows "listing_takes_time (domain_env duration domains) domain_client"
  unfolding listing_takes_time_def
proof (intro allI)
  fix w t :: int
  have "int (nat \<bar>t - w\<bar> + 1) \<le> int (nat \<bar>t - w\<bar> + 1) * duration"
    using assms mult_left_mono [of 1 duration "int (nat \<bar>t - w\<bar> + 1)"] by simp
  then show "\<exists>n. t < clock (domain_env duration domains) (after_listings (domain_env duration domains) domain_client n w)"
    by (intro exI [of _ "nat \<bar>t - w\<bar> + 1"]) (simp add: domain_listings, simp add: domain_env_def)
qed

theorem domain_wait_outcome_witness:
  "\<exists>t. wait_for_domain_shutdown (domain_env 2 ''instance-7'') domain_client ''instance-1'' (at_time 5) =
    Some (Inr (), at_time t)"
proof -
  have first: "(\<forall>m. \<not> m < n) \<longleftrightarrow> n = 0" for n :: nat by auto
  have "\<not> py_in ''instance-1'' ''instance-7''" by (simp add: py_in_def sublist_code)
  with domain_wait_outcome [OF domain_env_takes_time, of 2 "''instance-7''" "at_time 5" "''instance-1''"] show ?thesis
    by (auto simp: Let_def domain_listing domain_env_simps at_time_def first split: if_splits)
qed

text \<open>C40. Waiting for a domain to be shut down need not return: since the loop never sleeps, nothing but the
  listings makes the clock move. It fails to return exactly if every one of the listings that follow each
  other from the first state on succeeds, contains the domain's name, and starts before the timeout is over:
  for instance, for as long as the domain runs, if a listing is too short for the clock.\<close>

theorem domain_wait_never_sleeps:
  "wait_for_domain_shutdown env c name s = None \<longleftrightarrow>
    (\<forall>n. let w = after_listings env c n (world s) in
      clock env w - clock env (world s) \<le> build_timeout (cfg env) \<and>
      (\<exists>domains. fst (listing env c w) = Inr domains \<and> py_in name domains))"
  by (simp add: domain_wait_None_iff still_listed_def Let_def)

text \<open>A domain counts as listed if its name occurs anywhere in the list: here the domain is gone, but the
  name of another one starts with its name.\<close>

lemma domain_wait_other_domain:
  "\<exists>s'. wait_for_domain_shutdown (domain_env 1 ''instance-12'') domain_client ''instance-1'' (at_time 5) =
    Some (Inl TimeoutException, s')"
proof -
  have "''instance-12'' = [] @ ''instance-1'' @ ''2''" by simp
  then have "py_in ''instance-1'' ''instance-12''" unfolding py_in_def sublist_def by blast
  with domain_wait_run [OF domain_env_takes_time, of 1 "''instance-12''" "at_time 5" "''instance-1''"] show ?thesis
    by (auto simp: Let_def still_listed_def domain_result_def domain_listing split: if_splits)
qed

end
