(* ===== verification/Numa_Helper.thy ===== *)
theory Numa_Helper
  imports Compute_Base
begin

text \<open>
  \<^verbatim>\<open>whitebox_tempest_plugin/api/compute/numa_helper.py\<close>: the mixin that reads from a server's XML to
  which host CPUs its vCPUs and its emulator threads are pinned.
\<close>

section \<open>Definitions\<close>

text \<open>\<^verbatim>\<open>hardware.parse_cpu_spec(pin.get('cpuset'))\<close>; there is nothing to split in \<^verbatim>\<open>None\<close>.\<close>

definition pin_cpus :: "xml \<Rightarrow> int set result" where
  "pin_cpus pin = (case attr pin ''cpuset'' of
       None \<Rightarrow> Inl AttributeError
     | Some spec \<Rightarrow> parse_cpu_spec spec)"

definition get_pinning_as_set ::
  "('w, 'h, 'm) api_env_scheme \<Rightarrow> string \<Rightarrow> (('c, 'w) proc, int set) prog" where
  "get_pinning_as_set env server_id =
     bnd (get_server_xml env server_id) (\<lambda>root.
     (let vcpupins = findall root [Child ''cputune'', Child ''vcpupin'']
      in of_result (fold_res (\<lambda>pinset pin. bind_res (pin_cpus pin) (\<lambda>cpus. Inr (pinset \<union> cpus))) {} vcpupins)))"

definition get_server_emulator_threads ::
  "('w, 'h, 'm) api_env_scheme \<Rightarrow> string \<Rightarrow> (('c, 'w) proc, int set) prog" where
  "get_server_emulator_threads env server_id =
     bnd (get_server_xml env server_id) (\<lambda>root.
     (let emulatorpins = findall root [Child ''cputune'', Child ''emulatorpin'']
      in of_result (fold_res (\<lambda>emulator_threads pin. bind_res (pin_cpus pin) (\<lambda>cpus. Inr (emulator_threads \<union> cpus)))
           {} emulatorpins)))"

text \<open>\<^verbatim>\<open>','.join(cpusets)\<close>, where a missing \<^verbatim>\<open>cpuset\<close> is no string.\<close>

definition join_cpusets :: "string option list \<Rightarrow> string result" where
  "join_cpusets cpusets =
     bind_res (map_res (\<lambda>c. case c of None \<Rightarrow> Inl TypeError | Some t \<Rightarrow> Inr t) cpusets)
       (\<lambda>ts. Inr (py_join '','' ts))"

definition get_host_pcpus_for_guest_vcpu ::
  "('w, 'h, 'm) api_env_scheme \<Rightarrow> string \<Rightarrow> int list \<Rightarrow> (('c, 'w) proc, int set) prog" where
  "get_host_pcpus_for_guest_vcpu env server_id instance_cpu_ids =
     bnd (get_server_xml env server_id) (\<lambda>root.
     (let vcpus = map (\<lambda>cpu_id. find root [Child ''cputune'', Child ''vcpupin'', AttrIs ''vcpu'' (py_str cpu_id)])
            instance_cpu_ids
      in bnd (of_result (map_res (\<lambda>vcpu. case vcpu of
                  None \<Rightarrow> Inl AttributeError
                | Some e \<Rightarrow> Inr (attr e ''cpuset'')) vcpus)) (\<lambda>cpusets.
         of_result (bind_res (join_cpusets cpusets) parse_cpu_spec))))"

section \<open>Lemmas\<close>

text \<open>The pins of a kind, and the pin of a vCPU.\<close>

definition pins :: "string \<Rightarrow> xml \<Rightarrow> xml list" where
  "pins kind root = walk (Child kind) (walk (Child ''cputune'') [root])"

definition pin_of :: "xml \<Rightarrow> int \<Rightarrow> xml option" where
  "pin_of root cpu_id = List.find (\<lambda>e. attr e ''vcpu'' = Some (py_str cpu_id)) (pins ''vcpupin'' root)"

lemma findall_pins: "findall root [Child ''cputune'', Child kind] = pins kind root"
  by (simp add: findall_walk pins_def)

lemma find_pin: "find root [Child ''cputune'', Child ''vcpupin'', AttrIs ''vcpu'' (py_str cpu_id)] = pin_of root cpu_id"
proof -
  have "(case filter P xs of [] \<Rightarrow> None | e # _ \<Rightarrow> Some e) = List.find P xs" for P and xs :: "xml list"
    by (induction xs) auto
  then show ?thesis
    by (simp add: find_def findall_walk pin_of_def pins_def)
qed

lemma collect_cpus:
  "fold_res (\<lambda>acc pin. bind_res (pin_cpus pin) (\<lambda>cpus. Inr (acc \<union> cpus))) A ps =
     bind_res (map_res pin_cpus ps) (\<lambda>sets. Inr (A \<union> \<Union> (set sets)))"
proof (induction ps arbitrary: A)
  case (Cons p ps)
  show ?case
    by (cases "pin_cpus p"; cases "map_res pin_cpus ps") (simp_all add: Cons.IH Un_assoc)
qed simp

lemma split_on_append_any: "split_on c (s @ c # t) = split_on c s @ split_on c t"
proof (induction s)
  case (Cons x s)
  then show ?case by (cases "split_on c s") auto
qed simp

lemma split_on_join_concat:
  "ts \<noteq> [] \<Longrightarrow> split_on c (py_join [c] ts) = concat (map (split_on c) ts)"
  by (induction "[c]" ts rule: py_join.induct) (simp_all add: split_on_append_any)

lemma no_caret_rule:
  assumes "CHR ''^'' \<notin> set raw" and "rule_of raw = Some r"
  shows "excluded r = {}"
proof -
  have "py_strip raw = [] \<or> hd (py_strip raw) \<noteq> CHR ''^''"
    using assms(1) set_strip_by [of py_isspace raw] by (metis list.set_sel(1) subset_iff)
  with assms(2) show ?thesis by (auto simp: rule_of_def Let_def split: if_splits)
qed

lemma denoted_plain:
  assumes "\<And>r. r \<in> set rs \<Longrightarrow> CHR ''^'' \<notin> set r \<and> rule_of r \<noteq> None"
  shows "denoted ((the \<circ> rule_of) ` set rs) = (\<Union>r \<in> set rs. included (the (rule_of r)))"
proof -
  have "excluded (the (rule_of r)) = {}" if "r \<in> set rs" for r
    using no_caret_rule [of r "the (rule_of r)"] assms [OF that] by auto
  then show ?thesis by (simp add: denoted_def)
qed

lemma split_rule_plain: "CHR ''^'' \<notin> set t \<Longrightarrow> r \<in> set (split_on CHR '','' t) \<Longrightarrow> CHR ''^'' \<notin> set r"
  using split_on_chars by blast

lemma parse_each_plain:
  assumes "\<And>t. t \<in> set ts \<Longrightarrow> CHR ''^'' \<notin> set t" and "map_res parse_cpu_spec ts = Inr sets"
  shows "(\<forall>t \<in> set ts. \<forall>r \<in> set (split_on CHR '','' t). rule_of r \<noteq> None) \<and>
    \<Union> (set sets) = (\<Union>t \<in> set ts. \<Union>r \<in> set (split_on CHR '','' t). included (the (rule_of r)))"
  using assms
proof (induction ts arbitrary: sets)
  case (Cons t ts)
  then obtain S rest where S: "parse_cpu_spec t = Inr S" and rest: "map_res parse_cpu_spec ts = Inr rest"
    and sets: "sets = S # rest"
    by (auto simp: bind_res_Inr_iff)
  have t: "\<forall>r \<in> set (split_on CHR '','' t). rule_of r \<noteq> None"
    using S by (simp add: parse_cpu_spec_Inr_iff)
  have "S = (\<Union>r \<in> set (split_on CHR '','' t). included (the (rule_of r)))"
    using S denoted_plain [of "split_on CHR '','' t"] t split_rule_plain Cons.prems(1) [of t]
    unfolding parse_cpu_spec_Inr_iff by auto
  with Cons.IH [OF _ rest] Cons.prems(1) t sets show ?case by simp
qed simp

lemma parse_joined:
  assumes plain: "\<And>t. t \<in> set ts \<Longrightarrow> CHR ''^'' \<notin> set t" and sets: "map_res parse_cpu_spec ts = Inr sets"
  shows "parse_cpu_spec (py_join '','' ts) = Inr (\<Union> (set sets))"
proof (cases "ts = []")
  case True
  with sets show ?thesis by (simp add: parse_cpu_spec_alt denoted_def)
next
  case False
  let ?rs = "concat (map (split_on CHR '','') ts)"
  have rules: "split_on CHR '','' (py_join '','' ts) = ?rs"
    using False by (rule split_on_join_concat)
  have each: "\<forall>t \<in> set ts. \<forall>r \<in> set (split_on CHR '','' t). rule_of r \<noteq> None"
    and union: "\<Union> (set sets) = (\<Union>t \<in> set ts. \<Union>r \<in> set (split_on CHR '','' t). included (the (rule_of r)))"
    using parse_each_plain [OF plain sets] by blast+
  have ok: "CHR ''^'' \<notin> set r \<and> rule_of r \<noteq> None" if r: "r \<in> set ?rs" for r
  proof -
    obtain t where "t \<in> set ts" and "r \<in> set (split_on CHR '','' t)" using r by auto
    with each plain [of t] split_rule_plain [of t r] show ?thesis by blast
  qed
  have "denoted ((the \<circ> rule_of) ` set ?rs) = (\<Union>r \<in> set ?rs. included (the (rule_of r)))"
    by (rule denoted_plain) (rule ok)
  moreover have "\<dots> = \<Union> (set sets)"
    unfolding union by auto
  ultimately have "denoted ((the \<circ> rule_of) ` set ?rs) = \<Union> (set sets)" by (rule trans)
  then show ?thesis
    unfolding parse_cpu_spec_Inr_iff rules using ok by blast
qed

section \<open>Properties\<close>

text \<open>C29. The pinning of a server is the union of what its pins allow: of all its \<^verbatim>\<open>vcpupin\<close> elements for
  the vCPUs, of all its \<^verbatim>\<open>emulatorpin\<close> elements for the emulator threads. If a pin has no CPU set or
  one that cannot be read, the first such pin decides the exception.\<close>

theorem pinning_is_union:
  assumes "get_server_xml env server_id s = Some (Inr root, s')"
  shows "get_pinning_as_set env server_id s =
      Some (bind_res (map_res pin_cpus (pins ''vcpupin'' root)) (\<lambda>sets. Inr (\<Union> (set sets))), s') \<and>
    get_server_emulator_threads env server_id s =
      Some (bind_res (map_res pin_cpus (pins ''emulatorpin'' root)) (\<lambda>sets. Inr (\<Union> (set sets))), s')"
  using assms
  by (simp add: get_pinning_as_set_def get_server_emulator_threads_def bnd_def of_result_def Let_def
      findall_pins collect_cpus)

text \<open>The host CPUs of some vCPUs are those that their pins allow, provided that no pin excludes a CPU:
  if every vCPU has a pin with a CPU set without a caret, the result is the union of the sets.\<close>

theorem host_pcpus_union:
  assumes "get_server_xml env server_id s = Some (Inr root, s')"
    and pin: "\<And>i. i \<in> set ids \<Longrightarrow> \<exists>e. pin_of root i = Some e \<and> attr e ''cpuset'' = Some (spec i) \<and>
      CHR ''^'' \<notin> set (spec i) \<and> parse_cpu_spec (spec i) = Inr (cpus i)"
  shows "get_host_pcpus_for_guest_vcpu env server_id ids s = Some (Inr (\<Union>i \<in> set ids. cpus i), s')"
proof -
  have "map_res (\<lambda>vcpu. case vcpu of None \<Rightarrow> Inl AttributeError | Some e \<Rightarrow> Inr (attr e ''cpuset''))
      (map (pin_of root) ids) = Inr (map (Some \<circ> spec) ids)"
    using pin by (induction ids) force+
  moreover have "join_cpusets (map (Some \<circ> spec) ids) = Inr (py_join '','' (map spec ids))"
  proof -
    have "map_res (\<lambda>c. case c of None \<Rightarrow> Inl TypeError | Some t \<Rightarrow> Inr t) (map (Some \<circ> spec) ids) = Inr (map spec ids)"
      by (induction ids) simp_all
    then show ?thesis by (simp add: join_cpusets_def)
  qed
  moreover have "parse_cpu_spec (py_join '','' (map spec ids)) = Inr (\<Union> (set (map cpus ids)))"
  proof (rule parse_joined)
    show "map_res parse_cpu_spec (map spec ids) = Inr (map cpus ids)"
      using pin by (induction ids) force+
  qed (use pin in auto)
  ultimately show ?thesis
    using assms(1)
    by (simp add: get_host_pcpus_for_guest_vcpu_def bnd_def of_result_def Let_def find_pin)
qed

text \<open>A server with pins, on a host that prints its domain.\<close>

definition pinned :: "string \<Rightarrow> string \<Rightarrow> xml" where
  "pinned a b = Elem ''domain'' [] None [Elem ''cputune'' [] None
     [Elem ''vcpupin'' [(''vcpu'', ''0''), (''cpuset'', a)] None [],
      Elem ''vcpupin'' [(''vcpu'', ''1''), (''cpuset'', b)] None [],
      Elem ''emulatorpin'' [(''cpuset'', ''0-1'')] None []]]"

definition pinned_env :: "string \<Rightarrow> string \<Rightarrow> (unit, unit) api_env" where
  "pinned_env a b = idle_api\<lparr>show_server := (\<lambda>i w. (Inr [(''OS-EXT-SRV-ATTR:host'', ''c1''),
       (''OS-EXT-SRV-ATTR:instance_name'', ''instance-1'')], w)),
     et_fromstring := (\<lambda>t. Inr (pinned a b))\<rparr>"

definition pinned_state :: "(unit, unit) proc" where
  "pinned_state = \<lparr>nodes_cache = Some [(''c1'', \<lparr>hd_services = Some [(''libvirt'', [])],
     hd_cpu_dedicated_set = None, hd_cpu_shared_set = None\<rparr>)], cleanups = [], world = ()\<rparr>"

lemma pinned_env_xml: "get_server_xml (pinned_env a b) i pinned_state = Some (Inr (pinned a b), pinned_state)"
  by (simp add: get_server_xml_def pinned_env_def idle_api_def pinned_state_def bnd_def prog_simps py_key_def
      VirshXMLClient_def run_SSHClient get_host_details_def require_section_cases get_ctlplane_address_def
      default_conf_def dumpxml_def execute_def in_container_def ssh_client.defs)

lemma read_texts:
  "parse_cpu_spec ''0-1'' = Inr {0, 1}" "parse_cpu_spec ''2'' = Inr {2}" "parse_cpu_spec ''3'' = Inr {3}"
  "parse_cpu_spec ''4'' = Inr {4}" "parse_cpu_spec ''2-4,^3'' = Inr {2, 4}"
  "parse_cpu_spec ''2-4,^3,3'' = Inr {2, 4}"
  by code_simp+

lemma pinned_pins:
  "pins ''emulatorpin'' (pinned a b) = [Elem ''emulatorpin'' [(''cpuset'', ''0-1'')] None []]"
  "pins ''vcpupin'' (pinned a b) = [Elem ''vcpupin'' [(''vcpu'', ''0''), (''cpuset'', a)] None [],
      Elem ''vcpupin'' [(''vcpu'', ''1''), (''cpuset'', b)] None []]"
  by (simp_all add: pins_def pinned_def)

lemma pinned_pin_of:
  "pin_of (pinned a b) 0 = Some (Elem ''vcpupin'' [(''vcpu'', ''0''), (''cpuset'', a)] None [])"
  "pin_of (pinned a b) 1 = Some (Elem ''vcpupin'' [(''vcpu'', ''1''), (''cpuset'', b)] None [])"
proof -
  have "py_str 0 = ''0''" "py_str 1 = ''1''" by code_simp+
  then show "pin_of (pinned a b) 0 = Some (Elem ''vcpupin'' [(''vcpu'', ''0''), (''cpuset'', a)] None [])"
    "pin_of (pinned a b) 1 = Some (Elem ''vcpupin'' [(''vcpu'', ''1''), (''cpuset'', b)] None [])"
    by (simp_all add: pin_of_def pinned_pins attr_def)
qed

theorem pinning_is_union_witness:
  "get_server_emulator_threads (pinned_env ''2'' ''3'') ''vm'' pinned_state = Some (Inr {0, 1}, pinned_state) \<and>
   get_pinning_as_set (pinned_env ''2'' ''3'') ''vm'' pinned_state = Some (Inr {2, 3}, pinned_state)"
  using pinning_is_union [OF pinned_env_xml [of "''2''" "''3''" "''vm''"]]
  by (auto simp: pinned_pins pin_cpus_def attr_def read_texts)

theorem host_pcpus_union_witness:
  "get_host_pcpus_for_guest_vcpu (pinned_env ''2'' ''4'') ''vm'' [0, 1] pinned_state = Some (Inr {2, 4}, pinned_state)"
proof -
  let ?spec = "\<lambda>i :: int. if i = 0 then ''2'' else ''4''"
  let ?cpus = "\<lambda>i :: int. if i = 0 then {2 :: int} else {4}"
  have "get_host_pcpus_for_guest_vcpu (pinned_env ''2'' ''4'') ''vm'' [0, 1] pinned_state =
      Some (Inr (\<Union>i \<in> set [0, 1]. ?cpus i), pinned_state)"
    by (rule host_pcpus_union [OF pinned_env_xml, where spec = ?spec])
      (auto simp: pinned_pin_of attr_def read_texts)
  then show ?thesis by (simp add: insert_commute)
qed

text \<open>An exclusion in the pin of one vCPU takes the CPU away from all: the CPU sets are joined before
  they are read. Here vCPU 1 is pinned to CPU 3, and the result for both vCPUs does not contain it.\<close>

theorem host_pcpus_caret:
  "get_host_pcpus_for_guest_vcpu (pinned_env ''2-4,^3'' ''3'') ''vm'' [0, 1] pinned_state =
     Some (Inr {2, 4}, pinned_state) \<and>
   get_pinning_as_set (pinned_env ''2-4,^3'' ''3'') ''vm'' pinned_state = Some (Inr {2, 3, 4}, pinned_state)"
  using pinned_env_xml [of "''2-4,^3''" "''3''" "''vm''"]
  by (auto simp: get_host_pcpus_for_guest_vcpu_def get_pinning_as_set_def bnd_def of_result_def Let_def find_pin
      findall_pins pinned_pin_of pinned_pins attr_def join_cpusets_def read_texts pin_cpus_def)

end
