(* ===== verification/Cpu_Pinning.thy ===== *)
theory Cpu_Pinning
  imports Numa_Helper Server_Checks
begin

text \<open>
  The helpers of \<^verbatim>\<open>whitebox_tempest_plugin/api/compute/test_cpu_pinning.py\<close>: what a server's XML, Nova's
  database, the host descriptions and libvirt's capabilities say about pinning, and the tests of the
  thread policies, which compare the pins of a server with the thread siblings of its host.
\<close>

section \<open>BasePinningTest\<close>

text \<open>
  What this module needs besides the services of the other tests: \<^verbatim>\<open>cursor.fetchone()\<close>, \<^verbatim>\<open>None\<close> if there
  is no row; \<^verbatim>\<open>jsonutils.loads\<close>; and the two parameters of \<^verbatim>\<open>normalize_json\<close>.
\<close>

record ('w, 'h) pinning_env = "('w, 'h) api_env" +
  cursor_fetchone :: "'h \<Rightarrow> ('w, json_object option) ext"
  json_loads :: "string \<Rightarrow> json result"
  json_copy :: "json \<Rightarrow> json"
  json_sort_arrays :: "json list \<Rightarrow> json list result"

text \<open>\<^verbatim>\<open>int(e.get(a))\<close> and \<^verbatim>\<open>hardware.parse_cpu_spec(e.get(a))\<close>\<close>

definition int_attr :: "xml \<Rightarrow> string \<Rightarrow> int result" where
  "int_attr e a = (case attr e a of None \<Rightarrow> Inl TypeError | Some t \<Rightarrow> py_int_res t)"

definition spec_attr :: "xml \<Rightarrow> string \<Rightarrow> int set result" where
  "spec_attr e a = (case attr e a of None \<Rightarrow> Inl AttributeError | Some t \<Rightarrow> parse_cpu_spec t)"

text \<open>In an assignment to \<^verbatim>\<open>d[k]\<close> the value is computed before the key.\<close>

definition get_server_cell_pinning ::
  "('w, 'h, 'm) api_env_scheme \<Rightarrow> string \<Rightarrow> (('c, 'w) proc, (int \<times> int set) list) prog" where
  "get_server_cell_pinning env server_id =
     bnd (get_server_xml env server_id) (\<lambda>root.
     (let memnodes = findall root [Child ''numatune'', Child ''memnode'']
      in of_result (fold_res (\<lambda>cell_pins memnode.
           bind_res (spec_attr memnode ''nodeset'') (\<lambda>cells.
           bind_res (int_attr memnode ''cellid'') (\<lambda>cell.
           Inr (AList.update cell cells cell_pins)))) [] memnodes)))"

definition get_server_iothreads ::
  "('w, 'h, 'm) api_env_scheme \<Rightarrow> string \<Rightarrow> (('c, 'w) proc, int \<times> (int \<times> int set) list option) prog" where
  "get_server_iothreads env server_id =
     bnd (get_server_xml env server_id) (\<lambda>root.
     bnd (of_result (case find root [Child ''iothreads''] of
            None \<Rightarrow> Inl AttributeError
          | Some e \<Rightarrow> (case xml_text e of None \<Rightarrow> Inl TypeError | Some t \<Rightarrow> py_int_res t))) (\<lambda>nr_of_iothreads.
     (let iothreadpins = findall root [Child ''cputune'', Child ''iothreadpin'']
      in if iothreadpins = [] then ret (nr_of_iothreads, None)
         else bnd (of_result (fold_res (\<lambda>iothread_pins pin.
                bind_res (int_attr pin ''iothread'') (\<lambda>thread.
                bind_res (spec_attr pin ''cpuset'') (\<lambda>cpus.
                Inr (AList.update thread cpus iothread_pins)))) [] iothreadpins)) (\<lambda>iothread_pins.
              ret (nr_of_iothreads, Some iothread_pins)))))"

definition get_cpus_with_sched ::
  "('w, 'h, 'm) api_env_scheme \<Rightarrow> string \<Rightarrow> (('c, 'w) proc, int list) prog" where
  "get_cpus_with_sched env server_id =
     bnd (get_server_xml env server_id) (\<lambda>root.
     (let scheds = findall root [Child ''cputune'', Child ''vcpusched'']
      in of_result (map_res (\<lambda>each. int_attr each ''vcpus'') scheds)))"

definition cpu_pin :: "(int \<times> int) list \<Rightarrow> xml \<Rightarrow> (int \<times> int) list result" where
  "cpu_pin cpu_pins pin =
     bind_res (int_attr pin ''vcpu'') (\<lambda>vcpu.
     bind_res (int_attr pin ''cpuset'') (\<lambda>pcpu.
     Inr (AList.update vcpu pcpu cpu_pins)))"

definition get_server_cpu_pinning ::
  "('w, 'h, 'm) api_env_scheme \<Rightarrow> string \<Rightarrow> (('c, 'w) proc, (int \<times> int) list) prog" where
  "get_server_cpu_pinning env server_id =
     bnd (get_server_xml env server_id) (\<lambda>root.
     (let vcpupins = findall root [Child ''cputune'', Child ''vcpupin'']
      in of_result (fold_res cpu_pin [] vcpupins)))"

definition numa_topology_of :: "(string \<Rightarrow> json result) \<Rightarrow> json_object option \<Rightarrow> json result" where
  "numa_topology_of loads row = (case row of
       None \<Rightarrow> Inl TypeError
     | Some d \<Rightarrow> (case map_of d ''numa_topology'' of
           None \<Rightarrow> Inl (KeyError ''numa_topology'')
         | Some (JStr t) \<Rightarrow> loads t
         | Some _ \<Rightarrow> Inl TypeError))"

definition get_db_numa_topology ::
  "('w, 'h, 'm) pinning_env_scheme \<Rightarrow> string \<Rightarrow> (('c, 'w) proc, json) prog" where
  "get_db_numa_topology env instance_uuid =
     (let db_client = DatabaseClient env;
          db = nova_cell1_db_name (cfg env)
      in with_cm (cursor env db_client db False) (\<lambda>c.
           seqp (external (cursor_execute env c
             (''SELECT numa_topology FROM instance_extra '' @
              ''WHERE instance_uuid = \"'' @ instance_uuid @ ''\"'')))
           (bnd (external (cursor_fetchone env c)) (\<lambda>row.
            bnd (of_result (numa_topology_of (json_loads env) row)) (\<lambda>numa_topology.
            of_result (normalize_json (json_copy env) (json_sort_arrays env) numa_topology))))))"

text \<open>
  The default \<^verbatim>\<open>[]\<close> of a host without the entry is a list, which \<^verbatim>\<open>parse_cpu_spec\<close> cannot split.
\<close>

definition host_cpu_set :: "(host_details \<Rightarrow> string option) \<Rightarrow> host_details option \<Rightarrow> int set result" where
  "host_cpu_set entry details = (case details of
       None \<Rightarrow> Inl AttributeError
     | Some d \<Rightarrow> (case entry d of None \<Rightarrow> Inl AttributeError | Some cpu_set \<Rightarrow> parse_cpu_spec cpu_set))"

definition get_host_cpu_dedicated_set ::
  "('w, 'm) sys_env_scheme \<Rightarrow> string \<Rightarrow> (('c, 'w) proc, int set) prog" where
  "get_host_cpu_dedicated_set env host =
     bnd (get_host_details env host) (\<lambda>d. of_result (host_cpu_set hd_cpu_dedicated_set d))"

definition get_host_cpu_shared_set ::
  "('w, 'm) sys_env_scheme \<Rightarrow> string \<Rightarrow> (('c, 'w) proc, int set) prog" where
  "get_host_cpu_shared_set env host =
     bnd (get_host_details env host) (\<lambda>d. of_result (host_cpu_set hd_cpu_shared_set d))"

definition assert_iothread_pins ::
  "('w, 'h, 'm) api_env_scheme \<Rightarrow> string \<Rightarrow> int set option \<Rightarrow> (('c, 'w) proc, unit) prog" where
  "assert_iothread_pins env server_id expected_pins =
     (if \<not> iothreads (cfg env) then ret ()
      else bnd (get_server_iothreads env server_id) (\<lambda>(nr, pins).
        seqp (check (1 = nr))
        (bnd (of_result (case pins of
                None \<Rightarrow> Inr None
              | Some d \<Rightarrow> (case map_of d 1 of
                    None \<Rightarrow> Inl (KeyError ''1'')
                  | Some cpus \<Rightarrow> Inr (Some cpus)))) (\<lambda>pins.
         check (expected_pins = pins)))))"

section \<open>CPUThreadPolicyTest\<close>

text \<open>
  \<^verbatim>\<open>start_sib, end_sib = sub_sib.split('-')\<close> needs exactly two parts; a range whose end is before its
  start is empty.
\<close>

definition sub_siblings :: "string \<Rightarrow> int list result" where
  "sub_siblings sub_sib =
     (if CHR ''-'' \<in> set sub_sib
      then (case split_on CHR ''-'' sub_sib of
          [start_sib, end_sib] \<Rightarrow>
            bind_res (py_int_res start_sib) (\<lambda>a.
            bind_res (py_int_res end_sib) (\<lambda>b.
            Inr [a..b]))
        | _ \<Rightarrow> Inl ValueError)
      else bind_res (py_int_res sub_sib) (\<lambda>n. Inr [n]))"

definition get_siblings_list :: "string \<Rightarrow> int list result" where
  "get_siblings_list sib =
     fold_res (\<lambda>siblings sub_sib. bind_res (sub_siblings sub_sib) (\<lambda>xs. Inr (siblings @ xs)))
       [] (split_on CHR '','' sib)"

type_synonym siblings_map = "(int \<times> int list) list"

definition cpu_siblings :: "siblings_map \<Rightarrow> xml \<Rightarrow> siblings_map result" where
  "cpu_siblings siblings cpu =
     bind_res (int_attr cpu ''id'') (\<lambda>cpu_id.
     bind_res (case attr cpu ''siblings'' of
         None \<Rightarrow> Inl AttributeError
       | Some sib \<Rightarrow> get_siblings_list sib) (\<lambda>sibs.
     Inr (AList.update cpu_id sibs siblings)))"

definition get_host_cpu_siblings ::
  "('w, 'h, 'm) api_env_scheme \<Rightarrow> string \<Rightarrow> (('c, 'w) proc, siblings_map) prog" where
  "get_host_cpu_siblings env host =
     bnd (VirshXMLClient env host) (\<lambda>virshxml.
     bnd (capabilities env virshxml) (\<lambda>capxml.
     bnd (of_result (et_fromstring env capxml)) (\<lambda>root.
     (let cpu_cells = findall root
            [Child ''host'', Child ''topology'', Child ''cells'', Child ''cell'', Child ''cpus'']
      in of_result (fold_res (\<lambda>siblings cell. fold_res cpu_siblings siblings (findall cell [Child ''cpu'']))
           [] cpu_cells)))))"

text \<open>
  The loop of the three tests over the vCPUs. \<^verbatim>\<open>sib.remove(pcpu)\<close> changes the list that the table of
  siblings holds, so a later vCPU on the same pCPU finds the shorter list. \<open>wanted\<close> is the assertion
  on whether the siblings are disjoint from the pCPUs in use.
\<close>

fun check_threads ::
  "(bool \<Rightarrow> bool) \<Rightarrow> (int \<times> int) list \<Rightarrow> siblings_map \<Rightarrow> int list \<Rightarrow> unit result" where
  "check_threads wanted cpu_pinnings pcpu_siblings [] = Inr ()"
| "check_threads wanted cpu_pinnings pcpu_siblings (vcpu # vcpus) =
     (case map_of cpu_pinnings vcpu of
        None \<Rightarrow> Inl (KeyError (py_str vcpu))
      | Some pcpu \<Rightarrow> (case map_of pcpu_siblings pcpu of
          None \<Rightarrow> Inl (KeyError (py_str pcpu))
        | Some sib \<Rightarrow>
            (if pcpu \<notin> set sib then Inl ValueError
             else (let sib = remove1 pcpu sib
                   in if wanted (set sib \<inter> snd ` set cpu_pinnings = {})
                      then check_threads wanted cpu_pinnings (AList.update pcpu sib pcpu_siblings) vcpus
                      else Inl AssertionError))))"

text \<open>
  The body that the three tests share: \<open>policy\<close> is the value of \<^verbatim>\<open>hw:cpu_thread_policy\<close>, and \<open>order\<close>
  is the order in which Python visits the elements of a set.
\<close>

definition threads_vcpus :: int where "threads_vcpus = 2"

definition test_threads ::
  "('w, 'h, 'm) api_env_scheme \<Rightarrow> (int set \<Rightarrow> int list) \<Rightarrow> string \<Rightarrow> (bool \<Rightarrow> bool) \<Rightarrow> ('w test, unit) prog" where
  "test_threads env order policy wanted =
     bnd (create_flavor env None (Some threads_vcpus) None None None
            [(''hw:cpu_policy'', ''dedicated''), (''hw:cpu_thread_policy'', policy)] []) (\<lambda>flavor.
     bnd (key flavor ''id'') (\<lambda>flavor_id.
     bnd (create_test_server env [(''flavor'', flavor_id), (''wait_until'', ''ACTIVE'')]) (\<lambda>server.
     bnd (key server ''id'') (\<lambda>server_id.
     bnd (external (get_host_for_server env server_id)) (\<lambda>host.
     bnd (get_server_cpu_pinning env server_id) (\<lambda>cpu_pinnings.
     bnd (get_host_cpu_siblings env host) (\<lambda>pcpu_siblings.
     seqp (check (int (length cpu_pinnings) = threads_vcpus))
     (of_result (check_threads wanted cpu_pinnings pcpu_siblings (order (fst ` set cpu_pinnings)))))))))))"

definition test_threads_isolate ::
  "('w, 'h, 'm) api_env_scheme \<Rightarrow> (int set \<Rightarrow> int list) \<Rightarrow> ('w test, unit) prog" where
  "test_threads_isolate env order = test_threads env order ''isolate'' (\<lambda>disjoint. disjoint)"

definition test_threads_prefer ::
  "('w, 'h, 'm) api_env_scheme \<Rightarrow> (int set \<Rightarrow> int list) \<Rightarrow> ('w test, unit) prog" where
  "test_threads_prefer env order = test_threads env order ''prefer'' Not"

definition test_threads_require ::
  "('w, 'h, 'm) api_env_scheme \<Rightarrow> (int set \<Rightarrow> int list) \<Rightarrow> ('w test, unit) prog" where
  "test_threads_require env order = test_threads env order ''require'' Not"

section \<open>NUMALiveMigrationBase\<close>

definition json_item :: "json \<Rightarrow> string \<Rightarrow> json result" where
  "json_item j k = (case j of JDict d \<Rightarrow> json_key d k | _ \<Rightarrow> Inl TypeError)"

text \<open>Iterating over a value: a dictionary gives its keys, a string its characters.\<close>

definition json_items :: "json \<Rightarrow> json list result" where
  "json_items j = (case j of
       JList xs \<Rightarrow> Inr xs
     | JDict d \<Rightarrow> Inr (map (JStr \<circ> fst) d)
     | JStr t \<Rightarrow> Inr (map (\<lambda>c. JStr [c]) t)
     | _ \<Rightarrow> Inl TypeError)"

definition get_cpu_pins_from_db_topology :: "json \<Rightarrow> (int \<times> json) list result" where
  "get_cpu_pins_from_db_topology db_topology =
     bind_res (json_item db_topology ''nova_object.data'') (\<lambda>data.
     bind_res (json_item data ''cells'') (\<lambda>cells.
     bind_res (json_items cells) (\<lambda>cells.
     bind_res (fold_res (\<lambda>(pins, cell_count) cell.
         bind_res (json_item cell ''nova_object.data'') (\<lambda>cell_data.
         bind_res (json_item cell_data ''cpu_pinning_raw'') (\<lambda>raw.
         Inr (AList.update cell_count raw pins, cell_count + 1))))
       ([], 0) cells) (\<lambda>(pins, cell_count). Inr pins))))"

text \<open>\<^verbatim>\<open>set(pins.values())\<close>: lists and dictionaries cannot be members of a set. (The numbers and booleans
  that Python takes to be equal are kept apart; the pinning of a cell holds numbers only.)\<close>

definition json_values :: "json \<Rightarrow> json set result" where
  "json_values j = (case j of
       JDict d \<Rightarrow> (if list_ex (\<lambda>(k, v). (case v of JList _ \<Rightarrow> True | JDict _ \<Rightarrow> True | _ \<Rightarrow> False)) d
                   then Inl TypeError else Inr (snd ` set d))
     | _ \<Rightarrow> Inl AttributeError)"

definition get_pcpus_from_cpu_pins :: "(int \<times> json) list \<Rightarrow> json set result" where
  "get_pcpus_from_cpu_pins cpu_pins =
     fold_res (\<lambda>pcpus (cell, pins). bind_res (json_values pins) (\<lambda>vs. Inr (pcpus \<union> vs))) {} cpu_pins"

definition get_cpus_per_node :: "int list list list \<Rightarrow> nat set" where
  "get_cpus_per_node args = set (map length (concat args))"

definition get_shared_cpuset ::
  "('w, 'h, 'm) api_env_scheme \<Rightarrow> string \<Rightarrow> (('c, 'w) proc, int set) prog" where
  "get_shared_cpuset env server_id =
     bnd (get_server_xml env server_id) (\<lambda>root.
     of_result (case find root [Child ''vcpu''] of
         None \<Rightarrow> Inl AttributeError
       | Some e \<Rightarrow> spec_attr e ''cpuset''))"

definition validate_hugepage_elements ::
  "('w, 'h, 'm) api_env_scheme \<Rightarrow> string \<Rightarrow> int \<Rightarrow> (('c, 'w) proc, bool) prog" where
  "validate_hugepage_elements env server_id pagesize =
     bnd (get_hugepage_xml_element env server_id) (\<lambda>huge_pages_list.
     seqp (check (length huge_pages_list = 1))
     (bnd (of_result (py_nth huge_pages_list 0)) (\<lambda>huge_page_xml.
      bnd (of_result (case attr huge_page_xml ''size'' of
             None \<Rightarrow> Inl (KeyError ''size'')
           | Some t \<Rightarrow> py_int_res t)) (\<lambda>n.
      ret (n = pagesize)))))"

section \<open>Siblings\<close>

lemma strip_no_space:
  assumes "\<forall>c \<in> set t. \<not> py_isspace c"
  shows "py_strip t = t" and "strip_by int_isspace t = t"
  using assms by (auto intro!: strip_by_id dest: int_space_is_space)

lemma py_int_no_caret:
  assumes "\<forall>c \<in> set t. \<not> py_isspace c" and "py_int t = Some n"
  shows "t \<noteq> [] \<and> hd t \<noteq> CHR ''^''"
  using assms by (cases t) (auto simp: py_int_def strip_no_space is_digit_def split: if_splits)

lemma split_on_pair:
  assumes "split_on c s = [a, b]"
  shows "split_once c s = [a, b] \<and> s = a @ c # b"
proof -
  have "s = a @ c # b"
    using join_split_on [of c s] assms by simp
  moreover have "c \<notin> set a"
    using split_on_parts [of a c s] assms by simp
  ultimately show ?thesis by (simp add: split_once_present)
qed

lemma sub_siblings_rule:
  assumes nsp: "\<forall>c \<in> set sub. \<not> py_isspace c" and sub: "sub_siblings sub = Inr xs" and "xs \<noteq> []"
  shows "\<exists>a b. rule_of sub = Some (Include a b) \<and> {a..b} = set xs"
proof (cases "CHR ''-'' \<in> set sub")
  case False
  then obtain n where n: "py_int sub = Some n" and "xs = [n]"
    using sub by (auto simp: sub_siblings_def py_int_res_def split: option.splits)
  then show ?thesis
    using py_int_no_caret [OF nsp n] False
    by (auto simp: rule_of_def strip_no_space nsp rule_bounds_def rule_number_def split_once_absent Let_def)
next
  case True
  then obtain s e a b where se: "split_on CHR ''-'' sub = [s, e]" and a: "py_int s = Some a"
    and b: "py_int e = Some b" and xs: "xs = [a..b]"
    using sub by (auto simp: sub_siblings_def py_int_res_def simp del: upto.simps
        split: option.splits list.splits)
  have once: "split_once CHR ''-'' sub = [s, e]" and parts: "sub = s @ CHR ''-'' # e"
    using split_on_pair [OF se] by auto
  have no: "\<forall>c \<in> set s. \<not> py_isspace c" "\<forall>c \<in> set e. \<not> py_isspace c"
    using nsp parts by auto
  have "a \<le> b" using xs \<open>xs \<noteq> []\<close> by simp
  moreover have "sub \<noteq> []" "hd sub \<noteq> CHR ''^''"
    using py_int_no_caret [OF no(1) a] parts by auto
  ultimately show ?thesis
    using a b xs by (auto simp: rule_of_def strip_no_space nsp no rule_bounds_def rule_interval_def
        once Let_def simp del: upto.simps)
qed

lemma get_siblings_list_concat:
  "get_siblings_list sib = bind_res (map_res sub_siblings (split_on CHR '','' sib)) (\<lambda>xss. Inr (concat xss))"
proof -
  have "fold_res (\<lambda>acc t. bind_res (sub_siblings t) (\<lambda>xs. Inr (acc @ xs))) acc ts =
      bind_res (map_res sub_siblings ts) (\<lambda>xss. Inr (acc @ concat xss))" for acc ts
  proof (induction ts arbitrary: acc)
    case (Cons t ts)
    then show ?case by (cases "sub_siblings t"; cases "map_res sub_siblings ts") simp_all
  qed simp
  then show ?thesis by (simp add: get_siblings_list_def)
qed

text \<open>C31. The two readers of CPU lists agree: where \<^verbatim>\<open>get_siblings_list\<close> reads the siblings that libvirt reports
  (a text without white space in which no range runs backwards), \<^verbatim>\<open>parse_cpu_spec\<close> accepts the same
  text and gives the set of the listed CPUs.
\<close>

theorem siblings_agree:
  assumes "get_siblings_list sib = Inr xs" and "\<forall>c \<in> set sib. \<not> py_isspace c"
    and "\<forall>t \<in> set (split_on CHR '','' sib). sub_siblings t \<noteq> Inr []"
  shows "parse_cpu_spec sib = Inr (set xs)"
proof -
  let ?ts = "split_on CHR '','' sib"
  obtain xss where xss: "map_res sub_siblings ?ts = Inr xss" and xs: "xs = concat xss"
    using assms(1) by (cases "map_res sub_siblings ?ts") (auto simp: get_siblings_list_concat)
  obtain g where g: "xss = map g ?ts" "\<And>t. t \<in> set ?ts \<Longrightarrow> sub_siblings t = Inr (g t)"
    using map_res_values [OF xss] by blast
  have rule: "\<exists>a b. rule_of t = Some (Include a b) \<and> {a..b} = set (g t)" if "t \<in> set ?ts" for t
  proof (rule sub_siblings_rule)
    show "\<forall>c \<in> set t. \<not> py_isspace c"
      using split_on_chars [OF that] assms(2) by blast
    show "sub_siblings t = Inr (g t)" using g(2) [OF that] .
    then show "g t \<noteq> []" using assms(3) that by metis
  qed
  then have defined: "\<forall>t \<in> set ?ts. rule_of t \<noteq> None" by fastforce
  have "included (the (rule_of t)) = set (g t) \<and> excluded (the (rule_of t)) = {}" if t: "t \<in> set ?ts" for t
  proof -
    obtain a b where "rule_of t = Some (Include a b)" and "{a..b} = set (g t)"
      using rule [OF t] by blast
    then show ?thesis by simp
  qed
  then have "denoted ((the \<circ> rule_of) ` set ?ts) = set xs"
    by (simp add: denoted_def xs g(1))
  with defined show ?thesis
    by (simp add: parse_cpu_spec_alt)
qed

theorem siblings_agree_witness: "parse_cpu_spec ''0-2,5,9-10'' = Inr {0, 1, 2, 5, 9, 10}"
proof -
  have "get_siblings_list ''0-2,5,9-10'' = Inr [0, 1, 2, 5, 9, 10]"
    by code_simp
  then show ?thesis
    using siblings_agree [of "''0-2,5,9-10''" "[0, 1, 2, 5, 9, 10]"]
    by (simp add: sub_siblings_def py_int_res_def py_int_def strip_by_def int_isspace_def py_isspace_def
        is_digit_def digit_val_def upto.simps)
qed

section \<open>Thread policies\<close>

text \<open>
  A pCPU that was visited before is no longer in the list of its siblings, so a second vCPU on it
  makes the test fail.
\<close>

lemma check_threads_stale:
  assumes "v \<in> set vs" and "map_of placed v = Some p" and "map_of sibs p = Some sib" and "p \<notin> set sib"
  shows "check_threads wanted placed sibs vs \<noteq> Inr ()"
  using assms
proof (induction vs arbitrary: sibs)
  case (Cons u vs)
  show ?case
  proof (cases "map_of placed u")
    case (Some q)
    show ?thesis
    proof (cases "q = p")
      case True
      with Some Cons.prems(3,4) show ?thesis by simp
    next
      case False
      with Some Cons.prems(2) have "v \<in> set vs" using Cons.prems(1) by auto
      moreover have "map_of (AList.update q sib' sibs) p = Some sib" for sib'
        using False Cons.prems(3) by (simp add: update_conv)
      ultimately have "check_threads wanted placed (AList.update q sib' sibs) vs \<noteq> Inr ()" for sib'
        using Cons.IH Cons.prems(2,4) by blast
      with Some show ?thesis by (auto simp: Let_def split: option.splits)
    qed
  qed simp
qed simp

text \<open>The CPUs of the core of a pCPU, as the table of siblings gives them.\<close>

definition core :: "siblings_map \<Rightarrow> int \<Rightarrow> int set" where
  "core sibs p = (case map_of sibs p of None \<Rightarrow> {} | Some sib \<Rightarrow> set sib)"

definition siblings_ok :: "siblings_map \<Rightarrow> int \<Rightarrow> bool" where
  "siblings_ok sibs p \<longleftrightarrow> (\<exists>sib. map_of sibs p = Some sib \<and> distinct sib \<and> p \<in> set sib)"

lemma check_threads_iff:
  assumes "\<forall>v \<in> set vs. map_of placed v = Some (pin v) \<and> siblings_ok sibs (pin v)"
  shows "check_threads wanted placed sibs vs = Inr () \<longleftrightarrow> distinct (map pin vs) \<and>
    (\<forall>v \<in> set vs. wanted ((core sibs (pin v) - {pin v}) \<inter> snd ` set placed = {}))"
  using assms
proof (induction vs arbitrary: sibs)
  case (Cons u vs)
  let ?p = "pin u"
  obtain sib where sib: "map_of sibs ?p = Some sib" "distinct sib" "?p \<in> set sib"
    using Cons.prems by (auto simp: siblings_ok_def)
  let ?sibs = "AList.update ?p (remove1 ?p sib) sibs"
  let ?now = "wanted ((core sibs ?p - {?p}) \<inter> snd ` set placed = {})"
  have step: "check_threads wanted placed sibs (u # vs) =
      (if ?now then check_threads wanted placed ?sibs vs else Inl AssertionError)"
    using Cons.prems sib by (simp add: core_def)
  show ?case
  proof (cases "?p \<in> pin ` set vs")
    case True
    then obtain v where v: "v \<in> set vs" "pin v = ?p" by auto
    have "map_of placed v = Some ?p" and "?p \<notin> set (remove1 ?p sib)"
      using Cons.prems v sib(2) by auto
    moreover have "map_of ?sibs ?p = Some (remove1 ?p sib)"
      by (simp add: update_conv)
    ultimately have "check_threads wanted placed ?sibs vs \<noteq> Inr ()"
      using v(1) check_threads_stale by blast
    with True step show ?thesis by auto
  next
    case False
    have same: "map_of ?sibs (pin v) = map_of sibs (pin v)" if "v \<in> set vs" for v
    proof -
      have "pin v \<noteq> ?p" using False that by (metis imageI)
      then show ?thesis by (simp add: update_conv)
    qed
    have "check_threads wanted placed ?sibs vs = Inr () \<longleftrightarrow> distinct (map pin vs) \<and>
        (\<forall>v \<in> set vs. wanted ((core ?sibs (pin v) - {pin v}) \<inter> snd ` set placed = {}))"
      using Cons.prems same by (intro Cons.IH) (auto simp: siblings_ok_def)
    with False step show ?thesis by (auto simp: core_def same)
  qed
qed simp

text \<open>A pass of the \<open>isolate\<close> check needs no assumption on the table of siblings.\<close>

lemma check_threads_isolate:
  assumes "check_threads (\<lambda>d. d) placed sibs vs = Inr ()"
  shows "(\<forall>v \<in> set vs. \<exists>p sib. map_of placed v = Some p \<and> map_of sibs p = Some sib \<and>
      set (remove1 p sib) \<inter> snd ` set placed = {}) \<and>
    (\<forall>v \<in> set vs. \<forall>w \<in> set vs. v \<noteq> w \<longrightarrow> map_of placed v \<noteq> map_of placed w)"
  using assms
proof (induction vs arbitrary: sibs)
  case (Cons u vs)
  obtain p sib where p: "map_of placed u = Some p" and sib: "map_of sibs p = Some sib"
    and free: "set (remove1 p sib) \<inter> snd ` set placed = {}"
    and rest: "check_threads (\<lambda>d. d) placed (AList.update p (remove1 p sib) sibs) vs = Inr ()"
    using Cons.prems by (auto simp: Let_def split: option.splits if_splits)
  have "p \<in> snd ` set placed"
    using p by (force dest: map_of_SomeD)
  then have "p \<notin> set (remove1 p sib)" using free by blast
  then have other: "map_of placed v \<noteq> Some p" if "v \<in> set vs" for v
    using check_threads_stale [OF that, of placed p "AList.update p (remove1 p sib) sibs"] rest
    by (auto simp: update_conv)
  have "\<exists>q sib'. map_of placed v = Some q \<and> map_of sibs q = Some sib' \<and>
      set (remove1 q sib') \<inter> snd ` set placed = {}" if "v \<in> set vs" for v
    using Cons.IH [OF rest] other [OF that] that by (force simp: update_conv split: if_splits)
  then show ?case
    using Cons.IH [OF rest] p sib free other by (metis set_ConsD)
qed simp

lemma isolate_separates:
  assumes check: "check_threads (\<lambda>d. d) placed sibs vs = Inr ()" and vs: "set vs = fst ` set placed"
    and distinct: "distinct (map fst placed)"
    and "(v, p) \<in> set placed" and "(w, q) \<in> set placed" and "v \<noteq> w"
  shows "q \<notin> core sibs p"
proof -
  have v: "map_of placed v = Some p" "v \<in> set vs" and w: "map_of placed w = Some q" "w \<in> set vs"
    using assms by (force intro!: map_of_is_SomeI)+
  obtain sib where sib: "map_of sibs p = Some sib" "set (remove1 p sib) \<inter> snd ` set placed = {}"
    using check_threads_isolate [OF check] v by fastforce
  have "p \<noteq> q"
    using check_threads_isolate [OF check] v w \<open>v \<noteq> w\<close> by force
  moreover have "q \<in> snd ` set placed"
    using assms(5) by force
  ultimately have "q \<notin> set sib"
    using sib(2) by (metis disjoint_iff in_set_remove1)
  then show ?thesis
    using sib(1) by (simp add: core_def)
qed

lemma cpu_pins_distinct: "fold_res cpu_pin acc es = Inr placed \<Longrightarrow> distinct (map fst acc) \<Longrightarrow> distinct (map fst placed)"
proof (induction es arbitrary: acc)
  case (Cons e es)
  then obtain v p where step: "cpu_pin acc e = Inr (AList.update v p acc)"
    by (cases "int_attr e ''vcpu''"; cases "int_attr e ''cpuset''") (auto simp: cpu_pin_def)
  with Cons.prems(1) have "fold_res cpu_pin (AList.update v p acc) es = Inr placed" by simp
  then show ?case
    using Cons.IH Cons.prems(2) by (simp add: distinct_update)
qed simp

lemma cpu_pinning_distinct:
  "get_server_cpu_pinning env server_id s = Some (Inr placed, s') \<Longrightarrow> distinct (map fst placed)"
  by (auto simp: get_server_cpu_pinning_def bnd_Inr_iff run_of_result Let_def intro: cpu_pins_distinct [of "[]"])

lemma test_threads_passes:
  fixes env :: "('w, 'h, 'm) api_env_scheme"
  assumes "test_threads env order policy wanted s = Some (Inr (), s')"
  shows "\<exists>flavor flavor_id server server_id host placed sibs (s1 :: 'w test) s2 s3 s4.
    create_flavor env None (Some 2) None None None
      [(''hw:cpu_policy'', ''dedicated''), (''hw:cpu_thread_policy'', policy)] [] s = Some (Inr flavor, s1) \<and>
    map_of flavor ''id'' = Some flavor_id \<and>
    create_test_server env [(''flavor'', flavor_id), (''wait_until'', ''ACTIVE'')] s1 = Some (Inr server, s2) \<and>
    map_of server ''id'' = Some server_id \<and>
    external (get_host_for_server env server_id) s2 = Some (Inr host, s3) \<and>
    get_server_cpu_pinning env server_id s3 = Some (Inr placed, s4) \<and>
    get_host_cpu_siblings env host s4 = Some (Inr sibs, s') \<and> length placed = 2 \<and>
    check_threads wanted placed sibs (order (fst ` set placed)) = Inr ()"
  using assms unfolding test_threads_def
  by (simp only: bnd_Inr_iff seqp_Inr_iff check_Inr_iff run_key_Inr_iff) (simp add: run_of_result threads_vcpus_def, blast)

text \<open>C9. \<^verbatim>\<open>test_threads_isolate\<close> passes only if the policy was obeyed for the server that it created, from the
  flavor with two dedicated vCPUs and the thread policy \<^verbatim>\<open>isolate\<close> that it created: the server has two pinned
  vCPUs, and no vCPU is on a pCPU of the core on which another one runs, in particular never on the same
  pCPU. The pins are those of the server's XML and the cores those that the capabilities of the host
  report that Tempest names for it; they are read one after the other, the last one in the final state.
\<close>

theorem threads_isolate_sound:
  fixes env :: "('w, 'h, 'm) api_env_scheme"
  assumes "\<And>A. finite A \<Longrightarrow> set (order A) = A"
    and "test_threads_isolate env order s = Some (Inr (), s')"
  shows "\<exists>flavor flavor_id server server_id host placed sibs (s1 :: 'w test) s2 s3 s4.
    create_flavor env None (Some 2) None None None
      [(''hw:cpu_policy'', ''dedicated''), (''hw:cpu_thread_policy'', ''isolate'')] [] s = Some (Inr flavor, s1) \<and>
    map_of flavor ''id'' = Some flavor_id \<and>
    create_test_server env [(''flavor'', flavor_id), (''wait_until'', ''ACTIVE'')] s1 = Some (Inr server, s2) \<and>
    map_of server ''id'' = Some server_id \<and>
    external (get_host_for_server env server_id) s2 = Some (Inr host, s3) \<and>
    get_server_cpu_pinning env server_id s3 = Some (Inr placed, s4) \<and>
    get_host_cpu_siblings env host s4 = Some (Inr sibs, s') \<and> length placed = 2 \<and>
    (\<forall>(v, p) \<in> set placed. \<forall>(w, q) \<in> set placed. v \<noteq> w \<longrightarrow> q \<notin> core sibs p)"
proof -
  have "\<forall>(v, p) \<in> set placed. \<forall>(w, q) \<in> set placed. v \<noteq> w \<longrightarrow> q \<notin> core sibs p"
    if "check_threads (\<lambda>d. d) placed sibs (order (fst ` set placed)) = Inr ()"
      and "get_server_cpu_pinning env i t = Some (Inr placed, t')" for placed sibs i and t t' :: "'w test"
    using isolate_separates [OF that(1) assms(1) cpu_pinning_distinct [OF that(2)]] by blast
  with test_threads_passes [OF assms(2) [unfolded test_threads_isolate_def]] show ?thesis
    by (elim exE conjE) (rule exI conjI | assumption)+
qed

text \<open>A host with two cores of two threads each, and a server on one thread of each core.\<close>

definition smt_domain :: xml where
  "smt_domain = Elem ''domain'' [] None [Elem ''cputune'' [] None
     [Elem ''vcpupin'' [(''vcpu'', ''0''), (''cpuset'', ''2'')] None [],
      Elem ''vcpupin'' [(''vcpu'', ''1''), (''cpuset'', ''4'')] None []]]"

definition smt_capabilities :: xml where
  "smt_capabilities = Elem ''capabilities'' [] None [Elem ''host'' [] None [Elem ''topology'' [] None
     [Elem ''cells'' [] None [Elem ''cell'' [] None [Elem ''cpus'' [] None
       [Elem ''cpu'' [(''id'', ''2''), (''siblings'', ''2-3'')] None [],
        Elem ''cpu'' [(''id'', ''3''), (''siblings'', ''2-3'')] None [],
        Elem ''cpu'' [(''id'', ''4''), (''siblings'', ''4-5'')] None [],
        Elem ''cpu'' [(''id'', ''5''), (''siblings'', ''4-5'')] None []]]]]]]"

definition smt_env :: "(unit, unit) api_env" where
  "smt_env = idle_api\<lparr>tempest_create_flavor := (\<lambda>r v d n p kw w. (Inr [(''id'', ''f'')], w)),
     tempest_create_test_server := (\<lambda>kw w. (Inr [(''id'', ''vm'')], w)),
     get_host_for_server := (\<lambda>i w. (Inr ''c1'', w)),
     show_server := (\<lambda>i w. (Inr [(''OS-EXT-SRV-ATTR:host'', ''c1''),
       (''OS-EXT-SRV-ATTR:instance_name'', ''instance-1'')], w)),
     ssh_exec := (\<lambda>a u k c w. (Inr c, w)),
     et_fromstring := (\<lambda>t. Inr (if t = ''sudo virsh capabilities'' then smt_capabilities else smt_domain))\<rparr>"

definition smt_state :: "cleanup list \<Rightarrow> unit test" where
  "smt_state cs = \<lparr>nodes_cache = Some [(''c1'', \<lparr>hd_services = Some [(''libvirt'', [])],
     hd_cpu_dedicated_set = None, hd_cpu_shared_set = None\<rparr>)], cleanups = cs, world = ()\<rparr>"

lemmas smt_defs = smt_env_def idle_api_def smt_state_def bnd_def seqp_def prog_simps py_key_def
  VirshXMLClient_def run_SSHClient get_host_details_def require_section_cases get_ctlplane_address_def
  default_conf_def execute_def in_container_def ssh_client.defs full_command_def truthy_def

lemma smt_pinning:
  "get_server_cpu_pinning smt_env ''vm'' (smt_state cs) = Some (Inr [(0, 2), (1, 4)], smt_state cs)"
proof -
  have "get_server_xml smt_env ''vm'' (smt_state cs) = Some (Inr smt_domain, smt_state cs)"
    by (simp add: get_server_xml_def dumpxml_def smt_defs)
  moreover have "fold_res cpu_pin [] (findall smt_domain [Child ''cputune'', Child ''vcpupin'']) =
      Inr [(0, 2), (1, 4)]"
    by code_simp
  ultimately show ?thesis
    by (simp add: get_server_cpu_pinning_def bnd_def prog_simps)
qed

definition smt_siblings :: siblings_map where
  "smt_siblings = [(2, [2, 3]), (3, [2, 3]), (4, [4, 5]), (5, [4, 5])]"

lemma smt_host_siblings:
  "get_host_cpu_siblings smt_env ''c1'' (smt_state cs) = Some (Inr smt_siblings, smt_state cs)"
proof -
  have "fold_res (\<lambda>siblings cell. fold_res cpu_siblings siblings (findall cell [Child ''cpu''])) []
      (findall smt_capabilities [Child ''host'', Child ''topology'', Child ''cells'', Child ''cell'', Child ''cpus'']) =
      Inr smt_siblings"
    by code_simp
  then show ?thesis
    by (simp add: get_host_cpu_siblings_def capabilities_def smt_defs)
qed

theorem threads_isolate_sound_witness:
  "test_threads_isolate smt_env sorted_list_of_set (smt_state []) = Some (Inr (), smt_state [AdminDeleteServer ''vm'']) \<and>
   (\<exists>i placed (s1 :: unit test) s2. get_server_cpu_pinning smt_env i s1 = Some (Inr placed, s2) \<and> length placed = 2)"
proof -
  have "sorted_list_of_set {0, 1 :: int} = [0, 1]" by code_simp
  moreover have "check_threads (\<lambda>d. d) [(0, 2), (1, 4)] smt_siblings [0, 1] = Inr ()" by code_simp
  moreover have "create_flavor smt_env None (Some 2) None None None specs [] (smt_state []) =
      Some (Inr [(''id'', ''f'')], smt_state [])" for specs
    by (simp add: create_flavor_def smt_defs)
  moreover have "create_test_server smt_env kw (smt_state []) =
      Some (Inr [(''id'', ''vm'')], smt_state [AdminDeleteServer ''vm''])" for kw
    by (simp add: create_test_server_def addCleanup_def smt_defs)
  moreover have "external (get_host_for_server smt_env i) (smt_state cs) = Some (Inr ''c1'', smt_state cs)" for i cs
    by (simp add: smt_defs)
  ultimately have "test_threads_isolate smt_env sorted_list_of_set (smt_state []) =
      Some (Inr (), smt_state [AdminDeleteServer ''vm''])"
    by (simp add: test_threads_isolate_def test_threads_def bnd_def seqp_def threads_vcpus_def py_key_def
        run_of_result run_check smt_pinning smt_host_siblings)
  then show ?thesis
    using threads_isolate_sound [of sorted_list_of_set smt_env "smt_state []"] by auto
qed

lemma distinct_values_iff:
  assumes "distinct (map fst placed)"
  shows "distinct (map snd placed) \<longleftrightarrow> (\<forall>(v, p) \<in> set placed. \<forall>(w, q) \<in> set placed. v \<noteq> w \<longrightarrow> q \<noteq> p)"
proof -
  have "distinct placed" using assms by (simp add: distinct_map)
  then show ?thesis
    using assms by (fastforce simp: distinct_map inj_on_def)
qed

lemma check_threads_table:
  assumes keys: "distinct (map fst placed)" and vs: "set vs = fst ` set placed" "distinct vs"
    and ok: "\<forall>(v, p) \<in> set placed. siblings_ok sibs p"
  shows "check_threads wanted placed sibs vs = Inr () \<longleftrightarrow> distinct (map snd placed) \<and>
    (\<forall>(v, p) \<in> set placed. wanted ((core sibs p - {p}) \<inter> snd ` set placed = {}))"
proof -
  let ?pin = "\<lambda>v. the (map_of placed v)"
  have pin: "map_of placed v = Some p" if "(v, p) \<in> set placed" for v p
    using keys that by (rule map_of_is_SomeI)
  have "distinct (map ?pin vs) \<longleftrightarrow> distinct (map snd placed)"
    using vs pin unfolding distinct_values_iff [OF keys] by (fastforce simp: distinct_map inj_on_def)
  moreover have "\<forall>v \<in> set vs. map_of placed v = Some (?pin v) \<and> siblings_ok sibs (?pin v)"
    using vs ok pin by fastforce
  moreover have "(\<forall>v \<in> set vs. wanted ((core sibs (?pin v) - {?pin v}) \<inter> snd ` set placed = {})) \<longleftrightarrow>
      (\<forall>(v, p) \<in> set placed. wanted ((core sibs p - {p}) \<inter> snd ` set placed = {}))"
    using vs(1) pin by fastforce
  ultimately show ?thesis
    using check_threads_iff [of vs placed ?pin sibs wanted] by simp
qed

text \<open>C8. On a consistent table of siblings the checks are exact, in whatever order the vCPUs are visited and
  although each visit changes the table: the check for \<^verbatim>\<open>isolate\<close> passes if and only if no vCPU is on the
  core of another one, and the check for \<^verbatim>\<open>prefer\<close> and \<^verbatim>\<open>require\<close> if and only if all vCPUs are on
  different pCPUs and each one has a used sibling.
\<close>

theorem threads_check_exact:
  assumes keys: "distinct (map fst placed)" and vs: "set vs = fst ` set placed" "distinct vs"
    and ok: "\<forall>(v, p) \<in> set placed. siblings_ok sibs p"
  shows "(check_threads (\<lambda>d. d) placed sibs vs = Inr () \<longleftrightarrow>
      (\<forall>(v, p) \<in> set placed. \<forall>(w, q) \<in> set placed. v \<noteq> w \<longrightarrow> q \<notin> core sibs p)) \<and>
    (check_threads Not placed sibs vs = Inr () \<longleftrightarrow>
      (\<forall>(v, p) \<in> set placed. \<forall>(w, q) \<in> set placed. v \<noteq> w \<longrightarrow> q \<noteq> p) \<and>
      (\<forall>(v, p) \<in> set placed. \<exists>(w, q) \<in> set placed. q \<noteq> p \<and> q \<in> core sibs p))"
proof -
  let ?distinct = "\<forall>(v, p) \<in> set placed. \<forall>(w, q) \<in> set placed. v \<noteq> w \<longrightarrow> q \<noteq> p"
  let ?apart = "\<forall>(v, p) \<in> set placed. \<forall>(w, q) \<in> set placed. v \<noteq> w \<longrightarrow> q \<notin> core sibs p"
  have own: "p \<in> core sibs p" if "(v, p) \<in> set placed" for v p
    using ok that by (auto simp: siblings_ok_def core_def)
  have key: "v \<noteq> w" if "(v, p) \<in> set placed" "(w, q) \<in> set placed" "q \<noteq> p" for v w p q
    using keys that eq_key_imp_eq_value by fast
  have free: "(core sibs p - {p}) \<inter> snd ` set placed = {} \<longleftrightarrow>
      (\<forall>(w, q) \<in> set placed. q \<noteq> p \<longrightarrow> q \<notin> core sibs p)" for p
    unfolding case_prod_beta by blast
  have "?distinct \<and> (\<forall>(v, p) \<in> set placed. \<forall>(w, q) \<in> set placed. q \<noteq> p \<longrightarrow> q \<notin> core sibs p) \<longleftrightarrow> ?apart"
    (is "?l \<longleftrightarrow> ?apart")
  proof
    assume l: ?l
    show ?apart
    proof clarify
      fix v p w q
      assume at: "(v, p) \<in> set placed" "(w, q) \<in> set placed" "v \<noteq> w" "q \<in> core sibs p"
      then have "q \<noteq> p" using l by fast
      then show False using l at by fast
    qed
  next
    assume apart: ?apart
    have "q \<noteq> p" if "(v, p) \<in> set placed" "(w, q) \<in> set placed" "v \<noteq> w" for v p w q
      using apart own [OF that(1)] that by fast
    moreover have "q \<notin> core sibs p" if "(v, p) \<in> set placed" "(w, q) \<in> set placed" "q \<noteq> p" for v p w q
      using apart key [OF that] that by fast
    ultimately show ?l by fast
  qed
  then have "check_threads (\<lambda>d. d) placed sibs vs = Inr () \<longleftrightarrow> ?apart"
    unfolding check_threads_table [OF assms] distinct_values_iff [OF keys] free .
  moreover have "check_threads Not placed sibs vs = Inr () \<longleftrightarrow> ?distinct \<and>
      (\<forall>(v, p) \<in> set placed. \<exists>(w, q) \<in> set placed. q \<noteq> p \<and> q \<in> core sibs p)"
    unfolding check_threads_table [OF assms] distinct_values_iff [OF keys] free case_prod_beta by simp
  ultimately show ?thesis ..
qed

theorem threads_check_exact_witness:
  "check_threads (\<lambda>d. d) [(0, 2), (1, 4)] smt_siblings [1, 0] = Inr () \<and>
   check_threads Not [(0, 2), (1, 3)] smt_siblings [0, 1] = Inr () \<and>
   check_threads Not [(0, 2), (1, 4)] smt_siblings [0, 1] \<noteq> Inr () \<and>
   check_threads Not [(0, 2), (1, 2)] smt_siblings [0, 1] \<noteq> Inr ()"
  using threads_check_exact [of "[(0, 2), (1, 4)]" "[1, 0]" smt_siblings]
    threads_check_exact [of "[(0, 2), (1, 3)]" "[0, 1]" smt_siblings]
    threads_check_exact [of "[(0, 2), (1, 4)]" "[0, 1]" smt_siblings]
    threads_check_exact [of "[(0, 2), (1, 2)]" "[0, 1]" smt_siblings]
  by (simp add: smt_siblings_def siblings_ok_def core_def insert_commute del: check_threads.simps)

section \<open>Pins in Nova's database\<close>

text \<open>The part of a NUMA topology in Nova's database that holds the pins: cell by cell, vCPU to pCPU.\<close>

definition db_cell :: "(string \<times> int) list \<Rightarrow> json" where
  "db_cell pinning = JDict [(''nova_object.data'',
     JDict [(''cpu_pinning_raw'', JDict (map (\<lambda>(v, p). (v, JInt p)) pinning))])]"

definition db_topology :: "(string \<times> int) list list \<Rightarrow> json" where
  "db_topology cells = JDict [(''nova_object.data'', JDict [(''cells'', JList (map db_cell cells))])]"

lemma update_new_key: "k \<notin> fst ` set al \<Longrightarrow> AList.update k v al = al @ [(k, v)]"
  by (induction al) auto

lemma db_cells_fold:
  assumes "\<forall>k \<in> fst ` set acc. k < n"
  shows "fold_res (\<lambda>(placed, cell_count) cell.
      bind_res (json_item cell ''nova_object.data'') (\<lambda>cell_data.
      bind_res (json_item cell_data ''cpu_pinning_raw'') (\<lambda>raw.
      Inr (AList.update cell_count raw placed, cell_count + 1)))) (acc, n) (map db_cell cells) =
    Inr (acc @ zip [n..n + int (length cells) - 1] (map (\<lambda>c. JDict (map (\<lambda>(v, p). (v, JInt p)) c)) cells),
      n + int (length cells))"
  using assms
proof (induction cells arbitrary: acc n)
  case (Cons c cells)
  have "AList.update n (JDict (map (\<lambda>(v, p). (v, JInt p)) c)) acc = acc @ [(n, JDict (map (\<lambda>(v, p). (v, JInt p)) c))]"
    using Cons.prems by (intro update_new_key) auto
  moreover have "[n..n + int (length (c # cells)) - 1] = n # [n + 1..(n + 1) + int (length cells) - 1]"
    by (simp add: upto_rec1 algebra_simps)
  ultimately show ?case
    using Cons.IH [of "acc @ [(n, JDict (map (\<lambda>(v, p). (v, JInt p)) c))]" "n + 1"] Cons.prems
    by (force simp: db_cell_def json_item_def json_key_def algebra_simps)
qed simp

lemma db_pins_union:
  "fold_res (\<lambda>pcpus (cell, placed). bind_res (json_values placed) (\<lambda>vs. Inr (pcpus \<union> vs))) A
     (zip ns (map (\<lambda>c. JDict (map (\<lambda>(v, p). (v, JInt p)) c)) cells)) =
   Inr (A \<union> (\<Union>c \<in> set (take (length ns) cells). JInt ` snd ` set c))"
proof (induction ns arbitrary: cells A)
  case (Cons n ns)
  have "json_values (JDict (map (\<lambda>(v, p). (v, JInt p)) c)) = Inr (JInt ` snd ` set c)" for c :: "(string \<times> int) list"
    by (auto simp: json_values_def list_ex_iff image_image split_beta)
  then show ?case
    by (cases cells) (simp_all add: Cons.IH Un_assoc)
qed simp

text \<open>The pins of a server are read back from its NUMA topology in Nova's database: the cells are numbered
  from 0 in their order, each with the pins recorded for it, and the pCPUs collected from these pins are
  exactly those to which some vCPU of some cell is pinned.
\<close>

theorem db_pins_roundtrip:
  "get_cpu_pins_from_db_topology (db_topology cells) =
     Inr (zip [0..int (length cells) - 1] (map (\<lambda>c. JDict (map (\<lambda>(v, p). (v, JInt p)) c)) cells)) \<and>
   bind_res (get_cpu_pins_from_db_topology (db_topology cells)) get_pcpus_from_cpu_pins =
     Inr (JInt ` (\<Union>c \<in> set cells. snd ` set c))"
proof -
  let ?placed = "zip [0..int (length cells) - 1] (map (\<lambda>c. JDict (map (\<lambda>(v, p). (v, JInt p)) c)) cells)"
  have read: "get_cpu_pins_from_db_topology (db_topology cells) = Inr ?placed"
    using db_cells_fold [of "[]" 0 cells]
    by (simp add: get_cpu_pins_from_db_topology_def db_topology_def json_item_def json_key_def json_items_def)
  moreover have "get_pcpus_from_cpu_pins ?placed = Inr (JInt ` (\<Union>c \<in> set cells. snd ` set c))"
    unfolding get_pcpus_from_cpu_pins_def db_pins_union by (simp add: image_UN)
  ultimately show ?thesis by simp
qed

end
