(* ===== verification/Evacuation.thy ===== *)
theory Evacuation
  imports Server_Checks
begin

text \<open>
  The tests of \<^verbatim>\<open>whitebox_tempest_plugin/api/compute/test_server_evacuation.py\<close>. Each one takes the
  compute service of the server's host down, shuts the server's domain down behind Nova's back,
  evacuates the server, and looks where it is. They compose the service managers with the operations
  of the base class; what they owe to the deployment is that the service runs again afterwards.
\<close>

section \<open>Definitions\<close>

text \<open>
  What these tests need of Tempest besides the operations of the base class. \<open>show_server_volumes\<close> is
  the answer to \<^verbatim>\<open>show_server\<close> with the list under \<^verbatim>\<open>os-extended-volumes:volumes_attached\<close>, if it has one.
\<close>

record ('w, 'h) evacuation_env = "('w, 'h) api_env" +
  get_host_other_than :: "string \<Rightarrow> ('w, string) ext"
  create_default_volume :: "('w, api_object) ext"
  attach_volume :: "api_object \<Rightarrow> api_object \<Rightarrow> ('w, api_object) ext"
  wait_for_volume_resource_status :: "string \<Rightarrow> string \<Rightarrow> ('w, unit) ext"
  show_server_volumes :: "string \<Rightarrow> ('w, api_object \<times> api_object list option) ext"

text \<open>\<^verbatim>\<open>with host_a_svc.stopped(): ...\<close>\<close>

definition evacuate_from ::
  "('w, 'h, 'm) evacuation_env_scheme \<Rightarrow> service_manager \<Rightarrow> api_object \<Rightarrow> string \<Rightarrow> string \<Rightarrow> api_object \<Rightarrow>
   ('w test, unit) prog" where
  "evacuate_from env host_a_svc server server_id host_a kwargs =
     with_cm (stopped env host_a_svc) (\<lambda>_.
       seqp (shutdown_server_domain env server host_a)
       (evacuate_server env server_id kwargs))"

text \<open>The two tests without target and volumes differ in the status they expect in the end.\<close>

definition test_evacuate_to ::
  "('w, 'h, 'm) evacuation_env_scheme \<Rightarrow> string \<Rightarrow> ('w test, unit) prog" where
  "test_evacuate_to env status =
     bnd (create_test_server env [(''wait_until'', ''ACTIVE'')]) (\<lambda>server.
     bnd (key server ''id'') (\<lambda>server_id.
     bnd (external (get_host_for_server env server_id)) (\<lambda>host_a.
     bnd (NovaServiceManager env host_a ''nova-compute'') (\<lambda>host_a_svc.
     seqp (evacuate_from env host_a_svc server server_id host_a [])
     (bnd (external (get_host_for_server env server_id)) (\<lambda>host.
     seqp (check (host \<noteq> host_a))
     (bnd (external (show_server env server_id)) (\<lambda>server.
     bnd (key server ''status'') (\<lambda>st.
     check (st = status))))))))))"

definition test_evacuate_to_shutoff :: "('w, 'h, 'm) evacuation_env_scheme \<Rightarrow> ('w test, unit) prog" where
  "test_evacuate_to_shutoff env = test_evacuate_to env ''SHUTOFF''"

definition test_evacuate_to_active :: "('w, 'h, 'm) evacuation_env_scheme \<Rightarrow> ('w test, unit) prog" where
  "test_evacuate_to_active env = test_evacuate_to env ''ACTIVE''"

definition test_evacuate_with_target_host ::
  "('w, 'h, 'm) evacuation_env_scheme \<Rightarrow> ('w test, unit) prog" where
  "test_evacuate_with_target_host env =
     bnd (create_test_server env [(''wait_until'', ''ACTIVE'')]) (\<lambda>server.
     bnd (key server ''id'') (\<lambda>server_id.
     bnd (external (get_host_for_server env server_id)) (\<lambda>host_a.
     bnd (external (get_host_other_than env server_id)) (\<lambda>host_b.
     bnd (NovaServiceManager env host_a ''nova-compute'') (\<lambda>host_a_svc.
     seqp (evacuate_from env host_a_svc server server_id host_a [(''host'', host_b)])
     (bnd (external (get_host_for_server env server_id)) (\<lambda>host.
     seqp (check (host = host_b))
     (bnd (external (show_server env server_id)) (\<lambda>server.
     bnd (key server ''status'') (\<lambda>st.
     check (st = ''SHUTOFF'')))))))))))"

text \<open>\<^verbatim>\<open>server['os-extended-volumes:volumes_attached'][0]['id']\<close>\<close>

definition first_volume_id :: "api_object list option \<Rightarrow> string result" where
  "first_volume_id volumes = (case volumes of
       None \<Rightarrow> Inl (KeyError ''os-extended-volumes:volumes_attached'')
     | Some vs \<Rightarrow> bind_res (py_first vs) (\<lambda>v. py_key v ''id''))"

text \<open>The end of the two tests with a volume.\<close>

definition evacuated_with_volume ::
  "('w, 'h, 'm) evacuation_env_scheme \<Rightarrow> string \<Rightarrow> string \<Rightarrow> string \<Rightarrow> ('w test, unit) prog" where
  "evacuated_with_volume env server_id host_a vol_id =
     bnd (external (get_host_for_server env server_id)) (\<lambda>host.
     seqp (check (host \<noteq> host_a))
     (bnd (external (show_server_volumes env server_id)) (\<lambda>(server, volumes).
     bnd (key server ''status'') (\<lambda>st.
     seqp (check (st = ''SHUTOFF''))
     (bnd (of_result (first_volume_id volumes)) (\<lambda>v.
     check (v = vol_id)))))))"

definition test_evacuate_attached_vol :: "('w, 'h, 'm) evacuation_env_scheme \<Rightarrow> ('w test, unit) prog" where
  "test_evacuate_attached_vol env =
     bnd (create_test_server env [(''wait_until'', ''ACTIVE'')]) (\<lambda>server.
     bnd (key server ''id'') (\<lambda>server_id.
     bnd (external (create_default_volume env)) (\<lambda>volume.
     bnd (key volume ''id'') (\<lambda>vol_id.
     bnd (external (attach_volume env server volume)) (\<lambda>attachment.
     bnd (key attachment ''volumeId'') (\<lambda>attached_id.
     seqp (external (wait_for_volume_resource_status env attached_id ''in-use''))
     (bnd (external (get_host_for_server env server_id)) (\<lambda>host_a.
     bnd (external (show_server_volumes env server_id)) (\<lambda>(server, volumes).
     bnd (of_result (first_volume_id volumes)) (\<lambda>v.
     seqp (check (v = vol_id))
     (bnd (NovaServiceManager env host_a ''nova-compute'') (\<lambda>host_a_svc.
     seqp (evacuate_from env host_a_svc server server_id host_a [])
     (evacuated_with_volume env server_id host_a vol_id)))))))))))))"

definition test_evacuate_bfv_server :: "('w, 'h, 'm) evacuation_env_scheme \<Rightarrow> ('w test, unit) prog" where
  "test_evacuate_bfv_server env =
     bnd (create_test_server env [(''volume_backed'', ''True''), (''wait_until'', ''ACTIVE''),
            (''name'', ''bfv-server'')]) (\<lambda>server.
     bnd (key server ''id'') (\<lambda>server_id.
     bnd (external (get_host_for_server env server_id)) (\<lambda>host_a.
     bnd (NovaServiceManager env host_a ''nova-compute'') (\<lambda>host_a_svc.
     bnd (external (show_server_volumes env server_id)) (\<lambda>(server, volumes).
     bnd (of_result (first_volume_id volumes)) (\<lambda>vol_id.
     seqp (evacuate_from env host_a_svc server server_id host_a [])
     (evacuated_with_volume env server_id host_a vol_id)))))))"

datatype evacuation_test = ToShutoff | ToActive | WithTarget | AttachedVolume | BootFromVolume

primrec run_evacuation :: "('w, 'h, 'm) evacuation_env_scheme \<Rightarrow> evacuation_test \<Rightarrow> ('w test, unit) prog" where
  "run_evacuation env ToShutoff = test_evacuate_to_shutoff env"
| "run_evacuation env ToActive = test_evacuate_to_active env"
| "run_evacuation env WithTarget = test_evacuate_with_target_host env"
| "run_evacuation env AttachedVolume = test_evacuate_attached_vol env"
| "run_evacuation env BootFromVolume = test_evacuate_bfv_server env"

section \<open>The deployment\<close>

text \<open>
  \<open>up h w\<close> says that the compute service of host \<open>h\<close> runs; \<open>ns\<close> are the host descriptions. The start and stop commands of a
  host's service work and concern no other host; Nova reports a stopped service as down before the
  waiting times out; no other call of the tests starts or stops a compute service; and time passes while
  the tests wait.
\<close>

definition reports_down ::
  "('w, 'm) nova_env_scheme \<Rightarrow> service_manager \<Rightarrow> ('w \<Rightarrow> bool) \<Rightarrow> bool" where
  "reports_down env self running \<longleftrightarrow> (\<forall>s :: 'w test. \<not> running (world s) \<longrightarrow>
     (\<exists>s'. wait_for_nova_service_state env (sm_host self) (sm_service self) ''state'' ''down'' s = Some (Inr (), s')))"

definition undisturbed :: "('w \<Rightarrow> bool) \<Rightarrow> ('w, 'a) ext \<Rightarrow> bool" where
  "undisturbed P f \<longleftrightarrow> (\<forall>w. P w \<longrightarrow> P (snd (f w)))"

definition calls_keep :: "('w, 'h, 'm) evacuation_env_scheme \<Rightarrow> ('w \<Rightarrow> bool) \<Rightarrow> bool" where
  "calls_keep env P \<longleftrightarrow> polling_keeps env P \<and>
     (\<forall>p. undisturbed P (read_nodes_yaml env p)) \<and>
     (\<forall>kw. undisturbed P (tempest_create_test_server env kw)) \<and>
     (\<forall>i. undisturbed P (get_host_for_server env i)) \<and>
     (\<forall>i. undisturbed P (get_host_other_than env i)) \<and>
     (\<forall>i. undisturbed P (show_server env i)) \<and>
     (\<forall>i. undisturbed P (show_server_volumes env i)) \<and>
     (\<forall>i kw. undisturbed P (servers_evacuate env i kw)) \<and>
     undisturbed P (list_migrations env) \<and>
     undisturbed P (create_default_volume env) \<and>
     (\<forall>sv v. undisturbed P (attach_volume env sv v)) \<and>
     (\<forall>v st. undisturbed P (wait_for_volume_resource_status env v st)) \<and>
     (\<forall>(c :: ssh_client) d. undisturbed P (as_root env c (''virsh shutdown '' @ d))) \<and>
     (\<forall>c :: ssh_client. undisturbed P (listing env c))"

definition services_ok ::
  "('w, 'h, 'm) evacuation_env_scheme \<Rightarrow> nodes \<Rightarrow> (string \<Rightarrow> 'w \<Rightarrow> bool) \<Rightarrow> bool" where
  "services_ok env ns up \<longleftrightarrow> (\<forall>host self (s :: 'w test) s'. nodes_cache s = Some ns \<longrightarrow>
     NovaServiceManager env host ''nova-compute'' s = Some (Inr self, s') \<longrightarrow>
     service_ok env self (up host) \<and> reports_down env self (up host) \<and>
     (\<forall>h. h \<noteq> host \<longrightarrow> manager_keeps env self (up h)))"

definition evacuation_ok ::
  "('w, 'h, 'm) evacuation_env_scheme \<Rightarrow> nodes \<Rightarrow> (string \<Rightarrow> 'w \<Rightarrow> bool) \<Rightarrow> bool" where
  "evacuation_ok env ns up \<longleftrightarrow> services_ok env ns up \<and> (\<forall>h. calls_keep env (up h)) \<and>
     service_clock_ok env \<and> migration_clock_ok env \<and> (\<forall>c. listing_takes_time env c)"

section \<open>Lemmas\<close>

lemma keeps_undisturbed: "undisturbed P f \<Longrightarrow> keeps (\<lambda>s. P (world s)) (external f)"
  by (auto simp: undisturbed_def intro: keeps_external)

lemma keeps_get_host_details:
  "undisturbed P (read_nodes_yaml env (nodes_yaml (cfg env))) \<Longrightarrow> keeps (\<lambda>s. P (world s)) (get_host_details env h)"
  by (auto simp: keeps_def get_host_details_def undisturbed_def bnd_Some_iff prog_simps split: option.splits)

lemma keeps_SSHClient:
  assumes "undisturbed P (read_nodes_yaml env (nodes_yaml (cfg env)))"
  shows "keeps (\<lambda>s. P (world s)) (SSHClient env h)"
  unfolding SSHClient_def by (intro keeps_intros keeps_get_host_details assms)

lemma keeps_NovaServiceManager:
  assumes "undisturbed P (read_nodes_yaml env (nodes_yaml (cfg env)))"
  shows "keeps (\<lambda>s. P (world s)) (NovaServiceManager env h svc)"
  unfolding NovaServiceManager_def new_manager_def by (intro keeps_intros keeps_SSHClient assms)

lemma keeps_domain_wait:
  assumes "undisturbed P (listing env c)"
  shows "keeps (\<lambda>s. P (world s)) (wait_for_domain_shutdown env c name)"
  unfolding wait_for_domain_shutdown_def
proof (rule keeps_iterate [where step = "\<lambda>t. domain_step (env, c, name, t)"])
  have P: "P (snd (listing env c w))" if "P w" for w
    using assms that by (simp add: undisturbed_def)
  show "P (world s')" if "P (world s)" and "domain_step (env, c, name, t) s = Inr s'" for t s s'
    using that P [OF that(1)] by (auto simp: domain_step_cases split: if_splits prod.splits sum.splits)
  show "P (world s')" if "P (world s)" and "domain_step (env, c, name, t) s = Inl (r, s')" for t s r s'
    using that P [OF that(1)] by (auto simp: domain_step_cases split: if_splits prod.splits sum.splits)
qed

lemma keeps_migration_wait:
  assumes "undisturbed P (list_migrations env)" and "polling_keeps env P"
  shows "keeps (\<lambda>s. P (world s)) (wait_for_server_migration_complete env i)"
  unfolding wait_for_server_migration_complete_def
proof (rule keeps_iterate [where step = "\<lambda>t. migration_step (env, t)"])
  have P: "P (snd (list_migrations env w))" "P (sleep env n w)" if "P w" for w n
    using assms that by (simp_all add: undisturbed_def polling_keeps_def)
  show "P (world s')" if "P (world s)" and "migration_step (env, t) s = Inr s'" for t s s'
    using migration_step_Inr [OF that(2)] P that(1) by simp
  show "P (world s')" if "P (world s)" and "migration_step (env, t) s = Inl (r, s')" for t s r s'
    using that(2)
  proof (cases rule: migration_step_leaves)
    case timeout
    with that(1) show ?thesis by simp
  next
    case (raised e)
    with P(1) [OF that(1)] show ?thesis by simp
  next
    case (malformed migs)
    with P(1) [OF that(1)] show ?thesis by simp
  next
    case (finished migs status)
    with P(1) [OF that(1)] show ?thesis by simp
  qed
qed

lemma returns_migration_wait:
  assumes "migration_clock_ok env"
  shows "always_returns (wait_for_server_migration_complete env i)"
  unfolding always_returns_def wait_for_server_migration_complete_def
proof
  fix s
  show "\<exists>r s'. iterate (migration_step (env, clock env (world s))) s = Some (r, s')"
    using migration_poll.returns [of "(env, clock env (world s))" s] assms by simp
qed

lemma returns_domain_wait:
  assumes "listing_takes_time env c"
  shows "always_returns (wait_for_domain_shutdown env c name)"
  unfolding always_returns_def
proof
  fix s
  show "\<exists>r s'. wait_for_domain_shutdown env c name s = Some (r, s')"
    using domain_wait_run [OF assms, of s name] by (auto simp: Let_def)
qed

lemma returns_get_host_details [returns_intros]: "always_returns (get_host_details env h)"
  by (auto simp: always_returns_def get_host_details_def bnd_def prog_simps split: option.split sum.split)

lemma returns_SSHClient [returns_intros]: "always_returns (SSHClient env h)"
  unfolding SSHClient_def by (intro returns_intros)

lemma returns_NovaServiceManager [returns_intros]: "always_returns (NovaServiceManager env h svc)"
  unfolding NovaServiceManager_def new_manager_def by (intro returns_intros)

lemma calls_undisturbed:
  assumes "calls_keep env P"
  shows "undisturbed P (read_nodes_yaml env p)" "undisturbed P (tempest_create_test_server env kw)"
    "undisturbed P (get_host_for_server env i)" "undisturbed P (get_host_other_than env i)"
    "undisturbed P (show_server env i)" "undisturbed P (show_server_volumes env i)"
    "undisturbed P (servers_evacuate env i kw)" "undisturbed P (list_migrations env)"
    "undisturbed P (create_default_volume env)" "undisturbed P (attach_volume env sv v)"
    "undisturbed P (wait_for_volume_resource_status env vi st)"
    "undisturbed P (as_root env (c :: ssh_client) (''virsh shutdown '' @ d))"
    "undisturbed P (listing env c)" "polling_keeps env P"
  using assms unfolding calls_keep_def by blast+

lemma keeps_case_prod: "(\<And>a b. keeps I (f a b)) \<Longrightarrow> keeps I (case p of (a, b) \<Rightarrow> f a b)"
  by (simp add: split_beta)

lemma keeps_addCleanup: "keeps (\<lambda>s. P (world s)) (addCleanup c)"
  by (auto simp: keeps_def addCleanup_def)

lemma keeps_evacuation_body:
  assumes "calls_keep env P"
  shows "keeps (\<lambda>s. P (world s))
    (seqp (shutdown_server_domain env server host) (evacuate_server env server_id kwargs))"
  unfolding shutdown_server_domain_def evacuate_server_def execute_as_root
  using calls_undisturbed [OF assms]
  by (intro keeps_seqp keeps_bnd keeps_of_result keeps_undisturbed keeps_SSHClient keeps_domain_wait
      keeps_migration_wait) blast+

lemma manager_fields:
  assumes "NovaServiceManager env h svc s = Some (Inr self, s')"
  shows "sm_class self = NovaManager \<and> sm_host self = h \<and> sm_service self = svc"
  using assms
  by (auto simp: NovaServiceManager_def new_manager_def bnd_Inr_iff prog_simps ssh_client.defs)

lemma stop_goes_through:
  fixes s :: "'w test"
  assumes ok: "service_ok env self up" and down: "reports_down env self up" and cls: "sm_class self = NovaManager"
  shows "\<exists>out s'. stop env self s = Some (Inr out, s')"
proof -
  obtain out w where w: "as_root env self (fmt (stop_command self)) (world s) = (Inr out, w)" "\<not> up w"
    using ok unfolding service_ok_def by blast
  then obtain s' where "wait_for_nova_service_state env (sm_host self) (sm_service self) ''state'' ''down''
      (s\<lparr>world := w\<rparr>) = Some (Inr (), s')"
    using down unfolding reports_down_def by fastforce
  with w cls show ?thesis
    by (simp add: stop_def nova_stop_def execute_as_root bnd_def seqp_def external_def ret_def)
qed

text \<open>Whatever the body does to the service, it runs after the block.\<close>

lemma keeps_stopped:
  fixes body :: "unit \<Rightarrow> ('w test, 'a) prog"
  assumes ok: "service_ok env self up" and down: "reports_down env self up" and cls: "sm_class self = NovaManager"
  shows "keeps (\<lambda>s. up (world s)) (with_cm (stopped env self) body)"
  unfolding keeps_def
proof (intro allI impI)
  fix s s' :: "'w test" and r
  assume run: "with_cm (stopped env self) body s = Some (r, s')"
  obtain out s1 where "stop env self s = Some (Inr out, s1)"
    using stop_goes_through [OF assms] by blast
  then have "try_finally (body ()) (seqp (start env self) (ret ())) s1 = Some (r, s')"
    using run by (simp add: with_cm_def stopped_def seqp_def bnd_def ret_def)
  then obtain s2 q where fin: "seqp (start env self) (ret ()) s2 = Some (q, s')"
    by (auto elim: try_finally_Some)
  obtain q' s3 where "start env self s2 = Some (q', s3)" and "up (world s3)"
    using start_brings_up [OF ok] by blast
  with fin show "up (world s')"
    by (cases q') (auto simp: seqp_def bnd_def ret_def)
qed

lemma keeps_stopped_other:
  assumes "manager_keeps env self P" and "\<And>v. keeps (\<lambda>s. P (world s)) (body v)"
  shows "keeps (\<lambda>s. P (world s)) (with_cm (stopped env self) body)"
proof (rule keeps_with_cm [OF _ assms(2)])
  have start: "keeps (\<lambda>s. P (world s)) (seqp (start env self) (ret ()))"
    by (intro keeps_intros keeps_start assms(1))
  show "keeps_cm (\<lambda>s. P (world s)) (stopped env self)"
    unfolding keeps_cm_def stopped_def
  proof (intro conjI allI impI)
    show "keeps (\<lambda>s. P (world s)) (seqp (stop env self) (ret ((), seqp (start env self) (ret ()))))"
      by (intro keeps_intros keeps_stop assms(1))
  next
    fix s v leave s'
    assume "seqp (stop env self) (ret ((), seqp (start env self) (ret ()))) s = Some (Inr (v, leave), s')"
    then have "leave = seqp (start env self) (ret ())"
      by (auto simp: seqp_Inr_iff run_ret)
    with start show "keeps (\<lambda>s. P (world s)) leave" by simp
  qed
qed

lemma keeps_evacuate_from:
  fixes env :: "('w, 'h, 'm) evacuation_env_scheme" and s :: "'w test"
  assumes ok: "evacuation_ok env ns up" and "nodes_cache s = Some ns"
    and svc: "NovaServiceManager env host ''nova-compute'' s = Some (Inr self, s')"
  shows "keeps (\<lambda>s. up h (world s)) (evacuate_from env self server i host kw)"
proof -
  have self: "service_ok env self (up host)" "reports_down env self (up host)"
    and other: "h \<noteq> host \<Longrightarrow> manager_keeps env self (up h)"
    using ok \<open>nodes_cache s = Some ns\<close> svc unfolding evacuation_ok_def services_ok_def by blast+
  have calls: "calls_keep env (up h)"
    using ok unfolding evacuation_ok_def by blast
  show ?thesis
  proof (cases "h = host")
    case True
    then show ?thesis
      using keeps_stopped [OF self] manager_fields [OF svc] by (simp add: evacuate_from_def)
  next
    case False
    then show ?thesis
      unfolding evacuate_from_def by (intro keeps_stopped_other other keeps_evacuation_body calls)
  qed
qed

text \<open>
  Up to the construction of the manager the tests also keep the descriptions of the hosts as they were
  read, which the manager is built from.
\<close>

definition leads :: "('s \<Rightarrow> bool) \<Rightarrow> ('s, 'a) prog \<Rightarrow> ('s \<Rightarrow> bool) \<Rightarrow> bool" where
  "leads I m J \<longleftrightarrow> (\<forall>s r s'. I s \<longrightarrow> m s = Some (r, s') \<longrightarrow> J s')"

lemma leads_bnd:
  assumes m: "keeps I m" and weaken: "\<And>s. I s \<Longrightarrow> J s"
    and f: "\<And>x s s'. I s \<Longrightarrow> m s = Some (Inr x, s') \<Longrightarrow> leads I (f x) J"
  shows "leads I (bnd m f) J"
  unfolding leads_def
proof (intro allI impI)
  fix s r s2
  assume I: "I s" and run: "bnd m f s = Some (r, s2)"
  consider e where "m s = Some (Inl e, s2)"
    | x s1 where "m s = Some (Inr x, s1)" "f x s1 = Some (r, s2)"
    using run unfolding bnd_Some_iff by blast
  then show "J s2"
  proof cases
    case 1
    then show ?thesis using keepsD [OF m I] weaken by simp
  next
    case 2
    then show ?thesis using keepsD [OF m I 2(1)] f [OF I 2(1)] unfolding leads_def by blast
  qed
qed

lemma leads_seqp:
  "keeps I m \<Longrightarrow> (\<And>s. I s \<Longrightarrow> J s) \<Longrightarrow> leads I n J \<Longrightarrow> leads I (seqp m n) J"
  unfolding seqp_def by (rule leads_bnd)

lemma leads_keeps: "keeps J m \<Longrightarrow> (\<And>s. I s \<Longrightarrow> J s) \<Longrightarrow> leads I m J"
  unfolding leads_def keeps_def by blast

lemma leads_case_prod: "(\<And>a b. leads I (f a b) J) \<Longrightarrow> leads I (case p of (a, b) \<Rightarrow> f a b) J"
  by (simp add: split_beta)

abbreviation settled :: "nodes \<Rightarrow> ('w \<Rightarrow> bool) \<Rightarrow> 'w test \<Rightarrow> bool" where
  "settled ns P \<equiv> \<lambda>s. nodes_cache s = Some ns \<and> P (world s)"

lemma keeps_settled:
  assumes "calls_keep env P"
  shows "keeps (settled ns P) (external (get_host_for_server env i))"
    "keeps (settled ns P) (external (get_host_other_than env i))"
    "keeps (settled ns P) (external (show_server env i))"
    "keeps (settled ns P) (external (show_server_volumes env i))"
    "keeps (settled ns P) (external (create_default_volume env))"
    "keeps (settled ns P) (external (attach_volume env sv v))"
    "keeps (settled ns P) (external (wait_for_volume_resource_status env vi st))"
    "keeps (settled ns P) (create_test_server env kw)"
    "keeps (settled ns P) (NovaServiceManager env host svc)"
proof -
  show "keeps (settled ns P) (create_test_server env kw)"
    using calls_undisturbed(2) [OF assms]
    by (auto simp: create_test_server_def undisturbed_def addCleanup_def keeps_def bnd_Some_iff seqp_def prog_simps)
  show "keeps (settled ns P) (NovaServiceManager env host svc)"
    by (auto simp: keeps_def NovaServiceManager_def new_manager_def bnd_Some_iff prog_simps SSHClient_def
        get_host_details_def)
qed (use calls_undisturbed [OF assms] in \<open>auto simp: keeps_def undisturbed_def prog_simps\<close>)

lemma keeps_checks:
  assumes "calls_keep env P"
  shows "keeps (\<lambda>s. P (world s)) (external (get_host_for_server env i))"
    "keeps (\<lambda>s. P (world s)) (external (show_server env i))"
    "keeps (\<lambda>s. P (world s)) (external (show_server_volumes env i))"
  using calls_undisturbed [OF assms] by (auto intro: keeps_undisturbed)

lemma keeps_evacuated_with_volume:
  assumes "calls_keep env P"
  shows "keeps (\<lambda>s. P (world s)) (evacuated_with_volume env i host v)"
  unfolding evacuated_with_volume_def by (intro keeps_intros keeps_case_prod keeps_checks assms)

lemma leads_manager:
  fixes env :: "('w, 'h, 'm) evacuation_env_scheme" and f :: "service_manager \<Rightarrow> ('w test, 'a) prog"
  assumes "calls_keep env P"
    and "\<And>self (s :: 'w test) s'. nodes_cache s = Some ns \<Longrightarrow>
      NovaServiceManager env host svc s = Some (Inr self, s') \<Longrightarrow> keeps (\<lambda>s. P (world s)) (f self)"
  shows "leads (settled ns P) (bnd (NovaServiceManager env host svc) f) (\<lambda>s. P (world s))"
proof (rule leads_bnd [OF keeps_settled(9) [OF assms(1)]])
  fix self and s s' :: "'w test"
  assume "settled ns P s" and "NovaServiceManager env host svc s = Some (Inr self, s')"
  then have "keeps (\<lambda>s. P (world s)) (f self)" using assms(2) by blast
  then show "leads (settled ns P) (f self) (\<lambda>s. P (world s))" by (rule leads_keeps) blast
qed blast

lemma leads_run_evacuation:
  assumes ok: "evacuation_ok env ns up"
  shows "leads (settled ns (up h)) (run_evacuation env t) (\<lambda>s. up h (world s))"
proof -
  have calls: "calls_keep env (up h)" using ok unfolding evacuation_ok_def by blast
  note steps = leads_manager [OF calls] keeps_settled [OF calls] keeps_checks [OF calls]
    keeps_evacuated_with_volume [OF calls] keeps_evacuate_from [OF ok]
    leads_bnd leads_seqp leads_case_prod keeps_case_prod keeps_seqp keeps_of_result keeps_check keeps_bnd
  show ?thesis
    by (cases t; hypsubst; unfold run_evacuation.simps test_evacuate_to_shutoff_def test_evacuate_to_active_def
        test_evacuate_to_def test_evacuate_with_target_host_def test_evacuate_attached_vol_def
        test_evacuate_bfv_server_def; (rule steps | assumption | (erule conjunct2))+)
qed

lemma returns_stopped:
  assumes "service_clock_ok env" and "\<And>v. always_returns (body v)"
  shows "always_returns (with_cm (stopped env self) body)"
proof (rule returns_with_cm)
  show "always_returns (stopped env self)"
    unfolding stopped_def by (intro returns_intros returns_stop assms(1))
next
  fix s v leave s'
  assume "stopped env self s = Some (Inr (v, leave), s')"
  then have "leave = seqp (start env self) (ret ())"
    by (auto simp: stopped_def seqp_Inr_iff run_ret)
  then show "always_returns leave" by (auto intro!: returns_seqp returns_start returns_basic assms(1))
qed (rule assms(2))

lemma returns_case_prod: "(\<And>a b. always_returns (f a b)) \<Longrightarrow> always_returns (case p of (a, b) \<Rightarrow> f a b)"
  by (simp add: split_beta)

lemma returns_run_evacuation:
  assumes ok: "evacuation_ok env ns up"
  shows "always_returns (run_evacuation env t)"
proof -
  have clocks: "service_clock_ok env" "migration_clock_ok env" "\<And>c. listing_takes_time env c"
    using ok unfolding evacuation_ok_def by blast+
  have body: "always_returns (seqp (shutdown_server_domain env server host) (evacuate_server env i kw))" for server host i kw
    unfolding shutdown_server_domain_def evacuate_server_def
    by (intro returns_intros returns_domain_wait returns_migration_wait clocks)
  have add: "always_returns (addCleanup c)" for c :: cleanup
    by (simp add: always_returns_def addCleanup_def)
  note steps = returns_stopped [OF clocks(1) body] returns_case_prod add returns_intros
  show ?thesis
    by (cases t; hypsubst; unfold run_evacuation.simps test_evacuate_to_shutoff_def test_evacuate_to_active_def
        test_evacuate_to_def test_evacuate_with_target_host_def test_evacuate_attached_vol_def
        test_evacuate_bfv_server_def evacuated_with_volume_def evacuate_from_def create_test_server_def; (rule steps)+)
qed

section \<open>Properties\<close>

text \<open>C6. An evacuation test leaves no compute service down, on three conditions: the start and stop commands
  of the hosts work and no other call of the test starts or stops a compute service; Nova reports
  a stopped compute service as down before the wait for it times out; and time passes, that is, sleeping
  advances the clock, no call sets it back, and listing the domains of a host again and again lets it pass
  every bound. Then each of the five tests returns, and whether it passes or is ended by an assertion, an
  error of a service, a failed migration or a timeout of a later wait, the compute service of every host that
  ran before runs afterwards, that of the server's host included, which the test stops. Without the second
  condition this fails: the service stays down if the wait for it to be reported as down times out.
\<close>

theorem evacuation_restores_service:
  assumes "evacuation_ok env ns up" and "nodes_cache s = Some ns"
  shows "\<exists>r s'. run_evacuation env t s = Some (r, s') \<and> (\<forall>h. up h (world s) \<longrightarrow> up h (world s'))"
proof -
  obtain r s' where run: "run_evacuation env t s = Some (r, s')"
    using always_returnsD [OF returns_run_evacuation [OF assms(1)]] by metis
  have "up h (world s')" if "up h (world s)" for h
    using leads_run_evacuation [OF assms(1), of h t] run that assms(2) unfolding leads_def by blast
  with run show ?thesis by blast
qed

text \<open>
  Two compute hosts whose outside world is the list of hosts with a stopped compute service, the
  clock, and the place of the server.
\<close>

type_synonym two_hosts = "string list \<times> int \<times> string"

definition runs :: "string \<Rightarrow> two_hosts \<Rightarrow> bool" where
  "runs h = (\<lambda>(down, t, place). h \<notin> set down)"

definition two_hosts_env :: "(two_hosts, unit) evacuation_env" where
  "two_hosts_env = api_env.extend (idle_api\<lparr>
       ssh_exec := (\<lambda>a u k c (down, t, place). (Inr [],
         (if c = ''sudo start'' then filter (\<lambda>h. h \<noteq> a) down else if c = ''sudo stop'' then a # down else down, t + 1, place))),
       clock := (\<lambda>(down, t, place). t), sleep := (\<lambda>n (down, t, place). (down, t + n, place)),
       list_services := (\<lambda>h b (down, t, place). (Inr [[(''state'', if fmt h \<in> set down then ''down'' else ''up'')]],
         (down, t, place))),
       list_migrations := (\<lambda>w. (Inr [[(''status'', ''done'')]], w)),
       tempest_create_test_server := (\<lambda>kw w. (Inr [(''id'', ''vm'')], w)),
       get_host_for_server := (\<lambda>i (down, t, place). (Inr place, (down, t, place))),
       show_server := (\<lambda>i w. (Inr [(''OS-EXT-SRV-ATTR:instance_name'', ''instance-1''), (''status'', ''ERROR'')], w)),
       servers_evacuate := (\<lambda>i kw (down, t, place). (Inr (), (down, t, ''b'')))\<rparr>)
     \<lparr>get_host_other_than = (\<lambda>i w. (Inr ''b'', w)), create_default_volume = (\<lambda>w. (Inr [], w)),
      attach_volume = (\<lambda>sv v w. (Inr [], w)), wait_for_volume_resource_status = (\<lambda>v st w. (Inr (), w)),
      show_server_volumes = (\<lambda>i w. (Inr ([], None), w))\<rparr>"

definition compute_host :: host_details where
  "compute_host = \<lparr>hd_services = Some [(''nova-compute'', [(''start_command'', ''start''), (''stop_command'', ''stop'')])],
     hd_cpu_dedicated_set = None, hd_cpu_shared_set = None\<rparr>"

definition two_hosts_nodes :: nodes where
  "two_hosts_nodes = [(''a'', compute_host), (''b'', compute_host)]"

lemma two_hosts_manager:
  assumes "NovaServiceManager two_hosts_env host ''nova-compute'' s = Some (Inr self, s')"
    and "nodes_cache s = Some two_hosts_nodes"
  shows "ctlplane_address self = host \<and> sm_host self = host \<and> start_command self = Some ''start'' \<and>
    stop_command self = Some ''stop'' \<and> mask_command self = None \<and> unmask_command self = None"
  using assms
  by (auto simp: NovaServiceManager_def new_manager_def bnd_Inr_iff run_SSHClient get_host_details_def prog_simps
      two_hosts_nodes_def compute_host_def two_hosts_env_def idle_api_def api_env.defs default_conf_def
      get_ctlplane_address_def require_section_cases ssh_client.defs split: if_splits)

lemma two_hosts_clocks:
  "service_clock_ok two_hosts_env" "migration_clock_ok two_hosts_env"
  by (auto simp: service_clock_ok_def migration_clock_ok_def sleep_advances_def never_back_def two_hosts_env_def
      idle_api_def api_env.defs)

lemma two_hosts_listing: "listing_takes_time two_hosts_env c"
  unfolding listing_takes_time_def
proof (intro allI)
  fix w :: two_hosts and t
  have "listing two_hosts_env c w = (Inr [], fst w, fst (snd w) + 1, snd (snd w))" for w
    by (simp add: listing_def as_root_def two_hosts_env_def api_env.defs split_beta)
  then have "fst (snd (after_listings two_hosts_env c n w)) = fst (snd w) + int n" for n w
    by (induction n arbitrary: w) (simp_all add: after_listings_Suc)
  then have "clock two_hosts_env (after_listings two_hosts_env c (nat \<bar>t - fst (snd w)\<bar> + 1) w) =
      fst (snd w) + int (nat \<bar>t - fst (snd w)\<bar> + 1)"
    by (simp add: two_hosts_env_def api_env.defs split_beta)
  then show "\<exists>n. t < clock two_hosts_env (after_listings two_hosts_env c n w)"
    by (intro exI [of _ "nat \<bar>t - fst (snd w)\<bar> + 1"]) simp
qed

lemma two_hosts_services: "services_ok two_hosts_env two_hosts_nodes runs"
  unfolding services_ok_def
proof (intro allI impI conjI)
  fix host self h and s s' :: "two_hosts test"
  assume "nodes_cache s = Some two_hosts_nodes"
    and "NovaServiceManager two_hosts_env host ''nova-compute'' s = Some (Inr self, s')"
  note self = two_hosts_manager [OF this(2,1)]
  show "service_ok two_hosts_env self (runs host)"
    using self two_hosts_clocks(1)
    by (auto simp: service_ok_def unmasked_def polling_keeps_def as_root_def runs_def fmt_def truthy_def two_hosts_env_def
        idle_api_def api_env.defs)
  show "reports_down two_hosts_env self (runs host)"
    using self
    by (auto simp: reports_down_def run_service_wait poll_service_def py_first_def iterate.simps
        service_state_step_def service_query_def runs_def fmt_def two_hosts_env_def idle_api_def api_env.defs)
  show "manager_keeps two_hosts_env self (runs h)" if "h \<noteq> host"
    using self that
    by (auto simp: manager_keeps_def polling_keeps_def as_root_def runs_def fmt_def two_hosts_env_def
        idle_api_def api_env.defs)
qed

lemma two_hosts_calls: "calls_keep two_hosts_env (runs h)"
  by (auto simp: calls_keep_def undisturbed_def polling_keeps_def listing_def as_root_def runs_def two_hosts_env_def
      idle_api_def api_env.defs)

definition two_hosts_state :: "two_hosts test" where
  "two_hosts_state = \<lparr>nodes_cache = Some two_hosts_nodes, cleanups = [], world = ([], 0, ''a'')\<rparr>"

theorem evacuation_restores_service_witness:
  "\<exists>r s'. run_evacuation two_hosts_env ToShutoff two_hosts_state = Some (r, s') \<and> runs ''a'' (world s')"
proof -
  have "evacuation_ok two_hosts_env two_hosts_nodes runs"
    by (simp add: evacuation_ok_def two_hosts_services two_hosts_calls two_hosts_clocks two_hosts_listing)
  from evacuation_restores_service [OF this, of two_hosts_state ToShutoff] show ?thesis
    by (auto simp: two_hosts_state_def runs_def)
qed

text \<open>C38. The condition is needed: a service is stopped before the \<^verbatim>\<open>try\<close> statement of \<^verbatim>\<open>stopped\<close>. If Nova does
  not report it as down in time, the block is left with the timeout, its body never runs, and the
  service stays down.
\<close>

theorem stopped_timeout_leaves_down:
  assumes "service_ok env self up" and "stop env self s = Some (Inl e, s')"
  shows "with_cm (stopped env self) body s = Some (Inl e, s') \<and> \<not> up (world s')"
proof
  show "with_cm (stopped env self) body s = Some (Inl e, s')"
    using assms(2) by (simp add: with_cm_def stopped_def seqp_def bnd_def)
  show "\<not> up (world s')"
    using stop_takes_down [OF assms] .
qed

text \<open>Nova goes on reporting the service as up.\<close>

definition unaware_env :: "(bool \<times> int) nova_env" where
  "unaware_env = switch_env\<lparr>list_services := (\<lambda>h b w. (Inr [[(''state'', ''up'')]], w)), services_timeout := 2\<rparr>"

theorem stopped_timeout_leaves_down_witness:
  "\<exists>s'. with_cm (stopped unaware_env (ini_manager NovaManager)) (\<lambda>_. ret ())
      \<lparr>nodes_cache = None, cleanups = [] :: unit list, world = (True, 0)\<rparr> = Some (Inl TimeoutException, s') \<and>
    \<not> fst (world s')"
proof -
  let ?s = "\<lparr>nodes_cache = None, cleanups = [] :: unit list, world = (True, 0)\<rparr> :: (unit, bool \<times> int) proc"
  have ok: "service_ok unaware_env (ini_manager NovaManager) fst"
    by (auto simp: service_ok_def unmasked_def service_clock_ok_def sleep_advances_def never_back_def polling_keeps_def
        as_root_def ini_manager_def fmt_def truthy_def unaware_env_def switch_env_def split: prod.splits)
  have "\<exists>s'. stop unaware_env (ini_manager NovaManager) ?s = Some (Inl TimeoutException, s')"
    by (simp add: stop_def nova_stop_def execute_as_root as_root_def unaware_env_def switch_env_def
        ini_manager_def fmt_def seqp_def bnd_def external_def ret_def run_service_wait
        poll_service_def py_first_def iterate.simps service_state_step_def service_query_def)
  then obtain s' where "stop unaware_env (ini_manager NovaManager) ?s = Some (Inl TimeoutException, s')" ..
  from stopped_timeout_leaves_down [OF ok this, of "\<lambda>_. ret ()"] show ?thesis by blast
qed

end
