(* ===== verification/Vgpu.thy ===== *)
theory Vgpu
  imports Server_Checks
begin

text \<open>
  The helpers of \<^verbatim>\<open>VGPUTest\<close> in \<^verbatim>\<open>whitebox_tempest_plugin/api/compute/test_vgpu.py\<close>: they walk the trees
  of resource providers that Placement keeps, collect inventories and usages of vGPUs, migrate a
  server cold, and look for the devices in its domain and in the guest.
\<close>

section \<open>Definitions\<close>

text \<open>
  The calls of Placement's and Nova's clients and of the SSH client of a guest. Of an answer the part
  under the key that the code reads is given, \<open>None\<close> if the answer does not have it.
  \<open>vgpu_vendor_id\<close> is the option of that name.
\<close>

record ('w, 'h, 'g) vgpu_env = "('w, 'h) api_env" +
  vgpu_vendor_id :: "string option"
  list_rps_by_name :: "string \<Rightarrow> ('w, json_object list option) ext"
  list_rps_in_tree :: "json \<Rightarrow> ('w, json_object list option) ext"
  list_rp_inventories :: "json \<Rightarrow> ('w, json_object option) ext"
  list_rp_usages :: "json \<Rightarrow> ('w, (string \<times> int) list option) ext"
  migrate_server :: "string \<Rightarrow> string \<Rightarrow> ('w, unit) ext"
  revert_resize_server :: "string \<Rightarrow> ('w, unit) ext"
  confirm_resize_server :: "string \<Rightarrow> ('w, unit) ext"
  guest_exec :: "'g \<Rightarrow> string \<Rightarrow> ('w, string option) ext"

text \<open>\<^verbatim>\<open>d.get(k)\<close>, with \<^verbatim>\<open>None\<close> as a value.\<close>

definition json_get :: "json_object \<Rightarrow> string \<Rightarrow> json" where
  "json_get d k = (case map_of d k of None \<Rightarrow> JNull | Some v \<Rightarrow> v)"

definition get_rp_uuid_from_hostname ::
  "('w, 'h, 'g, 'm) vgpu_env_scheme \<Rightarrow> string \<Rightarrow> (('c, 'w) proc, json) prog" where
  "get_rp_uuid_from_hostname env hostname =
     bnd (external (list_rps_by_name env hostname)) (\<lambda>rps.
     of_result (case rps of
         None \<Rightarrow> Inl TypeError
       | Some xs \<Rightarrow> bind_res (py_nth xs 0) (\<lambda>x. Inr (json_get x ''uuid''))))"

text \<open>The filter compares a provider, which is a dictionary, with the uuid.\<close>

definition get_all_children_of_resource_provider ::
  "('w, 'h, 'g, 'm) vgpu_env_scheme \<Rightarrow> json \<Rightarrow> (('c, 'w) proc, json list) prog" where
  "get_all_children_of_resource_provider env rp_uuid =
     bnd (external (list_rps_in_tree env rp_uuid)) (\<lambda>rps.
     of_result (case rps of
         None \<Rightarrow> Inl TypeError
       | Some xs \<Rightarrow> Inr (map (\<lambda>x. json_get x ''uuid'') (filter (\<lambda>x. JDict x \<noteq> rp_uuid) xs))))"

text \<open>Lists and dictionaries cannot be keys of a dictionary.\<close>

definition hashable :: "json \<Rightarrow> bool" where
  "hashable j = (case j of JList _ \<Rightarrow> False | JDict _ \<Rightarrow> False | _ \<Rightarrow> True)"

type_synonym vgpu_inventories = "(json \<times> json_object) list"

definition add_inventory ::
  "('w, 'h, 'g, 'm) vgpu_env_scheme \<Rightarrow> vgpu_inventories \<Rightarrow> json \<Rightarrow> (('c, 'w) proc, vgpu_inventories) prog" where
  "add_inventory env inventories rp_uuid =
     bnd (external (list_rp_inventories env rp_uuid)) (\<lambda>inventory. case inventory of
         None \<Rightarrow> raise AttributeError
       | Some held \<Rightarrow>
           (if ''VGPU'' \<in> set (map fst held)
            then (if hashable rp_uuid then ret (AList.update rp_uuid held inventories) else raise TypeError)
            else ret inventories))"

definition add_host_inventories ::
  "('w, 'h, 'g, 'm) vgpu_env_scheme \<Rightarrow> vgpu_inventories \<Rightarrow> string \<Rightarrow> (('c, 'w) proc, vgpu_inventories) prog" where
  "add_host_inventories env inventories hostname =
     bnd (get_rp_uuid_from_hostname env hostname) (\<lambda>rp_uuid.
     bnd (get_all_children_of_resource_provider env rp_uuid) (\<lambda>rp_children.
     foldM (add_inventory env) inventories rp_children))"

definition get_vgpu_inventories_for_deployment ::
  "('w, 'h, 'g, 'm) vgpu_env_scheme \<Rightarrow> (('c, 'w) proc, vgpu_inventories) prog" where
  "get_vgpu_inventories_for_deployment env =
     bnd (list_compute_hosts env) (\<lambda>hostnames.
     foldM (add_host_inventories env) [] hostnames)"

definition add_usage ::
  "('w, 'h, 'g, 'm) vgpu_env_scheme \<Rightarrow> int \<Rightarrow> json \<Rightarrow> (('c, 'w) proc, int) prog" where
  "add_usage env total_vgpu_usage rp_uuid =
     bnd (external (list_rp_usages env rp_uuid)) (\<lambda>rp_usages.
     of_result (case rp_usages of
         None \<Rightarrow> Inl AttributeError
       | Some us \<Rightarrow> (let vgpu_usage = (case map_of us ''VGPU'' of None \<Rightarrow> 0 | Some n \<Rightarrow> n)
                      in Inr (total_vgpu_usage + vgpu_usage))))"

definition get_usage_for_resource_class_vgpu ::
  "('w, 'h, 'g, 'm) vgpu_env_scheme \<Rightarrow> json list \<Rightarrow> (('c, 'w) proc, int) prog" where
  "get_usage_for_resource_class_vgpu env rp_uuids = foldM (add_usage env) 0 rp_uuids"

definition get_vgpu_util_for_host ::
  "('w, 'h, 'g, 'm) vgpu_env_scheme \<Rightarrow> string \<Rightarrow> (('c, 'w) proc, int) prog" where
  "get_vgpu_util_for_host env hostname =
     bnd (get_rp_uuid_from_hostname env hostname) (\<lambda>rp_uuid.
     bnd (get_all_children_of_resource_provider env rp_uuid) (\<lambda>rp_children.
     get_usage_for_resource_class_vgpu env rp_children))"

definition vendor_command :: "string option \<Rightarrow> string" where
  "vendor_command vendor_id = ''grep -nr 0x'' @ fmt vendor_id @ '' /sys/bus/pci/devices/*/vendor | grep -E '' @
     [CHR 0x27] @ ''[0-9a-e]{4}:[0-9a-e]{2}:[0-9a-e]{2}.[0-9a-e]{1}'' @ [CHR 0x27] @ '' | wc -l''"

definition assert_vendor_id_in_guest ::
  "('w, 'h, 'g, 'm) vgpu_env_scheme \<Rightarrow> 'g \<Rightarrow> int \<Rightarrow> (('c, 'w) proc, unit) prog" where
  "assert_vendor_id_in_guest env linux_client expected_device_count =
     bnd (external (guest_exec env linux_client (vendor_command (vgpu_vendor_id env)))) (\<lambda>sys_out.
     case sys_out of
       None \<Rightarrow> raise AssertionError
     | Some out \<Rightarrow> bnd (of_result (py_int_res out)) (\<lambda>n. check (expected_device_count = n)))"

definition cold_migrate_server ::
  "('w, 'h, 'g, 'm) vgpu_env_scheme \<Rightarrow> string \<Rightarrow> string \<Rightarrow> bool \<Rightarrow> (('c, 'w) proc, unit) prog" where
  "cold_migrate_server env server_id target_host revert =
     bnd (external (get_host_for_server env server_id)) (\<lambda>src_host.
     seqp (external (migrate_server env server_id target_host))
     (seqp (external (wait_for_server_status env Primary server_id ''VERIFY_RESIZE''))
     (seqp (if revert then external (revert_resize_server env server_id)
            else external (confirm_resize_server env server_id))
     (seqp (external (wait_for_server_status env Primary server_id ''ACTIVE''))
     (bnd (external (get_host_for_server env server_id)) (\<lambda>dst_host.
     check (if revert then src_host = dst_host else src_host \<noteq> dst_host)))))))"

definition validate_vgpu_instance ::
  "('w, 'h, 'g, 'm) vgpu_env_scheme \<Rightarrow> api_object \<Rightarrow> 'g \<Rightarrow> int \<Rightarrow> (('c, 'w) proc, unit) prog" where
  "validate_vgpu_instance env server linux_client expected_device_count =
     bnd (key server ''id'') (\<lambda>server_id.
     bnd (get_server_xml env server_id) (\<lambda>root.
     (let vgpu_devices = findall root [Child ''devices'', Child ''hostdev'', AttrIs ''type'' ''mdev'']
      in seqp (check (expected_device_count = int (length vgpu_devices)))
         (if expected_device_count = 0 then ret ()
          else assert_vendor_id_in_guest env linux_client expected_device_count))))"

definition validate_final_vgpu_rp_inventory ::
  "vgpu_inventories \<Rightarrow> vgpu_inventories \<Rightarrow> ('s, unit) prog" where
  "validate_final_vgpu_rp_inventory starting_rp_vgpu_inventory end_rp_vgpu_inventory =
     forM (\<lambda>rp_uuid. check (map_of starting_rp_vgpu_inventory rp_uuid = map_of end_rp_vgpu_inventory rp_uuid))
       (map fst starting_rp_vgpu_inventory)"

section \<open>What Placement holds\<close>

text \<open>
  A deployment at rest: its compute hosts, the root provider of each host, the providers in the tree of
  a root (which, as Placement documents it, include the root), and the inventory and usage of each
  provider. Asking for them does not change them.
\<close>

record placement =
  p_hosts :: "string list"
  p_root :: "string \<Rightarrow> string"
  p_tree :: "string \<Rightarrow> string list"
  p_inventory :: "string \<Rightarrow> json_object"
  p_usage :: "string \<Rightarrow> (string \<times> int) list"

definition provider :: "string \<Rightarrow> json_object" where
  "provider u = [(''uuid'', JStr u)]"

definition placement_ok :: "('w, 'h, 'g, 'm) vgpu_env_scheme \<Rightarrow> placement \<Rightarrow> bool" where
  "placement_ok env p \<longleftrightarrow>
     (\<forall>w. \<exists>w'. list_services env None ''nova-compute'' w = (Inr (map (\<lambda>h. [(''host'', h)]) (p_hosts p)), w')) \<and>
     (\<forall>h w. \<exists>w'. list_rps_by_name env h w = (Inr (Some [provider (p_root p h)]), w')) \<and>
     (\<forall>u w. \<exists>w'. list_rps_in_tree env (JStr u) w = (Inr (Some (map provider (p_tree p u))), w')) \<and>
     (\<forall>u w. \<exists>w'. list_rp_inventories env (JStr u) w = (Inr (Some (p_inventory p u)), w')) \<and>
     (\<forall>u w. \<exists>w'. list_rp_usages env (JStr u) w = (Inr (Some (p_usage p u)), w'))"

definition has_vgpu :: "placement \<Rightarrow> string \<Rightarrow> bool" where
  "has_vgpu p u \<longleftrightarrow> ''VGPU'' \<in> fst ` set (p_inventory p u)"

definition vgpu_usage :: "placement \<Rightarrow> string \<Rightarrow> int" where
  "vgpu_usage p u = (case map_of (p_usage p u) ''VGPU'' of None \<Rightarrow> 0 | Some n \<Rightarrow> n)"

lemma run_call: "\<exists>w'. f (world s) = (r, w') \<Longrightarrow> \<exists>s'. external f s = Some (r, s')"
  by (auto simp: external_def)

lemma run_bnd_ex:
  assumes "\<exists>s1. m s = Some (Inr x, s1)" and "\<And>s1. \<exists>s2. f x s1 = Some (r, s2)"
  shows "\<exists>s2. bnd m f s = Some (r, s2)"
  using assms by (auto simp: bnd_def)

lemma root_run:
  assumes "placement_ok env p"
  shows "\<exists>s'. get_rp_uuid_from_hostname env h s = Some (Inr (JStr (p_root p h)), s')"
proof -
  have "\<exists>s1. external (list_rps_by_name env h) s = Some (Inr (Some [provider (p_root p h)]), s1)"
    using assms unfolding placement_ok_def by (intro run_call) blast
  then show ?thesis
    unfolding get_rp_uuid_from_hostname_def
    by (rule run_bnd_ex) (simp add: of_result_def py_nth_def provider_def json_get_def)
qed

lemma tree_run:
  assumes "placement_ok env p"
  shows "\<exists>s'. get_all_children_of_resource_provider env (JStr u) s = Some (Inr (map JStr (p_tree p u)), s')"
proof -
  have "\<exists>s1. external (list_rps_in_tree env (JStr u)) s = Some (Inr (Some (map provider (p_tree p u))), s1)"
    using assms unfolding placement_ok_def by (intro run_call) blast
  then show ?thesis
    unfolding get_all_children_of_resource_provider_def
    by (rule run_bnd_ex) (simp add: of_result_def provider_def json_get_def o_def)
qed

lemma add_inventory_run:
  assumes "placement_ok env p"
  shows "\<exists>s'. add_inventory env acc (JStr u) s =
    Some (Inr (if has_vgpu p u then AList.update (JStr u) (p_inventory p u) acc else acc), s')"
proof -
  have "\<exists>s1. external (list_rp_inventories env (JStr u)) s = Some (Inr (Some (p_inventory p u)), s1)"
    using assms unfolding placement_ok_def by (intro run_call) blast
  then show ?thesis
    unfolding add_inventory_def by (rule run_bnd_ex) (simp add: has_vgpu_def hashable_def ret_def)
qed

lemma add_usage_run:
  assumes "placement_ok env p"
  shows "\<exists>s'. add_usage env n (JStr u) s = Some (Inr (n + vgpu_usage p u), s')"
proof -
  have "\<exists>s1. external (list_rp_usages env (JStr u)) s = Some (Inr (Some (p_usage p u)), s1)"
    using assms unfolding placement_ok_def by (intro run_call) blast
  then show ?thesis
    unfolding add_usage_def by (rule run_bnd_ex) (simp add: vgpu_usage_def of_result_def Let_def)
qed

text \<open>Collecting is folding over the providers.\<close>

definition collect :: "placement \<Rightarrow> vgpu_inventories \<Rightarrow> string \<Rightarrow> vgpu_inventories" where
  "collect p acc u = (if has_vgpu p u then AList.update (JStr u) (p_inventory p u) acc else acc)"

lemma foldM_map: "foldM f a (map h xs) = foldM (\<lambda>a x. f a (h x)) a xs"
  by (induction xs arbitrary: a) simp_all

lemma host_inventories_run:
  assumes "placement_ok env p"
  shows "\<exists>s'. add_host_inventories env acc h s = Some (Inr (foldl (collect p) acc (p_tree p (p_root p h))), s')"
  unfolding add_host_inventories_def
proof (rule run_bnd_ex [OF root_run [OF assms]], rule run_bnd_ex [OF tree_run [OF assms]])
  show "\<exists>s2. foldM (add_inventory env) acc (map JStr (p_tree p (p_root p h))) s1 =
      Some (Inr (foldl (collect p) acc (p_tree p (p_root p h))), s2)" for s1
    unfolding foldM_map by (rule run_foldM) (simp add: collect_def add_inventory_run [OF assms])
qed

lemma deployment_inventories_run:
  assumes "placement_ok env p"
  shows "\<exists>s'. get_vgpu_inventories_for_deployment env s =
    Some (Inr (foldl (\<lambda>acc h. foldl (collect p) acc (p_tree p (p_root p h))) [] (p_hosts p)), s')"
  unfolding get_vgpu_inventories_for_deployment_def
proof (rule run_bnd_ex [where x = "p_hosts p"])
  have "map_res (\<lambda>service. py_key service ''host'') (map (\<lambda>h. [(''host'', h)]) hs) = Inr hs" for hs
    by (induction hs) (simp_all add: py_key_def)
  moreover have "\<exists>s1. external (list_services env None ''nova-compute'') s =
      Some (Inr (map (\<lambda>h. [(''host'', h)]) (p_hosts p)), s1)"
    using assms unfolding placement_ok_def by (intro run_call) blast
  ultimately show "\<exists>s1. list_compute_hosts env s = Some (Inr (p_hosts p), s1)"
    unfolding list_compute_hosts_def by (intro run_bnd_ex) (auto simp: of_result_def)
  show "\<exists>s2. foldM (add_host_inventories env) [] (p_hosts p) s1 =
      Some (Inr (foldl (\<lambda>acc h. foldl (collect p) acc (p_tree p (p_root p h))) [] (p_hosts p)), s2)" for s1
    by (rule run_foldM) (rule host_inventories_run [OF assms])
qed

lemma util_run:
  assumes "placement_ok env p"
  shows "\<exists>s'. get_vgpu_util_for_host env h s =
    Some (Inr (\<Sum>u\<leftarrow>p_tree p (p_root p h). vgpu_usage p u), s')"
  unfolding get_vgpu_util_for_host_def
proof (rule run_bnd_ex [OF root_run [OF assms]], rule run_bnd_ex [OF tree_run [OF assms]])
  have "foldl (\<lambda>n u. n + vgpu_usage p u) n us = n + (\<Sum>u\<leftarrow>us. vgpu_usage p u)" for n us
    by (induction us arbitrary: n) simp_all
  moreover have "\<exists>s2. foldM (add_usage env) 0 (map JStr us) s1 = Some (Inr (foldl (\<lambda>n u. n + vgpu_usage p u) 0 us), s2)"
    for s1 us
    unfolding foldM_map by (rule run_foldM) (rule add_usage_run [OF assms])
  ultimately show "\<exists>s2. get_usage_for_resource_class_vgpu env (map JStr (p_tree p (p_root p h))) s1 =
      Some (Inr (\<Sum>u\<leftarrow>p_tree p (p_root p h). vgpu_usage p u), s2)" for s1
    by (simp add: get_usage_for_resource_class_vgpu_def)
qed

lemma collect_lookup:
  "map_of (foldl (collect p) acc us) (JStr u) =
     (if u \<in> set us \<and> has_vgpu p u then Some (p_inventory p u) else map_of acc (JStr u))"
  by (induction us arbitrary: acc) (auto simp: collect_def update_conv)

lemma collect_hosts_lookup:
  "map_of (foldl (\<lambda>acc h. foldl (collect p) acc (p_tree p (p_root p h))) acc hs) (JStr u) =
     (if (\<exists>h \<in> set hs. u \<in> set (p_tree p (p_root p h))) \<and> has_vgpu p u then Some (p_inventory p u)
      else map_of acc (JStr u))"
  by (induction hs arbitrary: acc) (auto simp: collect_lookup)

text \<open>
  Nova's part in a cold migration: the calls and the waits go through. Where the server is after each of
  them is left open: it may also move while a status is waited for.
\<close>

definition goes_through :: "('w, unit) ext \<Rightarrow> bool" where
  "goes_through f \<longleftrightarrow> (\<forall>w. \<exists>w'. f w = (Inr (), w'))"

definition resizing_ok :: "('w, 'h, 'g, 'm) vgpu_env_scheme \<Rightarrow> string \<Rightarrow> string \<Rightarrow> ('w \<Rightarrow> string) \<Rightarrow> bool" where
  "resizing_ok env i target place \<longleftrightarrow> host_reported env i place \<and> goes_through (migrate_server env i target) \<and>
     goes_through (revert_resize_server env i) \<and> goes_through (confirm_resize_server env i) \<and>
     (\<forall>st. goes_through (wait_for_server_status env Primary i st))"

lemma goes_throughD: "goes_through f \<Longrightarrow> \<exists>s'. external f s = Some (Inr (), s')"
  unfolding goes_through_def by (intro run_call) blast

lemma run_seqp_ex:
  assumes "\<exists>s1. m s = Some (Inr x, s1)" and "\<And>s1. \<exists>s2. n s1 = Some (r s2, s2)"
  shows "\<exists>s2. seqp m n s = Some (r s2, s2)"
  using assms by (auto simp: seqp_def bnd_def)

lemma cold_migrate_run:
  fixes s :: "('c, 'w) proc"
  assumes ok: "resizing_ok env i target place"
  shows "\<exists>s'. cold_migrate_server env i target revert s =
    Some (if (place (world s) = place (world s')) = revert then Inr () else Inl AssertionError, s')"
proof -
  have report: "host_reported env i place"
    and calls: "goes_through (migrate_server env i target)" "goes_through (revert_resize_server env i)"
      "goes_through (confirm_resize_server env i)"
    and wait: "goes_through (wait_for_server_status env Primary i st)" for st
    using ok unfolding resizing_ok_def by blast+
  note waited = goes_throughD [OF wait]
  have finish: "\<exists>s'. (if revert then external (revert_resize_server env i)
      else external (confirm_resize_server env i)) t = Some (Inr (), s')" for t :: "('c, 'w) proc"
    using goes_throughD [OF calls(2)] goes_throughD [OF calls(3)] by (cases revert) simp_all
  let ?outcome = "\<lambda>s' :: ('c, 'w) proc. if (place (world s) = place (world s')) = revert then Inr () else Inl AssertionError"
  have last: "\<exists>s'. bnd (external (get_host_for_server env i)) (\<lambda>dst_host.
      check (if revert then place (world s) = dst_host else place (world s) \<noteq> dst_host)) t = Some (?outcome s', s')" for t
  proof -
    obtain s' where "external (get_host_for_server env i) t = Some (Inr (place (world t)), s')"
      and "place (world s') = place (world t)"
      using host_reportedD [OF report] by blast
    then show ?thesis by (auto simp: bnd_def run_check)
  qed
  obtain s1 where "external (get_host_for_server env i) s = Some (Inr (place (world s)), s1)"
    using host_reportedD [OF report] by blast
  then have "cold_migrate_server env i target revert s =
      seqp (external (migrate_server env i target))
      (seqp (external (wait_for_server_status env Primary i ''VERIFY_RESIZE''))
      (seqp (if revert then external (revert_resize_server env i) else external (confirm_resize_server env i))
      (seqp (external (wait_for_server_status env Primary i ''ACTIVE''))
      (bnd (external (get_host_for_server env i)) (\<lambda>dst_host.
         check (if revert then place (world s) = dst_host else place (world s) \<noteq> dst_host)))))) s1"
    unfolding cold_migrate_server_def by (rule run_bnd_Inr)
  moreover have "\<exists>s2. \<dots> = Some (?outcome s2, s2)"
    by (rule run_seqp_ex [OF goes_throughD [OF calls(1)]], rule run_seqp_ex [OF waited], rule run_seqp_ex [OF finish],
        rule run_seqp_ex [OF waited], rule last)
  ultimately show ?thesis by simp
qed

section \<open>Properties\<close>

text \<open>C23. The accounting of vGPUs is complete. The inventories collected from the deployment are exactly those
  of the providers that are in the tree of some compute host and offer vGPUs, each with the inventory
  Placement holds. The usage of a host is the sum over all providers in its tree; the root is one of
  them, because the comparison that should leave it out never holds.\<close>

theorem vgpu_accounting:
  assumes "placement_ok env p"
  shows "(\<exists>inventories s'. get_vgpu_inventories_for_deployment env s = Some (Inr inventories, s') \<and>
      (\<forall>u i. map_of inventories (JStr u) = Some i \<longleftrightarrow>
        i = p_inventory p u \<and> has_vgpu p u \<and> (\<exists>h \<in> set (p_hosts p). u \<in> set (p_tree p (p_root p h))))) \<and>
    (\<exists>s'. get_vgpu_util_for_host env h s = Some (Inr (\<Sum>u\<leftarrow>p_tree p (p_root p h). vgpu_usage p u), s')) \<and>
    (\<exists>s'. get_all_children_of_resource_provider env (JStr (p_root p h)) s =
      Some (Inr (map JStr (p_tree p (p_root p h))), s'))"
proof (intro conjI)
  show "\<exists>inventories s'. get_vgpu_inventories_for_deployment env s = Some (Inr inventories, s') \<and>
      (\<forall>u i. map_of inventories (JStr u) = Some i \<longleftrightarrow>
        i = p_inventory p u \<and> has_vgpu p u \<and> (\<exists>h \<in> set (p_hosts p). u \<in> set (p_tree p (p_root p h))))"
    using deployment_inventories_run [OF assms, of s] by (auto simp: collect_hosts_lookup)
qed (rule util_run [OF assms] tree_run [OF assms])+

text \<open>Two hosts with one card each, two vGPUs of the first one in use.\<close>

definition two_cards :: placement where
  "two_cards = \<lparr>p_hosts = [''a'', ''b''], p_root = (\<lambda>h. h), p_tree = (\<lambda>u. [u, u @ ''-card'']),
     p_inventory = (\<lambda>u. if length u = 1 then [(''VCPU'', JInt 8)] else [(''VGPU'', JInt 4)]),
     p_usage = (\<lambda>u. if u = ''a-card'' then [(''VGPU'', 2)] else [])\<rparr>"

definition cards_env :: "(string, unit, unit) vgpu_env" where
  "cards_env = api_env.extend (idle_api\<lparr>
       list_services := (\<lambda>h b w. (Inr [[(''host'', ''a'')], [(''host'', ''b'')]], w)),
       get_host_for_server := (\<lambda>i w. (Inr w, w))\<rparr>)
     \<lparr>vgpu_vendor_id = Some ''10de'', list_rps_by_name = (\<lambda>h w. (Inr (Some [provider h]), w)),
      list_rps_in_tree = (\<lambda>j w. (Inr (case j of JStr u \<Rightarrow> Some (map provider [u, u @ ''-card'']) | _ \<Rightarrow> None), w)),
      list_rp_inventories = (\<lambda>j w. (Inr (case j of JStr u \<Rightarrow> Some (p_inventory two_cards u) | _ \<Rightarrow> None), w)),
      list_rp_usages = (\<lambda>j w. (Inr (case j of JStr u \<Rightarrow> Some (p_usage two_cards u) | _ \<Rightarrow> None), w)),
      migrate_server = (\<lambda>i t w. (Inr (), t)), revert_resize_server = (\<lambda>i w. (Inr (), ''a'')),
      confirm_resize_server = (\<lambda>i w. (Inr (), w)), guest_exec = (\<lambda>g c w. (Inr (Some ''1''), w))\<rparr>"

definition on_host :: "string \<Rightarrow> (unit, string) proc" where
  "on_host h = \<lparr>nodes_cache = None, cleanups = [], world = h\<rparr>"

theorem vgpu_accounting_witness:
  "(\<exists>inventories s'. get_vgpu_inventories_for_deployment cards_env (on_host ''a'') = Some (Inr inventories, s') \<and>
     map_of inventories (JStr ''b-card'') = Some [(''VGPU'', JInt 4)] \<and> map_of inventories (JStr ''b'') = None) \<and>
   (\<exists>s'. get_vgpu_util_for_host cards_env ''a'' (on_host ''a'') = Some (Inr 2, s'))"
proof -
  have "placement_ok cards_env two_cards"
    by (simp add: placement_ok_def cards_env_def two_cards_def idle_api_def api_env.defs)
  note account = vgpu_accounting [OF this, of "on_host ''a''" "''a''"]
  have usage: "(\<Sum>u\<leftarrow>p_tree two_cards (p_root two_cards ''a''). vgpu_usage two_cards u) = 2"
    by (simp add: two_cards_def vgpu_usage_def)
  obtain inventories s' where run: "get_vgpu_inventories_for_deployment cards_env (on_host ''a'') = Some (Inr inventories, s')"
    and held: "\<And>u i. map_of inventories (JStr u) = Some i \<longleftrightarrow> i = p_inventory two_cards u \<and> has_vgpu two_cards u \<and>
      (\<exists>h \<in> set (p_hosts two_cards). u \<in> set (p_tree two_cards (p_root two_cards h)))"
    using account by blast
  have "map_of inventories (JStr ''b-card'') = Some [(''VGPU'', JInt 4)]"
    by (simp add: held has_vgpu_def two_cards_def)
  moreover have "map_of inventories (JStr ''b'') \<noteq> Some i" for i
    by (simp add: held has_vgpu_def two_cards_def)
  ultimately show ?thesis
    using run account usage by (metis not_Some_eq)
qed

text \<open>C24. A cold migration that is reported as done has happened: if the calls go through and Tempest reports
  the host truthfully, the operation returns normally exactly if a confirmed migration moved the server,
  or a reverted one left it where it was; otherwise it fails with an assertion error. Which host it
  moved to is not compared with the target.\<close>

theorem cold_migrate_outcome:
  assumes "resizing_ok env i target place"
  shows "\<exists>s'. cold_migrate_server env i target revert s =
    Some (if (place (world s) = place (world s')) = revert then Inr () else Inl AssertionError, s')"
  using assms by (rule cold_migrate_run)

theorem cold_migrate_outcome_witness:
  "\<exists>s'. cold_migrate_server cards_env ''vm'' ''b'' True (on_host ''a'') = Some (Inr (), s') \<and> world s' = ''a''"
proof -
  have "resizing_ok cards_env ''vm'' ''b'' id"
    by (simp add: resizing_ok_def goes_through_def host_reported_def cards_env_def idle_api_def api_env.defs)
  from cold_migrate_outcome [OF this, of True "on_host ''a''"] obtain s' where
    "cold_migrate_server cards_env ''vm'' ''b'' True (on_host ''a'') =
      Some (if (''a'' = world s') = True then Inr () else Inl AssertionError, s')"
    by (auto simp: on_host_def)
  moreover have "cold_migrate_server cards_env ''vm'' ''b'' True (on_host ''a'') = Some (Inr (), on_host ''a'')"
    by (simp add: cold_migrate_server_def cards_env_def idle_api_def api_env.defs on_host_def bnd_def seqp_def prog_simps)
  ultimately show ?thesis by (auto simp: on_host_def)
qed

end
