(* ===== verification/Live_Migration.thy ===== *)
theory Live_Migration
  imports Numa_Helper Server_Checks
begin

text \<open>
  The tests of \<^verbatim>\<open>whitebox_tempest_plugin/api/compute/test_live_migration.py\<close>: the cache mode of the root disk
  survives a live migration, and a pinned server gets other CPUs on its new host, which a reboot keeps.
\<close>

section \<open>Definitions\<close>

text \<open>\<^verbatim>\<open>devices/disk/target[@dev='vda']/../driver\<close>\<close>

definition root_driver_path :: "step list" where
  "root_driver_path = [Child ''devices'', Child ''disk'', Child ''target'', AttrIs ''dev'' ''vda'', Parent, Child ''driver'']"

definition root_disk_cache ::
  "('w, 'h, 'm) api_env_scheme \<Rightarrow> string \<Rightarrow> (('c, 'w) proc, string) prog" where
  "root_disk_cache env server_id =
     bnd (get_server_xml env server_id) (\<lambda>domain.
     of_result (case find domain root_driver_path of
         None \<Rightarrow> Inl AttributeError
       | Some driver \<Rightarrow> (case attr driver ''cache'' of
             None \<Rightarrow> Inl (KeyError ''cache'')
           | Some mode \<Rightarrow> Inr mode)))"

definition test_volume_backed_live_migration :: "('w, 'h, 'm) api_env_scheme \<Rightarrow> ('w test, unit) prog" where
  "test_volume_backed_live_migration env =
     bnd (create_test_server env [(''wait_until'', ''ACTIVE''), (''volume_backed'', ''True'')]) (\<lambda>server.
     bnd (key server ''id'') (\<lambda>server_id.
     bnd (root_disk_cache env server_id) (\<lambda>cache_type.
     seqp (live_migrate env Primary server_id ''ACTIVE'' None)
     (bnd (root_disk_cache env server_id) (\<lambda>cache.
     check (cache_type = cache))))))"

definition test_live_migrate_and_reboot :: "('w, 'h, 'm) api_env_scheme \<Rightarrow> ('w test, unit) prog" where
  "test_live_migrate_and_reboot env =
     bnd (create_flavor env None None None None None [(''hw:cpu_policy'', ''dedicated'')] []) (\<lambda>flavor.
     bnd (key flavor ''id'') (\<lambda>flavor_id.
     bnd (create_test_server env [(''flavor'', flavor_id), (''wait_until'', ''ACTIVE'')]) (\<lambda>server.
     bnd (key server ''id'') (\<lambda>server_id.
     bnd (get_pinning_as_set env server_id) (\<lambda>pinned_cpus_pre_migration.
     seqp (live_migrate env Primary server_id ''ACTIVE'' None)
     (bnd (get_pinning_as_set env server_id) (\<lambda>pinned_cpus_post_migration.
     seqp (check (pinned_cpus_post_migration \<inter> pinned_cpus_pre_migration = {}))
     (seqp (reboot_server env server_id ''SOFT'')
     (bnd (get_pinning_as_set env server_id) (\<lambda>pinned_cpus_post_reboot.
     check (pinned_cpus_post_migration = pinned_cpus_post_reboot)))))))))))"

section \<open>The driver of the root disk\<close>

definition disks :: "xml \<Rightarrow> xml list" where
  "disks root = walk (Child ''disk'') (walk (Child ''devices'') [root])"

definition is_vda :: "xml \<Rightarrow> bool" where
  "is_vda disk \<longleftrightarrow> (\<exists>c \<in> set (xml_children disk). xml_tag c = ''target'' \<and> attr c ''dev'' = Some ''vda'')"

definition drivers :: "xml \<Rightarrow> xml list" where
  "drivers disk = filter (\<lambda>c. xml_tag c = ''driver'') (xml_children disk)"

lemma findall_snoc_child:
  "findall root (steps @ [Child t]) = walk (Child t) (findall root steps)"
  using elements_select [of "select_path root steps" root "Child t"] select_path_valid [of _ root steps]
  by (simp add: findall_def select_path_snoc)

lemma findall_root_driver:
  "findall root root_driver_path = concat (map drivers (filter is_vda (disks root)))"
proof -
  have path: "root_driver_path = ([Child ''devices'', Child ''disk''] @ [Child ''target'', AttrIs ''dev'' ''vda'', Parent]) @
      [Child ''driver'']"
    by (simp add: root_driver_path_def)
  show ?thesis
    unfolding path findall_snoc_child
    using findall_with_child [of "[Child ''devices'', Child ''disk'']" root "''target''" "''dev''" "''vda''"]
    by (simp add: disks_def is_vda_def [abs_def] drivers_def [abs_def])
qed

text \<open>If Tempest reports a host for a server, it is the host the server is on, and asking does not move it.\<close>

definition truthful_hosts :: "('w, 'h, 'm) api_env_scheme \<Rightarrow> (string \<Rightarrow> 'w \<Rightarrow> string) \<Rightarrow> bool" where
  "truthful_hosts env place \<longleftrightarrow> (\<forall>i w h w'. get_host_for_server env i w = (Inr h, w') \<longrightarrow>
     h = place i w \<and> place i w' = place i w)"

lemma truthful_hostsD:
  assumes "truthful_hosts env place" and "external (get_host_for_server env i) s = Some (Inr h, s')"
  shows "h = place i (world s) \<and> place i (world s') = place i (world s)"
  using assms unfolding truthful_hosts_def by (auto simp: external_def split: prod.splits)

lemma live_migrate_moves:
  assumes report: "truthful_hosts env place"
    and run: "live_migrate env creds i state None s = Some (Inr (), s')"
  shows "place i (world s) \<noteq> place i (world s')"
proof -
  obtain s1 s3 h h' where "external (get_host_for_server env i) s = Some (Inr h, s1)"
    and "external (get_host_for_server env i) s3 = Some (Inr h', s')" and "h \<noteq> h'"
    using run by (auto simp: live_migrate_def truthy_def bnd_Inr_iff seqp_Inr_iff check_Inr_iff)
  with truthful_hostsD [OF report] show ?thesis by metis
qed

lemma root_disk_cache_Inr:
  assumes "root_disk_cache env i s = Some (Inr mode, s')"
  shows "\<exists>doc d ds. get_server_xml env i s = Some (Inr doc, s') \<and>
    concat (map drivers (filter is_vda (disks doc))) = d # ds \<and> attr d ''cache'' = Some mode"
proof -
  obtain doc d where doc: "get_server_xml env i s = Some (Inr doc, s')"
    and d: "find doc root_driver_path = Some d" and mode: "attr d ''cache'' = Some mode"
    using assms by (auto simp: root_disk_cache_def bnd_Inr_iff run_of_result split: option.splits)
  obtain ds where "findall doc root_driver_path = d # ds"
    using d by (auto simp: find_def split: list.splits)
  with doc mode show ?thesis by (auto simp: findall_root_driver)
qed

section \<open>Properties\<close>

text \<open>C10. \<^verbatim>\<open>test_live_migrate_and_reboot\<close> passes only if what it stands for has happened to the server that it
  created, from the flavor with dedicated CPUs that it created: the server moved to another host, the CPUs
  it is pinned to there have none in common with those before, and after the reboot it is pinned
  to the same CPUs as before the reboot. Tempest is taken to report the host of a server truthfully. The states are those of the run, one after the other.\<close>

theorem live_migrate_and_reboot_sound:
  fixes env :: "('w, 'h, 'm) api_env_scheme" and s s' :: "'w test"
  assumes report: "truthful_hosts env place"
    and pass: "test_live_migrate_and_reboot env s = Some (Inr (), s')"
  shows "\<exists>flavor flavor_id server i pre post (u :: 'w test) t0 t1 t2 t3 t4.
    create_flavor env None None None None None [(''hw:cpu_policy'', ''dedicated'')] [] s = Some (Inr flavor, u) \<and>
    map_of flavor ''id'' = Some flavor_id \<and>
    create_test_server env [(''flavor'', flavor_id), (''wait_until'', ''ACTIVE'')] u = Some (Inr server, t0) \<and>
    map_of server ''id'' = Some i \<and>
    get_pinning_as_set env i t0 = Some (Inr pre, t1) \<and>
    live_migrate env Primary i ''ACTIVE'' None t1 = Some (Inr (), t2) \<and> place i (world t1) \<noteq> place i (world t2) \<and>
    get_pinning_as_set env i t2 = Some (Inr post, t3) \<and> pre \<inter> post = {} \<and>
    reboot_server env i ''SOFT'' t3 = Some (Inr (), t4) \<and> get_pinning_as_set env i t4 = Some (Inr post, s')"
proof -
  obtain flavor flavor_id server i pre post and u t0 t1 t2 t3 t4 :: "'w test" where
    new: "create_flavor env None None None None None [(''hw:cpu_policy'', ''dedicated'')] [] s = Some (Inr flavor, u)"
      "map_of flavor ''id'' = Some flavor_id"
      "create_test_server env [(''flavor'', flavor_id), (''wait_until'', ''ACTIVE'')] u = Some (Inr server, t0)"
      "map_of server ''id'' = Some i"
    and run: "get_pinning_as_set env i t0 = Some (Inr pre, t1)"
      "live_migrate env Primary i ''ACTIVE'' None t1 = Some (Inr (), t2)"
      "get_pinning_as_set env i t2 = Some (Inr post, t3)"
      "reboot_server env i ''SOFT'' t3 = Some (Inr (), t4)" "get_pinning_as_set env i t4 = Some (Inr post, s')"
    and apart: "pre \<inter> post = {}"
    using pass unfolding test_live_migrate_and_reboot_def
    by (auto simp: bnd_Inr_iff seqp_Inr_iff check_Inr_iff run_key_Inr_iff Int_commute)
  show ?thesis
    by (rule exI conjI new run apart live_migrate_moves [OF report run(2)])+
qed

text \<open>Two hosts whose domains are pinned to different CPUs; the outside world is the server's host.\<close>

definition roaming_domain :: "string \<Rightarrow> xml" where
  "roaming_domain cpus = Elem ''domain'' [] None
     [Elem ''cputune'' [] None [Elem ''vcpupin'' [(''vcpu'', ''0''), (''cpuset'', cpus)] None []],
      Elem ''devices'' [] None
        [Elem ''disk'' [] None [Elem ''driver'' [(''cache'', ''writeback'')] None [], Elem ''target'' [(''dev'', ''vdb'')] None []],
         Elem ''disk'' [] None [Elem ''driver'' [(''cache'', ''none'')] None [], Elem ''target'' [(''dev'', ''vda'')] None []]]]"

definition roaming_env :: "(string, unit) api_env" where
  "roaming_env = idle_api\<lparr>
     tempest_create_flavor := (\<lambda>r v d n p kw w. (Inr [(''id'', ''f'')], w)),
     tempest_create_test_server := (\<lambda>kw w. (Inr [(''id'', ''vm'')], w)),
     get_host_for_server := (\<lambda>i w. (Inr w, w)),
     show_server := (\<lambda>i w. (Inr [(''OS-EXT-SRV-ATTR:host'', w), (''OS-EXT-SRV-ATTR:instance_name'', ''instance-1'')], w)),
     live_migrate_server := (\<lambda>i b t w. (Inr (), ''b'')),
     ssh_exec := (\<lambda>a u k c w. (Inr a, w)),
     et_fromstring := (\<lambda>t. Inr (roaming_domain (if t = ''a'' then ''2'' else ''4'')))\<rparr>"

definition roaming_state :: "cleanup list \<Rightarrow> string \<Rightarrow> string test" where
  "roaming_state cs h = \<lparr>nodes_cache = Some (map (\<lambda>n. (n, \<lparr>hd_services = Some [(''libvirt'', [])],
     hd_cpu_dedicated_set = None, hd_cpu_shared_set = None\<rparr>)) [''a'', ''b'']), cleanups = cs, world = h\<rparr>"

lemma roaming_xml:
  assumes "h \<in> {''a'', ''b''}"
  shows "get_server_xml roaming_env i (roaming_state cs h) =
    Some (Inr (roaming_domain (if h = ''a'' then ''2'' else ''4'')), roaming_state cs h)"
  using assms
  by (auto simp: get_server_xml_def roaming_env_def idle_api_def roaming_state_def bnd_def prog_simps py_key_def
      VirshXMLClient_def run_SSHClient get_host_details_def require_section_cases get_ctlplane_address_def
      default_conf_def dumpxml_def execute_def in_container_def ssh_client.defs)

lemma roaming_pins:
  "h \<in> {''a'', ''b''} \<Longrightarrow> get_pinning_as_set roaming_env i (roaming_state cs h) =
    Some (Inr (if h = ''a'' then {2} else {4}), roaming_state cs h)"
  by (auto simp: get_pinning_as_set_def bnd_def roaming_xml of_result_def findall_pins pins_def roaming_domain_def
      pin_cpus_def attr_def read_texts)

lemma roaming_cache:
  "h \<in> {''a'', ''b''} \<Longrightarrow> root_disk_cache roaming_env i (roaming_state cs h) = Some (Inr ''none'', roaming_state cs h)"
  by (auto simp: root_disk_cache_def bnd_def roaming_xml of_result_def find_def findall_root_driver disks_def
      is_vda_def drivers_def roaming_domain_def attr_def)

lemma roaming_steps:
  "create_flavor roaming_env None None None None None sp [] (roaming_state cs h) = Some (Inr [(''id'', ''f'')], roaming_state cs h)"
  "create_test_server roaming_env kw (roaming_state cs h) =
     Some (Inr [(''id'', ''vm'')], roaming_state (AdminDeleteServer ''vm'' # cs) h)"
  "live_migrate roaming_env Primary i ''ACTIVE'' None (roaming_state cs ''a'') = Some (Inr (), roaming_state cs ''b'')"
  "reboot_server roaming_env i ''SOFT'' (roaming_state cs h) = Some (Inr (), roaming_state cs h)"
  by (simp_all add: create_flavor_def create_test_server_def live_migrate_def reboot_server_def addCleanup_def truthy_def
      roaming_env_def idle_api_def roaming_state_def bnd_def seqp_def prog_simps py_key_def)

lemma roaming_reported: "truthful_hosts roaming_env (\<lambda>i w. w)"
  by (simp add: truthful_hosts_def roaming_env_def)

theorem live_migrate_and_reboot_sound_witness:
  "test_live_migrate_and_reboot roaming_env (roaming_state [] ''a'') =
     Some (Inr (), roaming_state [AdminDeleteServer ''vm''] ''b'') \<and>
   (\<exists>i pre post (t0 :: string test) t1 (t2 :: string test) t3. get_pinning_as_set roaming_env i t0 = Some (Inr pre, t1) \<and>
     world t1 \<noteq> world t2 \<and> get_pinning_as_set roaming_env i t2 = Some (Inr post, t3) \<and> pre \<inter> post = {})"
proof -
  have "test_live_migrate_and_reboot roaming_env (roaming_state [] ''a'') =
      Some (Inr (), roaming_state [AdminDeleteServer ''vm''] ''b'')"
    by (simp add: test_live_migrate_and_reboot_def bnd_def seqp_def roaming_steps roaming_pins py_key_def run_of_result run_check)
  moreover from live_migrate_and_reboot_sound [OF roaming_reported this]
  have "\<exists>i pre post (t0 :: string test) t1 (t2 :: string test) t3. get_pinning_as_set roaming_env i t0 = Some (Inr pre, t1) \<and>
     world t1 \<noteq> world t2 \<and> get_pinning_as_set roaming_env i t2 = Some (Inr post, t3) \<and> pre \<inter> post = {}"
    by blast
  ultimately show ?thesis ..
qed

text \<open>C36. \<^verbatim>\<open>test_volume_backed_live_migration\<close> passes only if the volume-backed server that it created moved and the
  cache mode of its root disk is the same in its domains on both hosts. The root disk is the disk with a
  target \<^verbatim>\<open>vda\<close>; of several such disks it is the first one with a driver. Tempest is taken to report the host
  of a server truthfully. The states are those of the run, one after the other.\<close>

theorem volume_backed_migration_sound:
  fixes env :: "('w, 'h, 'm) api_env_scheme" and s s' :: "'w test"
  assumes report: "truthful_hosts env place"
    and pass: "test_volume_backed_live_migration env s = Some (Inr (), s')"
  shows "\<exists>server i before after d d' ds ds' mode (t0 :: 'w test) t1 t2.
    create_test_server env [(''wait_until'', ''ACTIVE''), (''volume_backed'', ''True'')] s = Some (Inr server, t0) \<and>
    map_of server ''id'' = Some i \<and>
    get_server_xml env i t0 = Some (Inr before, t1) \<and>
    live_migrate env Primary i ''ACTIVE'' None t1 = Some (Inr (), t2) \<and>
    get_server_xml env i t2 = Some (Inr after, s') \<and> place i (world t1) \<noteq> place i (world t2) \<and>
    concat (map drivers (filter is_vda (disks before))) = d # ds \<and> attr d ''cache'' = Some mode \<and>
    concat (map drivers (filter is_vda (disks after))) = d' # ds' \<and> attr d' ''cache'' = Some mode"
proof -
  obtain server i mode and t0 t1 t2 :: "'w test" where
    new: "create_test_server env [(''wait_until'', ''ACTIVE''), (''volume_backed'', ''True'')] s = Some (Inr server, t0)"
      "map_of server ''id'' = Some i"
    and run: "root_disk_cache env i t0 = Some (Inr mode, t1)" "root_disk_cache env i t2 = Some (Inr mode, s')"
    and migrate: "live_migrate env Primary i ''ACTIVE'' None t1 = Some (Inr (), t2)"
    using pass unfolding test_volume_backed_live_migration_def
    by (auto simp: bnd_Inr_iff seqp_Inr_iff check_Inr_iff run_key_Inr_iff)
  from root_disk_cache_Inr [OF run(1)] root_disk_cache_Inr [OF run(2)] show ?thesis
    by (elim exE conjE) (rule exI conjI new migrate live_migrate_moves [OF report migrate] | assumption)+
qed

theorem volume_backed_migration_sound_witness:
  "test_volume_backed_live_migration roaming_env (roaming_state [] ''a'') =
     Some (Inr (), roaming_state [AdminDeleteServer ''vm''] ''b'') \<and>
   (\<exists>i before after mode d ds (t0 :: string test) t1 (t2 :: string test) t3. get_server_xml roaming_env i t0 = Some (Inr before, t1) \<and>
     get_server_xml roaming_env i t2 = Some (Inr after, t3) \<and> world t1 \<noteq> world t2 \<and>
     concat (map drivers (filter is_vda (disks after))) = d # ds \<and> attr d ''cache'' = Some mode)"
proof -
  have "test_volume_backed_live_migration roaming_env (roaming_state [] ''a'') =
      Some (Inr (), roaming_state [AdminDeleteServer ''vm''] ''b'')"
    by (simp add: test_volume_backed_live_migration_def bnd_def seqp_def roaming_steps roaming_cache py_key_def
        run_of_result run_check)
  moreover from volume_backed_migration_sound [OF roaming_reported this]
  have "\<exists>i before after mode d ds (t0 :: string test) t1 (t2 :: string test) t3. get_server_xml roaming_env i t0 = Some (Inr before, t1) \<and>
     get_server_xml roaming_env i t2 = Some (Inr after, t3) \<and> world t1 \<noteq> world t2 \<and>
     concat (map drivers (filter is_vda (disks after))) = d # ds \<and> attr d ''cache'' = Some mode"
    by fast
  ultimately show ?thesis ..
qed

text \<open>
  The check on the CPUs says nothing about a server that is not pinned at all: without pins both sets
  are empty, and the test passes.
\<close>

lemma unpinned_server_passes:
  "test_live_migrate_and_reboot (roaming_env\<lparr>et_fromstring := (\<lambda>t. Inr (Elem ''domain'' [] None []))\<rparr>) (roaming_state [] ''a'') =
     Some (Inr (), roaming_state [AdminDeleteServer ''vm''] ''b'')"
  by (simp add: test_live_migrate_and_reboot_def create_flavor_def create_test_server_def live_migrate_def reboot_server_def
      addCleanup_def truthy_def get_pinning_as_set_def findall_pins pins_def get_server_xml_def roaming_env_def idle_api_def
      roaming_state_def bnd_def seqp_def prog_simps py_key_def VirshXMLClient_def run_SSHClient get_host_details_def
      require_section_cases get_ctlplane_address_def default_conf_def dumpxml_def execute_def in_container_def ssh_client.defs)

end
