(* ===== verification/Cpu_State.thy ===== *)
theory Cpu_State
  imports Compute_Base Server_Checks
begin

text \<open>
  \<^verbatim>\<open>whitebox_tempest_plugin/api/compute/test_cpu_state_mgmt.py\<close>: Nova takes the dedicated CPUs of a host
  off-line while no server uses them. The test reads the CPU sets from the configuration of the host's
  compute service and the state of the CPUs from \<^verbatim>\<open>/sys\<close>, before, while and after a server runs.
\<close>

section \<open>Definitions\<close>

definition cpu_state_setUp :: "('w, 'h, 'm) api_env_scheme \<Rightarrow> ('w test, api_object) prog" where
  "cpu_state_setUp env = create_flavor env None (Some 1) None None None [(''hw:cpu_policy'', ''dedicated'')] []"

text \<open>\<^verbatim>\<open>hardware.parse_cpu_spec(sysfsclient.get_sysfs_value(path))\<close>\<close>

definition sysfs_cpus ::
  "('w, 'm) sys_env_scheme \<Rightarrow> (string set \<Rightarrow> string list) \<Rightarrow> ssh_client \<Rightarrow> string \<Rightarrow> (('c, 'w) proc, int set) prog" where
  "sysfs_cpus env order sysfsclient path =
     bnd (get_sysfs_value env order sysfsclient path) (\<lambda>v. of_result (parse_cpu_spec v))"

definition online_path :: string where "online_path = ''devices/system/cpu/online''"
definition offline_path :: string where "offline_path = ''devices/system/cpu/offline''"

text \<open>The test from the first look at the CPUs on, with the sets of the configuration.\<close>

definition check_cpu_state ::
  "('w, 'h, 'm) api_env_scheme \<Rightarrow> (string set \<Rightarrow> string list) \<Rightarrow> api_object \<Rightarrow> ssh_client \<Rightarrow> string \<Rightarrow> int set \<Rightarrow>
   int set \<Rightarrow> ('w test, unit) prog" where
  "check_cpu_state env order flavor sysfsclient host dedicated_cpus shared_cpus =
     bnd (sysfs_cpus env order sysfsclient online_path) (\<lambda>online.
     seqp (check (shared_cpus \<subseteq> online))
     (bnd (sysfs_cpus env order sysfsclient offline_path) (\<lambda>offline_before.
     seqp (check (dedicated_cpus = offline_before))
     (bnd (key flavor ''id'') (\<lambda>flavor_id.
     bnd (create_test_server env [(''clients'', ''os_admin''), (''flavor'', flavor_id), (''host'', host),
            (''wait_until'', ''ACTIVE'')]) (\<lambda>server.
     bnd (sysfs_cpus env order sysfsclient offline_path) (\<lambda>offline_after.
     seqp (check (offline_after \<subset> offline_before))
     (bnd (key server ''id'') (\<lambda>server_id.
     seqp (external (delete_server env server_id))
     (seqp (external (wait_for_server_termination env server_id))
     (bnd (sysfs_cpus env order sysfsclient offline_path) (\<lambda>offline_final.
     check (offline_before = offline_final)))))))))))))"

definition test_cpu_state ::
  "('w, 'h, 'm) api_env_scheme \<Rightarrow> (string set \<Rightarrow> string list) \<Rightarrow> api_object \<Rightarrow> ('w test, unit) prog" where
  "test_cpu_state env order flavor =
     bnd (list_compute_hosts env) (\<lambda>hosts.
     bnd (of_result (py_nth hosts 0)) (\<lambda>host.
     bnd (SSHClient env host) (\<lambda>sysfsclient.
     bnd (NovaServiceManager env host ''nova-compute'') (\<lambda>sm.
     bnd (get_cpu_dedicated_set env sm) (\<lambda>dedicated_cpus.
     bnd (get_cpu_shared_set env sm) (\<lambda>shared_cpus.
     (let dedicated_cpus = dedicated_cpus - {0}
      in if card dedicated_cpus < 2 then raise (OtherError ''Multiple dedicated CPUs required'')
         else check_cpu_state env order flavor sysfsclient host dedicated_cpus shared_cpus)))))))"

section \<open>What the kernel reports\<close>

text \<open>
  \<open>online a w\<close> and \<open>offline a w\<close> are the CPUs of the host with address \<open>a\<close> in these states. Reading
  the two files with \<^verbatim>\<open>grep\<close>, if it does not fail, prints them as CPU specifications on one line, and
  changes nothing.
\<close>

definition prints_cpus ::
  "('w, 'm) sys_env_scheme \<Rightarrow> ssh_client \<Rightarrow> string \<Rightarrow> ('w \<Rightarrow> int set) \<Rightarrow> ('w \<Rightarrow> 'v) \<Rightarrow> bool" where
  "prints_cpus env c path cpus seen \<longleftrightarrow> (\<forall>w out w'.
     ssh_exec env (ctlplane_address c) (ssh_user c) (ssh_key c) (''grep -H \"\" '' @ sys_path path) w = (Inr out, w') \<longrightarrow>
     (\<exists>printed. out = grep_output (\<lambda>p. printed) [sys_path path] \<and> seen w' = seen w \<and>
     newline \<notin> set printed \<and> py_strip printed = printed \<and> parse_cpu_spec printed = Inr (cpus w)))"

definition kernel_ok ::
  "('w, 'm) sys_env_scheme \<Rightarrow> (string \<Rightarrow> 'w \<Rightarrow> int set) \<Rightarrow> (string \<Rightarrow> 'w \<Rightarrow> int set) \<Rightarrow> bool" where
  "kernel_ok env online offline \<longleftrightarrow> (\<forall>c a. ctlplane_address c = a \<longrightarrow>
     prints_cpus env c online_path (online a) (\<lambda>w. (online a w, offline a w)) \<and>
     prints_cpus env c offline_path (offline a) (\<lambda>w. (online a w, offline a w)))"

lemma cpu_paths_ok: "sysfs_path_ok online_path" "sysfs_path_ok offline_path"
  by (simp_all add: sysfs_path_ok_def online_path_def offline_path_def)

lemma sysfs_cpus_read:
  assumes order: "order {sys_path path} = [sys_path path]" and path: "sysfs_path_ok path"
    and prints: "prints_cpus env c path cpus seen"
    and works: "ssh_exec env (ctlplane_address c) (ssh_user c) (ssh_key c) (''grep -H \"\" '' @ sys_path path) (world s) = (Inr out, w)"
  shows "sysfs_cpus env order c path s = Some (Inr (cpus (world s)), s\<lparr>world := w\<rparr>) \<and> seen w = seen (world s)"
proof -
  obtain printed where grep: "ssh_exec env (ctlplane_address c) (ssh_user c) (ssh_key c)
      (''grep -H \"\" '' @ sys_path path) (world s) = (Inr (grep_output (\<lambda>p. printed) [sys_path path]), w)"
    and seen: "seen w = seen (world s)" and line: "newline \<notin> set printed"
    and printed: "py_strip printed = printed" "parse_cpu_spec printed = Inr (cpus (world s))"
    using prints works unfolding prints_cpus_def by blast
  obtain d where "get_sysfs_values env order c [path] s = Some (Inr d, s\<lparr>world := w\<rparr>)"
    and "map_of d = (\<lambda>p. if p \<in> set [path] then Some (py_strip printed) else None)"
    using sysfs_values_read [of order "[path]" "\<lambda>p. printed" env c s w] order path grep line by auto
  then have "sysfs_cpus env order c path s = Some (Inr (cpus (world s)), s\<lparr>world := w\<rparr>)"
    using printed by (simp add: sysfs_cpus_def get_sysfs_value_def bnd_def of_result_def)
  with seen show ?thesis by simp
qed

lemma sysfs_cpus_grep:
  assumes order: "\<And>x. order {x} = [x]" and run: "sysfs_cpus env order c path s = Some (Inr S, s')"
  shows "\<exists>out w. ssh_exec env (ctlplane_address c) (ssh_user c) (ssh_key c)
    (''grep -H \"\" '' @ sys_path path) (world s) = (Inr out, w)"
  using run order
  by (cases "ssh_exec env (ctlplane_address c) (ssh_user c) (ssh_key c) (''grep -H \"\" '' @ sys_path path) (world s)",
      cases "fst (ssh_exec env (ctlplane_address c) (ssh_user c) (ssh_key c) (''grep -H \"\" '' @ sys_path path) (world s))")
    (auto simp: sysfs_cpus_def get_sysfs_value_def get_sysfs_values_def execute_def Let_def bnd_Inr_iff run_of_result run_external
      full_command_def truthy_def)

lemma sysfs_cpus_view:
  assumes order: "\<And>x. order {x} = [x]" and ok: "kernel_ok env online offline"
    and run: "sysfs_cpus env order c path s = Some (Inr S, s')" and path: "path \<in> {online_path, offline_path}"
  shows "S = (if path = online_path then online else offline) (ctlplane_address c) (world s) \<and>
    offline (ctlplane_address c) (world s') = offline (ctlplane_address c) (world s)"
proof -
  let ?cpus = "(if path = online_path then online else offline) (ctlplane_address c)"
  let ?seen = "\<lambda>w. (online (ctlplane_address c) w, offline (ctlplane_address c) w)"
  have "prints_cpus env c path ?cpus ?seen" and "sysfs_path_ok path"
    using ok path cpu_paths_ok unfolding kernel_ok_def by auto
  moreover obtain out w where "ssh_exec env (ctlplane_address c) (ssh_user c) (ssh_key c)
      (''grep -H \"\" '' @ sys_path path) (world s) = (Inr out, w)"
    using sysfs_cpus_grep [OF order run] by blast
  ultimately have "sysfs_cpus env order c path s = Some (Inr (?cpus (world s)), s\<lparr>world := w\<rparr>) \<and> ?seen w = ?seen (world s)"
    using order by (intro sysfs_cpus_read)
  with run show ?thesis by auto
qed

lemma different_paths: "offline_path \<noteq> online_path"
  by (simp add: online_path_def offline_path_def)

text \<open>What the readings of a passing test were, by the kernel's account.\<close>

lemma check_cpu_state_views:
  fixes env :: "('w, 'h, 'm) api_env_scheme" and s s' :: "'w test"
  assumes order: "\<And>x. order {x} = [x]" and ok: "kernel_ok env online offline"
    and pass: "check_cpu_state env order flavor c host dedicated shared s = Some (Inr (), s')"
  shows "\<exists>flavor_id server server_id (t0 :: 'w test) t1 t2 t3 t4 t5.
    shared \<subseteq> online (ctlplane_address c) (world s) \<and>
    sysfs_cpus env order c online_path s = Some (Inr (online (ctlplane_address c) (world s)), t0) \<and>
    sysfs_cpus env order c offline_path t0 = Some (Inr (offline (ctlplane_address c) (world t0)), t1) \<and>
    offline (ctlplane_address c) (world t1) = dedicated \<and>
    map_of flavor ''id'' = Some flavor_id \<and>
    create_test_server env [(''clients'', ''os_admin''), (''flavor'', flavor_id), (''host'', host),
      (''wait_until'', ''ACTIVE'')] t1 = Some (Inr server, t2) \<and>
    offline (ctlplane_address c) (world t2) \<subset> dedicated \<and>
    sysfs_cpus env order c offline_path t2 = Some (Inr (offline (ctlplane_address c) (world t2)), t3) \<and>
    map_of server ''id'' = Some server_id \<and>
    external (delete_server env server_id) t3 = Some (Inr (), t4) \<and>
    external (wait_for_server_termination env server_id) t4 = Some (Inr (), t5) \<and>
    sysfs_cpus env order c offline_path t5 = Some (Inr (offline (ctlplane_address c) (world t5)), s') \<and>
    offline (ctlplane_address c) (world s') = dedicated"
proof -
  obtain flavor_id server server_id S1 S3 u v and t0 t1 t2 t3 t4 t5 :: "'w test" where
    before: "sysfs_cpus env order c online_path s = Some (Inr S1, t0)" "shared \<subseteq> S1"
      "sysfs_cpus env order c offline_path t0 = Some (Inr dedicated, t1)"
    and steps: "map_of flavor ''id'' = Some flavor_id"
      "create_test_server env [(''clients'', ''os_admin''), (''flavor'', flavor_id), (''host'', host),
        (''wait_until'', ''ACTIVE'')] t1 = Some (Inr server, t2)" "map_of server ''id'' = Some server_id"
    and during: "sysfs_cpus env order c offline_path t2 = Some (Inr S3, t3)" "S3 \<subset> dedicated"
    and delete: "external (delete_server env server_id) t3 = Some (Inr u, t4)"
      "external (wait_for_server_termination env server_id) t4 = Some (Inr v, t5)"
    and final: "sysfs_cpus env order c offline_path t5 = Some (Inr dedicated, s')"
    using pass unfolding check_cpu_state_def
    by (elim bnd_InrE seqp_InrE) (insert that, unfold check_Inr_iff run_key_Inr_iff, elim conjE, hypsubst, blast)
  note view = sysfs_cpus_view [OF order ok]
  have on: "S1 = online (ctlplane_address c) (world s)"
    using view [OF before(1)] by simp
  have off: "dedicated = offline (ctlplane_address c) (world t0)" "offline (ctlplane_address c) (world t1) = dedicated"
    "S3 = offline (ctlplane_address c) (world t2)" "dedicated = offline (ctlplane_address c) (world t5)"
    "offline (ctlplane_address c) (world s') = dedicated"
    using view [OF before(3)] view [OF during(1)] view [OF final] different_paths by simp_all
  have calls: "external (delete_server env server_id) t3 = Some (Inr (), t4)"
    "external (wait_for_server_termination env server_id) t4 = Some (Inr (), t5)"
    using delete by simp_all
  show ?thesis
    by (rule exI conjI before(2) [unfolded on] before(1) [unfolded on] before(3) [unfolded off(1)] off(2) steps
        during(2) [unfolded off(3)] during(1) [unfolded off(3)] calls final [unfolded off(4)] off(5))+
qed

section \<open>Properties\<close>

text \<open>C11. \<^verbatim>\<open>test_cpu_state\<close> passes only if Nova managed the CPUs of the first compute host as documented. The
  configuration of its compute service names at least two dedicated CPUs other than CPU 0, which the test
  leaves out. Before the server is created exactly these are off-line and no shared CPU is missing
  from the on-line ones; when the server runs, created on this host with the given flavor, some of them are
  on-line and nothing else has gone off-line; and at the end, after this server was deleted and gone, exactly these
  are off-line again. Reading the files in \<^verbatim>\<open>/sys\<close> is taken to print the CPUs in the respective
  state. The states are those of the run, one after the other.\<close>

theorem cpu_state_sound:
  fixes env :: "('w, 'h, 'm) api_env_scheme" and s s' :: "'w test"
  assumes order: "\<And>x. order {x} = [x]" and ok: "kernel_ok env online offline"
    and pass: "test_cpu_state env order flavor s = Some (Inr (), s')"
  shows "\<exists>host hosts c a sm dedicated shared flavor_id server server_id
      (u0 :: 'w test) u1 t0 t1 t2 t3 t4 t5 t6 t7 t8.
    list_compute_hosts env s = Some (Inr (host # hosts), u0) \<and>
    SSHClient env host u0 = Some (Inr c, u1) \<and> get_ctlplane_address (cfg env) host = Inr a \<and> ctlplane_address c = a \<and>
    NovaServiceManager env host ''nova-compute'' u1 = Some (Inr sm, t0) \<and>
    get_cpu_dedicated_set env sm t0 = Some (Inr dedicated, t1) \<and>
    get_cpu_shared_set env sm t1 = Some (Inr shared, t2) \<and> 2 \<le> card (dedicated - {0}) \<and>
    shared \<subseteq> online a (world t2) \<and>
    sysfs_cpus env order c online_path t2 = Some (Inr (online a (world t2)), t3) \<and>
    sysfs_cpus env order c offline_path t3 = Some (Inr (offline a (world t3)), t4) \<and>
    offline a (world t4) = dedicated - {0} \<and>
    map_of flavor ''id'' = Some flavor_id \<and>
    create_test_server env [(''clients'', ''os_admin''), (''flavor'', flavor_id), (''host'', host),
      (''wait_until'', ''ACTIVE'')] t4 = Some (Inr server, t5) \<and>
    offline a (world t5) \<subset> dedicated - {0} \<and>
    sysfs_cpus env order c offline_path t5 = Some (Inr (offline a (world t5)), t6) \<and>
    map_of server ''id'' = Some server_id \<and>
    external (delete_server env server_id) t6 = Some (Inr (), t7) \<and>
    external (wait_for_server_termination env server_id) t7 = Some (Inr (), t8) \<and>
    sysfs_cpus env order c offline_path t8 = Some (Inr (offline a (world t8)), s') \<and>
    offline a (world s') = dedicated - {0}"
proof -
  obtain host hosts c sm dedicated shared and u0 u1 t0 t1 t2 :: "'w test" where
    run: "list_compute_hosts env s = Some (Inr (host # hosts), u0)" "SSHClient env host u0 = Some (Inr c, u1)"
      "NovaServiceManager env host ''nova-compute'' u1 = Some (Inr sm, t0)"
      "get_cpu_dedicated_set env sm t0 = Some (Inr dedicated, t1)" "get_cpu_shared_set env sm t1 = Some (Inr shared, t2)"
    and enough: "2 \<le> card (dedicated - {0})"
    and rest: "check_cpu_state env order flavor c host (dedicated - {0}) shared t2 = Some (Inr (), s')"
    using pass unfolding test_cpu_state_def Let_def
    by (auto simp: bnd_Inr_iff run_of_result run_raise py_nth_Inr_0 split: if_splits)
  have address: "get_ctlplane_address (cfg env) host = Inr (ctlplane_address c)"
    using run(2) by (auto simp: SSHClient_def bnd_Inr_iff run_of_result run_ret)
  show ?thesis
    using check_cpu_state_views [OF order ok rest]
    by (elim exE conjE) (rule exI conjI run enough address refl | assumption)+
qed

text \<open>A host with four CPUs; the outside world is whether the server runs, which uses CPU 2.\<close>

definition cpu_texts :: "bool \<Rightarrow> string \<Rightarrow> string" where
  "cpu_texts runs path = (if path = online_path then (if runs then ''0-2'' else ''0-1'') else if runs then ''3'' else ''2-3'')"

definition power_exec :: "string \<Rightarrow> bool \<Rightarrow> string" where
  "power_exec c w =
     (if c = ''sudo crudini --get nova.conf compute cpu_dedicated_set'' then ''0,2-3''
      else if c = ''sudo crudini --get nova.conf compute cpu_shared_set'' then ''1''
      else if c = ''grep -H \"\" '' @ sys_path online_path
        then grep_output (\<lambda>p. cpu_texts w online_path) [sys_path online_path]
      else grep_output (\<lambda>p. cpu_texts w offline_path) [sys_path offline_path])"

definition power_env :: "(bool, unit) api_env" where
  "power_env = idle_api\<lparr>list_services := (\<lambda>h b w. (Inr [[(''host'', ''c1'')]], w)),
     ssh_exec := (\<lambda>a u k c w. (Inr (power_exec c w), w)),
     tempest_create_test_server := (\<lambda>kw w. (Inr [(''id'', ''vm'')], True)),
     delete_server := (\<lambda>i w. (Inr (), False))\<rparr>"

definition power_state :: "cleanup list \<Rightarrow> bool \<Rightarrow> bool test" where
  "power_state cs w = \<lparr>nodes_cache = Some [(''c1'', \<lparr>hd_services = Some [(''nova-compute'', [(''config_path'', ''nova.conf'')])],
     hd_cpu_dedicated_set = None, hd_cpu_shared_set = None\<rparr>)], cleanups = cs, world = w\<rparr>"

definition power_cpus :: "string \<Rightarrow> bool \<Rightarrow> int set" where
  "power_cpus path w = (if path = online_path then (if w then {0, 1, 2} else {0, 1}) else if w then {3} else {2, 3})"

definition first_of :: "string set \<Rightarrow> string list" where
  "first_of S = [the_elem S]"

lemma cpu_texts_read:
  "path \<in> {online_path, offline_path} \<Longrightarrow> newline \<notin> set (cpu_texts w path) \<and> py_strip (cpu_texts w path) = cpu_texts w path \<and>
   parse_cpu_spec (cpu_texts w path) = Inr (power_cpus path w)"
proof -
  have "parse_cpu_spec ''0-2'' = Inr {0, 1, 2}" "parse_cpu_spec ''0-1'' = Inr {0, 1}" "parse_cpu_spec ''3'' = Inr {3}"
    "parse_cpu_spec ''2-3'' = Inr {2, 3}" "py_strip ''0-2'' = ''0-2''" "py_strip ''0-1'' = ''0-1''"
    "py_strip ''3'' = ''3''" "py_strip ''2-3'' = ''2-3''"
    by code_simp+
  then show "path \<in> {online_path, offline_path} \<Longrightarrow> newline \<notin> set (cpu_texts w path) \<and>
      py_strip (cpu_texts w path) = cpu_texts w path \<and> parse_cpu_spec (cpu_texts w path) = Inr (power_cpus path w)"
    using different_paths by (auto simp: cpu_texts_def power_cpus_def)
qed

lemma power_exec_grep:
  "path \<in> {online_path, offline_path} \<Longrightarrow>
   power_exec (''grep -H \"\" '' @ sys_path path) w = grep_output (\<lambda>p. cpu_texts w path) [sys_path path]"
  using different_paths by (auto simp: power_exec_def sys_path_def)

lemma power_prints:
  assumes "path \<in> {online_path, offline_path}"
  shows "prints_cpus power_env c path (power_cpus path) seen"
  unfolding prints_cpus_def
  using cpu_texts_read [OF assms] power_exec_grep [OF assms] by (auto simp: power_env_def)

lemma power_kernel_ok: "kernel_ok power_env (\<lambda>a. power_cpus online_path) (\<lambda>a. power_cpus offline_path)"
  unfolding kernel_ok_def using power_prints by blast

lemma power_sysfs:
  assumes "path \<in> {online_path, offline_path}"
  shows "sysfs_cpus power_env first_of c path (power_state cs w) = Some (Inr (power_cpus path w), power_state cs w)"
proof -
  have "ssh_exec power_env (ctlplane_address c) (ssh_user c) (ssh_key c) (''grep -H \"\" '' @ sys_path path)
      (world (power_state cs w)) = (Inr (power_exec (''grep -H \"\" '' @ sys_path path) w), w)"
    by (simp add: power_env_def power_state_def)
  moreover have "first_of {sys_path path} = [sys_path path]" "sysfs_path_ok path"
    using assms cpu_paths_ok by (auto simp: first_of_def)
  ultimately have "sysfs_cpus power_env first_of c path (power_state cs w) =
      Some (Inr (power_cpus path (world (power_state cs w))), (power_state cs w)\<lparr>world := w\<rparr>)"
    using sysfs_cpus_read [OF _ _ power_prints [OF assms, where seen = id]] by blast
  then show ?thesis by (simp add: power_state_def)
qed

lemma power_manager:
  "\<exists>sm. NovaServiceManager power_env ''c1'' ''nova-compute'' (power_state cs w) = Some (Inr sm, power_state cs w) \<and>
    get_cpu_dedicated_set power_env sm (power_state cs w) = Some (Inr {0, 2, 3}, power_state cs w) \<and>
    get_cpu_shared_set power_env sm (power_state cs w) = Some (Inr {1}, power_state cs w)"
proof -
  have read: "parse_cpu_spec ''0,2-3'' = Inr {0, 2, 3}" "parse_cpu_spec ''1'' = Inr {1}" "py_strip ''0,2-3'' = ''0,2-3''"
    "py_strip ''1'' = ''1''"
    by code_simp+
  have dedicated: "power_exec ''sudo crudini --get nova.conf compute cpu_dedicated_set'' w = ''0,2-3''"
    and shared: "power_exec ''sudo crudini --get nova.conf compute cpu_shared_set'' w = ''1''" for w
    by (simp_all add: power_exec_def)
  show ?thesis
    by (simp add: NovaServiceManager_def new_manager_def bnd_def run_SSHClient get_host_details_def prog_simps
        power_env_def idle_api_def power_state_def default_conf_def get_ctlplane_address_def require_section_cases
        ssh_client.defs get_cpu_dedicated_set_def get_cpu_shared_set_def get_conf_opt_def try_except_def execute_def
        full_command_def fmt_def truthy_def dedicated shared read)
qed

theorem cpu_state_sound_witness:
  "test_cpu_state power_env first_of [(''id'', ''f'')] (power_state [] False) =
     Some (Inr (), power_state [AdminDeleteServer ''vm''] False) \<and>
   (\<exists>dedicated server kw (t4 :: bool test) (t5 :: bool test). 2 \<le> card (dedicated - {0}) \<and>
     power_cpus offline_path (world t4) = dedicated - {0} \<and>
     create_test_server power_env kw t4 = Some (Inr server, t5) \<and> power_cpus offline_path (world t5) \<subset> dedicated - {0})"
proof -
  obtain sm where sm: "NovaServiceManager power_env ''c1'' ''nova-compute'' (power_state [] False) = Some (Inr sm, power_state [] False)"
    "get_cpu_dedicated_set power_env sm (power_state [] False) = Some (Inr {0, 2, 3}, power_state [] False)"
    "get_cpu_shared_set power_env sm (power_state [] False) = Some (Inr {1}, power_state [] False)"
    using power_manager [of "[]" False] by blast
  have client: "\<exists>c. SSHClient power_env ''c1'' (power_state [] False) = Some (Inr c, power_state [] False)"
    by (simp add: run_SSHClient get_host_details_def get_ctlplane_address_def power_env_def idle_api_def default_conf_def
        power_state_def prog_simps)
  have hosts: "list_compute_hosts power_env (power_state [] False) = Some (Inr [''c1''], power_state [] False)"
    by (simp add: list_compute_hosts_def bnd_def prog_simps power_env_def power_state_def py_key_def)
  have create: "create_test_server power_env kw (power_state [] False) =
      Some (Inr [(''id'', ''vm'')], power_state [AdminDeleteServer ''vm''] True)" for kw
    by (simp add: create_test_server_def addCleanup_def bnd_def seqp_def prog_simps py_key_def power_env_def power_state_def)
  have delete: "external (delete_server power_env ''vm'') (power_state cs w) = Some (Inr (), power_state cs False)"
    "external (wait_for_server_termination power_env ''vm'') (power_state cs w) = Some (Inr (), power_state cs w)" for cs w
    by (simp_all add: prog_simps power_env_def idle_api_def power_state_def)
  have sets: "{0, 2, 3} - {0} = {2, 3 :: int}" by auto
  have "test_cpu_state power_env first_of [(''id'', ''f'')] (power_state [] False) =
      Some (Inr (), power_state [AdminDeleteServer ''vm''] False)"
    using client different_paths
    by (auto simp: test_cpu_state_def check_cpu_state_def Let_def bnd_def seqp_def hosts py_nth_def run_of_result sm sets
        power_sysfs power_cpus_def create delete run_check py_key_def)
  moreover have "first_of {x} = [x]" for x
    by (simp add: first_of_def)
  from cpu_state_sound [OF this power_kernel_ok calculation]
  have "\<exists>dedicated server kw (t4 :: bool test) (t5 :: bool test). 2 \<le> card (dedicated - {0}) \<and>
     power_cpus offline_path (world t4) = dedicated - {0} \<and>
     create_test_server power_env kw t4 = Some (Inr server, t5) \<and> power_cpus offline_path (world t5) \<subset> dedicated - {0}"
    by (elim exE conjE) (rule exI conjI | assumption)+
  ultimately show ?thesis ..
qed

end
