(* ===== verification/Pci_Passthrough.thy ===== *)
theory Pci_Passthrough
  imports Server_Checks
begin

text \<open>
  The tests of \<^verbatim>\<open>whitebox_tempest_plugin/api/compute/test_pci_passthrough.py\<close>: a server whose flavor asks for a
  PCI device gets exactly one of the configured devices, Nova's database has it as allocated, and
  Placement counts it as used as long as the server exists.
\<close>

section \<open>Definitions\<close>

text \<open>
  The options that \<^verbatim>\<open>setUp\<close> copies, and the calls of Placement's client. Of an answer the part under the
  key that the code reads is given, \<open>None\<close> if the answer does not have it.
\<close>

record ('w, 'h) passthrough_env = "('w, 'h) api_env" +
  pci_alias :: "string option"
  pci_addresses :: "string list option"
  pci_resource_class :: "string option"
  list_rps_with_resources :: "string \<Rightarrow> ('w, json_object list option) ext"
  list_rp_usages_of :: "json \<Rightarrow> ('w, (string \<times> int) list option) ext"

text \<open>\<^verbatim>\<open>x + y\<close> where \<open>x\<close> may be \<^verbatim>\<open>None\<close>\<close>

definition py_concat :: "string option \<Rightarrow> string \<Rightarrow> string result" where
  "py_concat x y = (case x of None \<Rightarrow> Inl TypeError | Some a \<Rightarrow> Inr (a @ y))"

definition boot_with_device :: "('w, 'h, 'm) passthrough_env_scheme \<Rightarrow> ('w test, api_object) prog" where
  "boot_with_device env =
     bnd (of_result (py_concat (pci_alias env) '':1'')) (\<lambda>alias.
     bnd (create_flavor env None None None None None [(''pci_passthrough:alias'', alias)] []) (\<lambda>flavor.
     bnd (key flavor ''id'') (\<lambda>flavor_id.
     create_test_server env [(''flavor'', flavor_id), (''wait_until'', ''ACTIVE'')])))"

text \<open>The part of both tests that looks at the domain; it gives the address of the device.\<close>

definition hostdev_path :: "step list" where
  "hostdev_path = [Child ''devices'', Child ''hostdev'', AttrIs ''type'' ''pci'']"

definition hostdev_address :: "xml \<Rightarrow> string result" where
  "hostdev_address host_dev_xml = (case find host_dev_xml [Child ''source'', Child ''address''] of
       None \<Rightarrow> Inl AttributeError
     | Some pci_addr_element \<Rightarrow> get_pci_address_from_xml_device (xml_attrib pci_addr_element))"

definition is_candidate :: "string list option \<Rightarrow> string \<Rightarrow> bool result" where
  "is_candidate addresses pci_address = (case addresses of
       None \<Rightarrow> Inl TypeError
     | Some addrs \<Rightarrow> Inr (list_ex (\<lambda>addr. py_lower pci_address = py_lower addr) addrs))"

definition check_passthrough ::
  "('w, 'h, 'm) passthrough_env_scheme \<Rightarrow> string \<Rightarrow> (('c, 'w) proc, string) prog" where
  "check_passthrough env server_id =
     bnd (get_server_xml env server_id) (\<lambda>root.
     (let hostdev_list = findall root hostdev_path
      in seqp (check (1 = length hostdev_list))
         (bnd (of_result (py_nth hostdev_list 0)) (\<lambda>host_dev_xml.
         bnd (of_result (hostdev_address host_dev_xml)) (\<lambda>pci_address.
         bnd (of_result (is_candidate (pci_addresses env) pci_address)) (\<lambda>found.
         seqp (check found) (ret pci_address)))))))"

definition test_pci_passthrough_boot :: "('w, 'h, 'm) passthrough_env_scheme \<Rightarrow> ('w test, unit) prog" where
  "test_pci_passthrough_boot env =
     bnd (boot_with_device env) (\<lambda>server.
     bnd (key server ''id'') (\<lambda>server_id.
     bnd (check_passthrough env server_id) (\<lambda>pci_address.
     bnd (get_pci_status_count env ''allocated'' (Some pci_address)) (\<lambda>pci_allocated_count.
     check (JInt 1 = pci_allocated_count)))))"

definition get_pci_resource_providers ::
  "('w, 'h, 'm) passthrough_env_scheme \<Rightarrow> (('c, 'w) proc, json_object list) prog" where
  "get_pci_resource_providers env =
     bnd (of_result (py_concat (pci_resource_class env) '':1'')) (\<lambda>resources.
     bnd (external (list_rps_with_resources env resources)) (\<lambda>resp. case resp of
         None \<Rightarrow> raise (KeyError ''resource_providers'')
       | Some rps \<Rightarrow> seqp (check (length rps > 0)) (ret rps)))"

text \<open>\<^verbatim>\<open>list_resource_provider_usages(rp_uuid)['usages'].get(self.pci_resource_class, 0)\<close>\<close>

definition pci_usage ::
  "('w, 'h, 'm) passthrough_env_scheme \<Rightarrow> json \<Rightarrow> (('c, 'w) proc, int) prog" where
  "pci_usage env rp_uuid =
     bnd (external (list_rp_usages_of env rp_uuid)) (\<lambda>usages.
     of_result (case usages of
         None \<Rightarrow> Inl (KeyError ''usages'')
       | Some us \<Rightarrow> (case Option.bind (pci_resource_class env) (map_of us) of None \<Rightarrow> Inr 0 | Some n \<Rightarrow> Inr n)))"

definition assert_not_in_use ::
  "('w, 'h, 'm) passthrough_env_scheme \<Rightarrow> json list \<Rightarrow> (('c, 'w) proc, unit) prog" where
  "assert_not_in_use env rp_uuids = forM (\<lambda>rp_uuid. bnd (pci_usage env rp_uuid) (\<lambda>n. check (0 = n))) rp_uuids"

definition test_pci_passthrough_placement :: "('w, 'h, 'm) passthrough_env_scheme \<Rightarrow> ('w test, unit) prog" where
  "test_pci_passthrough_placement env =
     bnd (get_pci_resource_providers env) (\<lambda>rps.
     bnd (of_result (map_res (\<lambda>rp. json_key rp ''uuid'') rps)) (\<lambda>rp_uuids.
     seqp (assert_not_in_use env rp_uuids)
     (bnd (boot_with_device env) (\<lambda>server.
     bnd (mapM (pci_usage env) rp_uuids) (\<lambda>usages.
     seqp (check (1 = sum_list usages))
     (bnd (key server ''id'') (\<lambda>server_id.
     bnd (check_passthrough env server_id) (\<lambda>pci_address.
     seqp (external (delete_server env server_id))
     (seqp (external (wait_for_server_termination env server_id))
     (assert_not_in_use env rp_uuids))))))))))"

section \<open>The device in the domain\<close>

text \<open>The PCI devices of a domain, and the address elements of one of them.\<close>

definition hostdevs :: "xml \<Rightarrow> xml list" where
  "hostdevs root = filter (\<lambda>e. attr e ''type'' = Some ''pci'') (walk (Child ''hostdev'') (walk (Child ''devices'') [root]))"

definition source_addresses :: "xml \<Rightarrow> xml list" where
  "source_addresses dev = walk (Child ''address'') (walk (Child ''source'') [dev])"

lemma findall_hostdevs: "findall root hostdev_path = hostdevs root"
  by (simp add: hostdev_path_def findall_walk hostdevs_def)

lemma hostdev_address_Inr_iff:
  "hostdev_address dev = Inr a \<longleftrightarrow>
   (\<exists>e es. source_addresses dev = e # es \<and> get_pci_address_from_xml_device (xml_attrib e) = Inr a)"
proof -
  have "findall dev [Child ''source'', Child ''address''] = source_addresses dev"
    by (simp add: findall_walk source_addresses_def)
  then show ?thesis by (auto simp: hostdev_address_def find_def split: list.splits)
qed

lemma only_element_Inr_iff:
  "seqp (check (1 = length l)) (bnd (of_result (py_nth l 0)) f) s = Some (Inr v, s') \<longleftrightarrow>
   (\<exists>x. l = [x] \<and> f x s = Some (Inr v, s'))"
proof (cases l)
  case (Cons x xs)
  then show ?thesis
    by (cases xs) (simp_all add: seqp_def check_def bnd_def of_result_def py_nth_def raise_def ret_def)
qed (simp add: seqp_def check_def bnd_def raise_def)

lemma is_candidate_Inr_True:
  "is_candidate addresses a = Inr True \<longleftrightarrow>
   (\<exists>addrs addr. addresses = Some addrs \<and> addr \<in> set addrs \<and> py_lower a = py_lower addr)"
  by (auto simp: is_candidate_def list_ex_iff split: option.splits)

section \<open>What Placement counts\<close>

text \<open>
  \<open>used w u\<close> is how many devices of the resource class are used of provider \<open>u\<close>. If Placement answers, it
  reports this number, which is never negative, and asking for it does not change it.
\<close>

definition usage_reported ::
  "('w, 'h, 'm) passthrough_env_scheme \<Rightarrow> ('w \<Rightarrow> json \<Rightarrow> int) \<Rightarrow> bool" where
  "usage_reported env used \<longleftrightarrow> (\<forall>u w. 0 \<le> used w u) \<and>
     (\<forall>u w us w'. list_rp_usages_of env u w = (Inr (Some us), w') \<longrightarrow> used w' = used w \<and>
        used w u = (case Option.bind (pci_resource_class env) (map_of us) of None \<Rightarrow> 0 | Some n \<Rightarrow> n))"

lemma pci_usage_Inr:
  assumes "usage_reported env used" and "pci_usage env u s = Some (Inr n, s')"
  shows "n = used (world s) u \<and> used (world s') = used (world s)"
proof -
  obtain us w where "list_rp_usages_of env u (world s) = (Inr (Some us), w)" and "s' = s\<lparr>world := w\<rparr>"
    and "n = (case Option.bind (pci_resource_class env) (map_of us) of None \<Rightarrow> 0 | Some n \<Rightarrow> n)"
    using assms(2)
    by (cases "list_rp_usages_of env u (world s)")
      (auto simp: pci_usage_def bnd_Inr_iff run_of_result run_external split: option.splits)
  with assms(1) show ?thesis unfolding usage_reported_def by simp
qed

lemma assert_not_in_use_Inr:
  assumes ok: "usage_reported env used" and "assert_not_in_use env us s = Some (Inr v, s')"
  shows "(\<forall>u \<in> set us. used (world s) u = 0) \<and> used (world s') = used (world s)"
  using assms(2) unfolding assert_not_in_use_def
proof (induction us arbitrary: s)
  case (Cons u us)
  then obtain s1 where "pci_usage env u s = Some (Inr 0, s1)"
    and rest: "forM (\<lambda>rp_uuid. bnd (pci_usage env rp_uuid) (\<lambda>n. check (0 = n))) us s1 = Some (Inr v, s')"
    by (auto simp: seqp_Inr_iff bnd_Inr_iff check_Inr_iff)
  then have "used (world s) u = 0" "used (world s1) = used (world s)"
    using pci_usage_Inr [OF ok] by fastforce+
  with Cons.IH [OF rest] show ?case by simp
qed (simp add: ret_def)

lemma pci_usages_Inr:
  assumes ok: "usage_reported env used" and "mapM (pci_usage env) us s = Some (Inr ns, s')"
  shows "ns = map (used (world s)) us \<and> used (world s') = used (world s)"
  using assms(2)
proof (induction us arbitrary: s ns)
  case (Cons u us)
  then obtain s1 n ms where n: "pci_usage env u s = Some (Inr n, s1)"
    and rest: "mapM (pci_usage env) us s1 = Some (Inr ms, s')" and ns: "ns = n # ms"
    by (auto simp: bnd_Inr_iff ret_def)
  with pci_usage_Inr [OF ok n] Cons.IH [OF rest] show ?case by simp
qed (simp add: ret_def)

text \<open>Numbers that are not negative add up to one only if one of them is one and the others are zero.\<close>

lemma sum_list_one:
  fixes f :: "'a \<Rightarrow> int"
  assumes "\<And>x. 0 \<le> f x" and "sum_list (map f xs) = 1"
  shows "\<exists>ys x zs. xs = ys @ x # zs \<and> f x = 1 \<and> (\<forall>y \<in> set (ys @ zs). f y = 0)"
proof -
  have "\<exists>x \<in> set xs. f x \<noteq> 0"
  proof (rule ccontr)
    assume "\<not> ?thesis"
    then have "map f xs = map (\<lambda>_. 0) xs" by simp
    then have "sum_list (map f xs) = sum_list (map (\<lambda>_. 0) xs)" by (rule arg_cong)
    with assms(2) show False by simp
  qed
  then obtain ys x zs where xs: "xs = ys @ x # zs" and x: "f x \<noteq> 0" by (meson split_list)
  have nonneg: "0 \<le> sum_list (map f l)" for l by (rule sum_list_nonneg) (auto simp: assms(1))
  have parts: "sum_list (map f ys) + f x + sum_list (map f zs) = 1" using assms(2) by (simp add: xs)
  with x assms(1) [of x] nonneg [of ys] nonneg [of zs]
  have "f x = 1" "sum_list (map f ys) = 0" "sum_list (map f zs) = 0" by linarith+
  moreover have "f y = 0" if "sum_list (map f l) = 0" and "y \<in> set l" for y l
    using sum_list_nonneg_eq_0_iff [of "map f l"] assms(1) that by auto
  ultimately show ?thesis using xs by (intro exI [of _ ys] exI [of _ x] exI [of _ zs]) auto
qed

section \<open>Properties\<close>

text \<open>The part of the tests that looks at the domain succeeds with an address exactly if the domain has one PCI
  device and only one, the address is that of the first address element in its source, and it is, up
  to the case of letters, one of the configured addresses.\<close>

lemma passthrough_device_exact:
  "check_passthrough env i s = Some (Inr a, s') \<longleftrightarrow>
   (\<exists>doc dev e es addrs addr. get_server_xml env i s = Some (Inr doc, s') \<and> hostdevs doc = [dev] \<and>
      source_addresses dev = e # es \<and> get_pci_address_from_xml_device (xml_attrib e) = Inr a \<and>
      pci_addresses env = Some addrs \<and> addr \<in> set addrs \<and> py_lower a = py_lower addr)"
  (is "?run \<longleftrightarrow> ?spec")
proof -
  have "?run \<longleftrightarrow> (\<exists>doc dev. get_server_xml env i s = Some (Inr doc, s') \<and> hostdevs doc = [dev] \<and>
      hostdev_address dev = Inr a \<and> is_candidate (pci_addresses env) a = Inr True)"
    unfolding check_passthrough_def Let_def findall_hostdevs bnd_Inr_iff [of "get_server_xml env i"] only_element_Inr_iff
    by (auto simp: bnd_Inr_iff seqp_Inr_iff check_Inr_iff run_of_result ret_def)
  then show ?thesis
    unfolding hostdev_address_Inr_iff is_candidate_Inr_True by blast
qed

lemma get_pci_resource_providers_Inr_iff:
  "get_pci_resource_providers env s = Some (Inr rps, s') \<longleftrightarrow> rps \<noteq> [] \<and>
   (\<exists>cls w. pci_resource_class env = Some cls \<and> s' = s\<lparr>world := w\<rparr> \<and>
      list_rps_with_resources env (cls @ '':1'') (world s) = (Inr (Some rps), w))"
  by (cases "pci_resource_class env"; cases "list_rps_with_resources env (the (pci_resource_class env) @ '':1'') (world s)")
    (auto simp: get_pci_resource_providers_def py_concat_def bnd_def seqp_def prog_simps split: sum.splits option.splits)

lemma placement_run:
  fixes env :: "('w, 'h, 'm) passthrough_env_scheme" and s s' :: "'w test"
  assumes pass: "test_pci_passthrough_placement env s = Some (Inr (), s')"
  obtains rps uuids server i a ns and r t0 t1 t2 t3 t4 t5 :: "'w test" where
    "get_pci_resource_providers env s = Some (Inr rps, r)" "map_res (\<lambda>rp. json_key rp ''uuid'') rps = Inr uuids"
    "assert_not_in_use env uuids r = Some (Inr (), t0)" "boot_with_device env t0 = Some (Inr server, t1)"
    "mapM (pci_usage env) uuids t1 = Some (Inr ns, t2)" "1 = sum_list ns" "map_of server ''id'' = Some i"
    "check_passthrough env i t2 = Some (Inr a, t3)" "external (delete_server env i) t3 = Some (Inr (), t4)"
    "external (wait_for_server_termination env i) t4 = Some (Inr (), t5)"
    "assert_not_in_use env uuids t5 = Some (Inr (), s')"
  using pass unfolding test_pci_passthrough_placement_def
  by (elim bnd_InrE seqp_InrE)
    (unfold check_Inr_iff run_key_Inr_iff, unfold run_of_result prod.inject option.inject,
     elim conjE, hypsubst, rule that, (assumption | simp)+)

text \<open>C14. \<^verbatim>\<open>test_pci_passthrough_placement\<close> passes only if Placement accounts for the device. The providers that
  Placement lists for the resource class, of which there is one at least, have none of their devices used
  at first; after the server was created one device of one of these providers is used and none
  of any other, and the domain of this server has one PCI device and only one, with a configured address;
  at the end, after this server was deleted and gone, none of the providers is used
  again. Placement's usages are taken to be right. The states are those of the run, one after the other.\<close>

theorem pci_placement_sound:
  fixes env :: "('w, 'h, 'm) passthrough_env_scheme" and s s' :: "'w test"
  assumes ok: "usage_reported env used"
    and pass: "test_pci_passthrough_placement env s = Some (Inr (), s')"
  shows "\<exists>cls rps uuids us u vs server i doc dev e es a addrs addr (r :: 'w test) t0 t1 (t2 :: 'w test) t3 t4 (t5 :: 'w test).
    pci_resource_class env = Some cls \<and>
    list_rps_with_resources env (cls @ '':1'') (world s) = (Inr (Some rps), world r) \<and>
    get_pci_resource_providers env s = Some (Inr rps, r) \<and> rps \<noteq> [] \<and>
    map_res (\<lambda>rp. json_key rp ''uuid'') rps = Inr uuids \<and> uuids = us @ u # vs \<and>
    list_all (\<lambda>v. used (world r) v = 0) uuids \<and> assert_not_in_use env uuids r = Some (Inr (), t0) \<and>
    boot_with_device env t0 = Some (Inr server, t1) \<and> map_of server ''id'' = Some i \<and>
    used (world t1) u = 1 \<and> list_all (\<lambda>v. used (world t1) v = 0) (us @ vs) \<and>
    mapM (pci_usage env) uuids t1 = Some (Inr (map (used (world t1)) uuids), t2) \<and>
    get_server_xml env i t2 = Some (Inr doc, t3) \<and> hostdevs doc = [dev] \<and> source_addresses dev = e # es \<and>
    get_pci_address_from_xml_device (xml_attrib e) = Inr a \<and>
    pci_addresses env = Some addrs \<and> addr \<in> set addrs \<and> py_lower a = py_lower addr \<and>
    external (delete_server env i) t3 = Some (Inr (), t4) \<and>
    external (wait_for_server_termination env i) t4 = Some (Inr (), t5) \<and>
    assert_not_in_use env uuids t5 = Some (Inr (), s') \<and> list_all (\<lambda>v. used (world s') v = 0) uuids"
proof -
  obtain rps uuids server i a ns and r t0 t1 t2 t3 t4 t5 :: "'w test" where
    listed: "get_pci_resource_providers env s = Some (Inr rps, r)" "map_res (\<lambda>rp. json_key rp ''uuid'') rps = Inr uuids"
    and before: "assert_not_in_use env uuids r = Some (Inr (), t0)"
    and boot: "boot_with_device env t0 = Some (Inr server, t1)" and id: "map_of server ''id'' = Some i"
    and ns: "mapM (pci_usage env) uuids t1 = Some (Inr ns, t2)" "1 = sum_list ns"
    and dev: "check_passthrough env i t2 = Some (Inr a, t3)"
    and gone: "external (delete_server env i) t3 = Some (Inr (), t4)"
      "external (wait_for_server_termination env i) t4 = Some (Inr (), t5)"
    and after: "assert_not_in_use env uuids t5 = Some (Inr (), s')"
    using placement_run [OF pass] by metis
  obtain cls where cls: "pci_resource_class env = Some cls"
    "list_rps_with_resources env (cls @ '':1'') (world s) = (Inr (Some rps), world r)" "rps \<noteq> []"
    using listed(1) unfolding get_pci_resource_providers_Inr_iff by auto
  have first: "list_all (\<lambda>v. used (world r) v = 0) uuids" and final: "list_all (\<lambda>v. used (world s') v = 0) uuids"
    using assert_not_in_use_Inr [OF ok before] assert_not_in_use_Inr [OF ok after] by (auto simp: list_all_iff)
  have usages: "mapM (pci_usage env) uuids t1 = Some (Inr (map (used (world t1)) uuids), t2)"
    using pci_usages_Inr [OF ok ns(1)] ns(1) by simp
  then have "sum_list (map (used (world t1)) uuids) = 1" using ns by simp
  moreover have "0 \<le> used (world t1) v" for v
    using ok by (simp add: usage_reported_def)
  ultimately obtain us u vs where one: "uuids = us @ u # vs" "used (world t1) u = 1"
    and others: "list_all (\<lambda>v. used (world t1) v = 0) (us @ vs)"
    using sum_list_one [of "used (world t1)" uuids] by (auto simp: list_all_iff)
  from dev [unfolded passthrough_device_exact] show ?thesis
    by (elim exE conjE) (rule exI conjI cls listed one(1) first before boot id one(2) others usages gone after final | assumption)+
qed

text \<open>
  Two providers, of which the first has the only free device; the outside world is whether a server
  exists.
\<close>

definition device_domain :: xml where
  "device_domain = Elem ''domain'' [] None [Elem ''devices'' [] None
     [Elem ''hostdev'' [(''type'', ''mdev'')] None [],
      Elem ''hostdev'' [(''type'', ''pci'')] None
        [Elem ''source'' [] None [Elem ''address'' [(''domain'', ''0x0000''), (''bus'', ''0x0a''), (''slot'', ''0x00''),
           (''function'', ''0x1'')] None []]]]]"

definition device_env :: "(bool, unit) passthrough_env" where
  "device_env = api_env.extend (idle_api\<lparr>
     tempest_create_flavor := (\<lambda>r v d n p kw w. (Inr [(''id'', ''f'')], w)),
     tempest_create_test_server := (\<lambda>kw w. (Inr [(''id'', ''vm'')], True)),
     delete_server := (\<lambda>i w. (Inr (), False)),
     show_server := (\<lambda>i w. (Inr [(''OS-EXT-SRV-ATTR:host'', ''c1''), (''OS-EXT-SRV-ATTR:instance_name'', ''instance-1'')], w)),
     et_fromstring := (\<lambda>t. Inr device_domain)\<rparr>)
     \<lparr>pci_alias = Some ''nic'', pci_addresses = Some [''0000:05:00.1'', ''0000:0A:00.1''],
      pci_resource_class = Some ''CUSTOM_NIC'',
      list_rps_with_resources = (\<lambda>r w. (Inr (Some [[(''uuid'', JStr ''p'')], [(''uuid'', JStr ''q'')]]), w)),
      list_rp_usages_of = (\<lambda>u w. (Inr (Some (if u = JStr ''p'' then [(''CUSTOM_NIC'', if w then 1 else 0)] else [])), w))\<rparr>"

definition device_used :: "bool \<Rightarrow> json \<Rightarrow> int" where
  "device_used w u = (if u = JStr ''p'' \<and> w then 1 else 0)"

definition device_state :: "cleanup list \<Rightarrow> bool \<Rightarrow> bool test" where
  "device_state cs w = \<lparr>nodes_cache = Some [(''c1'', \<lparr>hd_services = Some [(''libvirt'', [])],
     hd_cpu_dedicated_set = None, hd_cpu_shared_set = None\<rparr>)], cleanups = cs, world = w\<rparr>"

lemma device_usage_reported: "usage_reported device_env device_used"
  by (auto simp: usage_reported_def device_env_def device_used_def passthrough_env.defs api_env.defs)

lemma device_checked:
  "check_passthrough device_env i (device_state cs w) = Some (Inr ''0000:0a:00.1'', device_state cs w)"
proof -
  have address: "get_pci_address_from_xml_device [(''domain'', ''0x0000''), (''bus'', ''0x0a''), (''slot'', ''0x00''),
      (''function'', ''0x1'')] = Inr ''0000:0a:00.1''"
    and same: "py_lower ''0000:0A:00.1'' = py_lower ''0000:0a:00.1''"
    by code_simp+
  have xml: "get_server_xml device_env i (device_state cs w) = Some (Inr device_domain, device_state cs w)"
    by (simp add: get_server_xml_def device_env_def idle_api_def device_state_def bnd_def prog_simps py_key_def
      VirshXMLClient_def run_SSHClient get_host_details_def require_section_cases get_ctlplane_address_def
      default_conf_def dumpxml_def execute_def in_container_def ssh_client.defs passthrough_env.defs api_env.defs)
  have "hostdev_address (Elem ''hostdev'' [(''type'', ''pci'')] None
        [Elem ''source'' [] None [Elem ''address'' [(''domain'', ''0x0000''), (''bus'', ''0x0a''), (''slot'', ''0x00''),
           (''function'', ''0x1'')] None []]]) = Inr ''0000:0a:00.1''"
    by (simp add: hostdev_address_Inr_iff source_addresses_def address)
  moreover have "is_candidate (pci_addresses device_env) ''0000:0a:00.1'' = Inr True"
    by (simp add: device_env_def passthrough_env.defs api_env.defs is_candidate_def same)
  ultimately show ?thesis
    by (simp add: check_passthrough_def Let_def bnd_def xml findall_hostdevs hostdevs_def device_domain_def attr_def
        seqp_def check_def py_nth_def of_result_def ret_def)
qed

lemma device_booted:
  "boot_with_device device_env (device_state [] False) =
   Some (Inr [(''id'', ''vm'')], device_state [AdminDeleteServer ''vm''] True)"
  by (simp add: boot_with_device_def py_concat_def create_flavor_def create_test_server_def Let_def bnd_def seqp_def prog_simps
      py_key_def addCleanup_def device_env_def device_state_def passthrough_env.defs api_env.defs idle_api_def default_conf_def)

theorem pci_placement_sound_witness:
  "test_pci_passthrough_placement device_env (device_state [] False) =
     Some (Inr (), device_state [AdminDeleteServer ''vm''] False) \<and>
   (\<exists>uuids us u vs (t0 :: bool test) server (t1 :: bool test). uuids = us @ u # vs \<and>
     boot_with_device device_env t0 = Some (Inr server, t1) \<and> device_used (world t1) u = 1 \<and>
     list_all (\<lambda>v. device_used (world t1) v = 0) (us @ vs) \<and> list_all (\<lambda>v. device_used False v = 0) uuids)"
proof -
  have usage: "pci_usage device_env u (device_state cs w) = Some (Inr (device_used w u), device_state cs w)" for u cs w
    by (auto simp: pci_usage_def bnd_def prog_simps device_env_def device_used_def device_state_def passthrough_env.defs
        api_env.defs)
  have rps: "get_pci_resource_providers device_env (device_state [] False) =
      Some (Inr [[(''uuid'', JStr ''p'')], [(''uuid'', JStr ''q'')]], device_state [] False)"
    by (simp add: get_pci_resource_providers_def py_concat_def bnd_def seqp_def prog_simps device_env_def device_state_def
        passthrough_env.defs api_env.defs)
  have deleted: "external (delete_server device_env i) (device_state cs w) = Some (Inr (), device_state cs False)"
    "external (wait_for_server_termination device_env i) (device_state cs w) = Some (Inr (), device_state cs w)" for i cs w
    by (simp_all add: prog_simps device_env_def idle_api_def device_state_def passthrough_env.defs api_env.defs)
  have "test_pci_passthrough_placement device_env (device_state [] False) =
     Some (Inr (), device_state [AdminDeleteServer ''vm''] False)"
    by (simp add: test_pci_passthrough_placement_def bnd_def seqp_def rps of_result_def json_key_def assert_not_in_use_def
        usage device_used_def check_def ret_def device_booted device_checked deleted py_key_def)
  moreover from pci_placement_sound [OF device_usage_reported this]
  have "\<exists>uuids us u vs (t0 :: bool test) server (t1 :: bool test). uuids = us @ u # vs \<and>
     boot_with_device device_env t0 = Some (Inr server, t1) \<and> device_used (world t1) u = 1 \<and>
     list_all (\<lambda>v. device_used (world t1) v = 0) (us @ vs) \<and> list_all (\<lambda>v. device_used False v = 0) uuids"
    by (elim exE conjE) (unfold device_state_def st.select_convs, (rule exI conjI | assumption)+)
  ultimately show ?thesis ..
qed

end
