(* ===== verification/Sriov.thy ===== *)
theory Sriov
  imports Numa_Helper Pci_Passthrough
begin

text \<open>
  \<^verbatim>\<open>whitebox_tempest_plugin/api/compute/test_sriov.py\<close>, the helpers of \<^verbatim>\<open>SRIOVBase\<close> and the tests of NUMA affinity:
  a server that fills the CPUs of the NUMA node its SR-IOV port belongs to is followed by a second one
  on the same host, which must go elsewhere or fail, as the policy of the flavor, the image or the
  ports says.
\<close>

section \<open>Definitions\<close>

text \<open>The options of these tests; \<open>socket_topology\<close> maps a socket to its NUMA nodes.\<close>

record ('w, 'h) sriov_env = "('w, 'h) api_env" +
  sriov_vlan_id :: int
  sriov_physnet :: string
  sriov_vnic_type :: string
  physnet_numa_affinity :: "int option"
  dedicated_cpus_per_numa :: int
  socket_topology :: "(string \<times> int list) list"
  socket_affinity :: "int option"
  sriov_hotplug :: bool
  live_migrate_back_and_forth :: bool

subsection \<open>The helpers of the base class\<close>

definition validate_pf_pci_address_in_xml ::
  "('w, 'h, 'm) api_env_scheme \<Rightarrow> string \<Rightarrow> xml \<Rightarrow> (('c, 'w) proc, unit) prog" where
  "validate_pf_pci_address_in_xml env port_id host_dev_xml =
     bnd (get_port_attribute env port_id ''binding:profile'') (\<lambda>binding_profile.
     bnd (of_result (hostdev_address host_dev_xml)) (\<lambda>pci_address.
     bnd (of_result (pci_slot binding_profile)) (\<lambda>slot.
     check (JStr pci_address = slot))))"

definition get_xml_pf_device ::
  "('w, 'h, 'm) api_env_scheme \<Rightarrow> string \<Rightarrow> (('c, 'w) proc, xml) prog" where
  "get_xml_pf_device env server_id =
     bnd (get_server_xml env server_id) (\<lambda>root.
     (let hostdev_list = findall root hostdev_path
      in seqp (check (1 = length hostdev_list)) (bnd (of_result (py_nth hostdev_list 0)) ret)))"

text \<open>\<^verbatim>\<open>int(v) if v else None\<close> for the tag of the VLAN\<close>

definition vlan_tag :: "xml \<Rightarrow> int option result" where
  "vlan_tag port_xml_element = (case find port_xml_element [Child ''vlan'', Child ''tag''] of
       None \<Rightarrow> Inl AttributeError
     | Some tag \<Rightarrow> (let interface_vlan = attr tag ''id''
         in if truthy interface_vlan then bind_res (py_int_res (fmt interface_vlan)) (\<lambda>n. Inr (Some n)) else Inr None))"

definition validate_port_xml_vlan_tag :: "xml \<Rightarrow> int option \<Rightarrow> ('s, unit) prog" where
  "validate_port_xml_vlan_tag port_xml_element expected_vlan =
     bnd (of_result (vlan_tag port_xml_element)) (\<lambda>found_vlan. check (expected_vlan = found_vlan))"

subsection \<open>NUMA affinity\<close>

definition required_specs :: api_object where
  "required_specs = [(''hw:cpu_policy'', ''dedicated''), (''hw:pci_numa_affinity_policy'', ''required'')]"

definition preferred_specs :: api_object where
  "preferred_specs = [(''hw:cpu_policy'', ''dedicated''), (''hw:pci_numa_affinity_policy'', ''preferred'')]"

definition socket_specs :: api_object where
  "socket_specs = [(''hw:cpu_policy'', ''dedicated''), (''hw:pci_numa_affinity_policy'', ''socket'')]"

text \<open>\<^verbatim>\<open>str\<close> of an option that may be unset\<close>

definition str_option :: "int option \<Rightarrow> string" where
  "str_option v = (case v of None \<Rightarrow> ''None'' | Some n \<Rightarrow> py_str n)"

definition affinity_flavor :: "('w, 'h, 'm) sriov_env_scheme \<Rightarrow> api_object \<Rightarrow> ('w test, api_object) prog" where
  "affinity_flavor env extra_specs =
     create_flavor env None (Some (dedicated_cpus_per_numa env)) None None None extra_specs []"

definition affinity_setUp :: "('w, 'h, 'm) sriov_env_scheme \<Rightarrow> ('w test, api_object \<times> api_object) prog" where
  "affinity_setUp env =
     bnd (create_net_from_physical_network env (JInt (sriov_vlan_id env)) (sriov_physnet env)) (\<lambda>network.
     bnd (key network ''id'') (\<lambda>network_id.
     seqp (create_subnet_of env network_id)
     (bnd (affinity_flavor env [(''hw:cpu_policy'', ''dedicated'')]) (\<lambda>flavor.
     ret (network, flavor)))))"

definition get_dedicated_cpus_from_numa_node ::
  "('w, 'h, 'm) sriov_env_scheme \<Rightarrow> string \<Rightarrow> int set \<Rightarrow> int set result" where
  "get_dedicated_cpus_from_numa_node env numa_node cpu_dedicated_set = (case cpu_topology (cfg env) of
       None \<Rightarrow> Inl AttributeError
     | Some topology \<Rightarrow> (case map_of topology numa_node of
           None \<Rightarrow> Inl TypeError
         | Some cpu_ids \<Rightarrow> Inr (cpu_dedicated_set \<inter> set cpu_ids)))"

text \<open>A server on a port, the second one with the hint to share the host of the first.\<close>

definition create_affinity_server ::
  "('w, 'h, 'm) sriov_env_scheme \<Rightarrow> api_object \<Rightarrow> api_object \<Rightarrow> string option \<Rightarrow> string \<Rightarrow> ('w test, api_object) prog" where
  "create_affinity_server env flavor port same_host image_id =
     bnd (key flavor ''id'') (\<lambda>flavor_id.
     bnd (key port ''id'') (\<lambda>port_id.
     create_test_server env ([(''flavor'', flavor_id),
       (''networks'', fmt_json env (JList [JDict [(''port'', JStr port_id)]]))] @
       (case same_host of None \<Rightarrow> []
        | Some i \<Rightarrow> [(''scheduler_hints'', fmt_json env (JDict [(''same_host'', JStr i)]))]) @
       [(''image_id'', image_id), (''wait_until'', ''ACTIVE'')])))"

definition check_interface ::
  "('w, 'h, 'm) sriov_env_scheme \<Rightarrow> api_object \<times> api_object \<Rightarrow> (('c, 'w) proc, unit) prog" where
  "check_interface env = (\<lambda>(server, port).
     bnd (key server ''id'') (\<lambda>server_id.
     bnd (key port ''id'') (\<lambda>port_id.
     bnd (get_xml_interface_device env server_id port_id) (\<lambda>interface_xml_element.
     validate_port_xml_vlan_tag interface_xml_element (Some (sriov_vlan_id env))))))"

text \<open>
  The procedures for the policies \<^verbatim>\<open>preferred\<close> and \<^verbatim>\<open>socket\<close> differ in the CPUs that the second server may
  have, which \<open>allowed\<close> gives from the dedicated ones.
\<close>

definition two_servers_procedure ::
  "('w, 'h, 'm) sriov_env_scheme \<Rightarrow> (int set \<Rightarrow> int set result) \<Rightarrow> api_object \<Rightarrow> api_object \<Rightarrow> api_object \<Rightarrow> string \<Rightarrow>
   ('w test, unit) prog" where
  "two_servers_procedure env allowed flavor port_a port_b image_id =
     bnd (create_affinity_server env flavor port_a None image_id) (\<lambda>server_a.
     bnd (key server_a ''id'') (\<lambda>a.
     bnd (external (get_host_for_server env a)) (\<lambda>host.
     bnd (create_affinity_server env flavor port_b (Some a) image_id) (\<lambda>server_b.
     bnd (NovaServiceManager env host ''nova-compute'') (\<lambda>host_sm.
     bnd (get_cpu_dedicated_set env host_sm) (\<lambda>cpu_dedicated_set.
     bnd (get_pinning_as_set env a) (\<lambda>cpu_pins_a.
     bnd (of_result (get_dedicated_cpus_from_numa_node env (str_option (physnet_numa_affinity env)) cpu_dedicated_set))
       (\<lambda>pcpus_with_affinity.
     seqp (check (cpu_pins_a = pcpus_with_affinity))
     (bnd (key server_b ''id'') (\<lambda>b.
     bnd (get_pinning_as_set env b) (\<lambda>cpu_pins_b.
     bnd (of_result (allowed cpu_dedicated_set)) (\<lambda>pcpus_allowed.
     seqp (check (cpu_pins_b \<subseteq> pcpus_allowed))
     (seqp (check (cpu_pins_a \<inter> cpu_pins_b = {}))
     (forM (check_interface env) [(server_a, port_a), (server_b, port_b)]))))))))))))))"

definition preferred_test_procedure ::
  "('w, 'h, 'm) sriov_env_scheme \<Rightarrow> api_object \<Rightarrow> api_object \<Rightarrow> api_object \<Rightarrow> string \<Rightarrow> ('w test, unit) prog" where
  "preferred_test_procedure env = two_servers_procedure env Inr"

definition get_cpu_ids_with_socket_affinity ::
  "('w, 'h, 'm) sriov_env_scheme \<Rightarrow> int set \<Rightarrow> int set result" where
  "get_cpu_ids_with_socket_affinity env host_dedicated_set =
     (let socket = str_option (socket_affinity env)
      in case map_of (socket_topology env) socket of
           None \<Rightarrow> Inl (KeyError socket)
         | Some socket_nodes \<Rightarrow> fold_res (\<lambda>pcpu_ids numa.
             bind_res (get_dedicated_cpus_from_numa_node env (py_str numa) host_dedicated_set) (\<lambda>cpus.
             Inr (pcpu_ids \<union> cpus))) {} socket_nodes)"

definition socket_test_procedure ::
  "('w, 'h, 'm) sriov_env_scheme \<Rightarrow> api_object \<Rightarrow> api_object \<Rightarrow> api_object \<Rightarrow> string \<Rightarrow> ('w test, unit) prog" where
  "socket_test_procedure env = two_servers_procedure env (get_cpu_ids_with_socket_affinity env)"

text \<open>\<^verbatim>\<open>assertRaises(e, f, ...)\<close>\<close>

definition assert_raises :: "exn \<Rightarrow> ('s, 'a) prog \<Rightarrow> ('s, unit) prog" where
  "assert_raises e m = (\<lambda>s. case m s of
       None \<Rightarrow> None
     | Some (Inr _, s') \<Rightarrow> Some (Inl AssertionError, s')
     | Some (Inl e', s') \<Rightarrow> Some (if e' = e then Inr () else Inl e', s'))"

definition required_test_procedure ::
  "('w, 'h, 'm) sriov_env_scheme \<Rightarrow> api_object \<Rightarrow> api_object \<Rightarrow> api_object \<Rightarrow> string \<Rightarrow> ('w test, unit) prog" where
  "required_test_procedure env flavor port_a port_b image_id =
     bnd (create_affinity_server env flavor port_a None image_id) (\<lambda>server_a.
     bnd (key server_a ''id'') (\<lambda>a.
     bnd (external (get_host_for_server env a)) (\<lambda>host.
     seqp (assert_raises (OtherError ''BuildErrorException'')
       (create_affinity_server env flavor port_b (Some a) image_id))
     (bnd (NovaServiceManager env host ''nova-compute'') (\<lambda>host_sm.
     bnd (get_cpu_dedicated_set env host_sm) (\<lambda>cpu_dedicated_set.
     bnd (of_result (get_dedicated_cpus_from_numa_node env (str_option (physnet_numa_affinity env)) cpu_dedicated_set))
       (\<lambda>pcpus_with_affinity.
     bnd (get_pinning_as_set env a) (\<lambda>cpu_pins_a.
     seqp (check (cpu_pins_a = pcpus_with_affinity))
     (check_interface env (server_a, port_a))))))))))"

subsection \<open>The tests\<close>

definition with_ports ::
  "('w, 'h, 'm) sriov_env_scheme \<Rightarrow> api_object \<Rightarrow> string option \<Rightarrow> string option \<Rightarrow>
   (api_object \<Rightarrow> api_object \<Rightarrow> ('w test, unit) prog) \<Rightarrow> ('w test, unit) prog" where
  "with_ports env network policy_a policy_b procedure =
     bnd (create_port_from_vnic_type env network (sriov_vnic_type env) policy_a) (\<lambda>port_a.
     bnd (create_port_from_vnic_type env network (sriov_vnic_type env) policy_b) (\<lambda>port_b.
     procedure port_a port_b))"

definition test_sriov_affinity_preferred_with_flavor where
  "test_sriov_affinity_preferred_with_flavor env network =
     bnd (affinity_flavor env preferred_specs) (\<lambda>flavor.
     with_ports env network None None (\<lambda>port_a port_b.
     preferred_test_procedure env flavor port_a port_b (image_ref (cfg env))))"

definition test_sriov_affinity_required_with_flavor where
  "test_sriov_affinity_required_with_flavor env network =
     bnd (affinity_flavor env required_specs) (\<lambda>flavor.
     with_ports env network None None (\<lambda>port_a port_b.
     required_test_procedure env flavor port_a port_b (image_ref (cfg env))))"

definition test_sriov_affinity_preferred_with_image where
  "test_sriov_affinity_preferred_with_image env network flavor =
     bnd (copy_default_image env [(''hw_pci_numa_affinity_policy'', ''preferred'')]) (\<lambda>image_id.
     with_ports env network None None (\<lambda>port_a port_b.
     preferred_test_procedure env flavor port_a port_b image_id))"

definition test_sriov_affinity_required_with_image where
  "test_sriov_affinity_required_with_image env network flavor =
     bnd (copy_default_image env [(''hw_pci_numa_affinity_policy'', ''required'')]) (\<lambda>image_id.
     with_ports env network None None (\<lambda>port_a port_b.
     required_test_procedure env flavor port_a port_b image_id))"

definition test_sriov_affinity_preferred_with_port_policy where
  "test_sriov_affinity_preferred_with_port_policy env network flavor =
     with_ports env network (Some ''preferred'') (Some ''preferred'') (\<lambda>port_a port_b.
     preferred_test_procedure env flavor port_a port_b (image_ref (cfg env)))"

definition test_sriov_mixed_affinity_port_policies where
  "test_sriov_mixed_affinity_port_policies env network flavor =
     with_ports env network (Some ''required'') (Some ''preferred'') (\<lambda>port_a port_b.
     preferred_test_procedure env flavor port_a port_b (image_ref (cfg env)))"

definition test_sriov_affinity_required_with_port_policy where
  "test_sriov_affinity_required_with_port_policy env network flavor =
     with_ports env network (Some ''required'') (Some ''required'') (\<lambda>port_a port_b.
     required_test_procedure env flavor port_a port_b (image_ref (cfg env)))"

definition test_sriov_affinity_port_policy_precedence_flavor where
  "test_sriov_affinity_port_policy_precedence_flavor env network =
     bnd (affinity_flavor env required_specs) (\<lambda>required_flavor.
     with_ports env network (Some ''preferred'') (Some ''preferred'') (\<lambda>port_a port_b.
     preferred_test_procedure env required_flavor port_a port_b (image_ref (cfg env))))"

definition test_sriov_affinity_port_policy_precedence_image where
  "test_sriov_affinity_port_policy_precedence_image env network flavor =
     bnd (copy_default_image env [(''hw_pci_numa_affinity_policy'', ''required'')]) (\<lambda>image_id.
     with_ports env network (Some ''preferred'') (Some ''preferred'') (\<lambda>port_a port_b.
     preferred_test_procedure env flavor port_a port_b image_id))"

definition test_sriov_affinity_socket_policy where
  "test_sriov_affinity_socket_policy env network =
     bnd (affinity_flavor env socket_specs) (\<lambda>socket_flavor.
     with_ports env network None None (\<lambda>port_a port_b.
     socket_test_procedure env socket_flavor port_a port_b (image_ref (cfg env))))"

section \<open>The tag of an interface\<close>

definition vlan_tags :: "xml \<Rightarrow> xml list" where
  "vlan_tags e = walk (Child ''tag'') (walk (Child ''vlan'') [e])"

lemma vlan_tag_Inr_Some:
  "vlan_tag e = Inr (Some n) \<longleftrightarrow>
   (\<exists>t ts v. vlan_tags e = t # ts \<and> attr t ''id'' = Some v \<and> v \<noteq> [] \<and> py_int v = Some n)"
proof -
  have "findall e [Child ''vlan'', Child ''tag''] = vlan_tags e"
    by (simp add: findall_walk vlan_tags_def)
  then show ?thesis
    by (auto simp: vlan_tag_def find_def Let_def truthy_def fmt_def py_int_res_def split: list.splits option.splits)
qed

lemma validate_vlan_Inr_iff:
  "validate_port_xml_vlan_tag e (Some n) s = Some (Inr u, s') \<longleftrightarrow> vlan_tag e = Inr (Some n) \<and> s' = s"
  by (auto simp: validate_port_xml_vlan_tag_def bnd_Inr_iff run_of_result check_Inr_iff)

lemma check_interface_Inr:
  assumes "check_interface env (server, port) s = Some (Inr u, s')"
  shows "\<exists>i p e. map_of server ''id'' = Some i \<and> map_of port ''id'' = Some p \<and>
    get_xml_interface_device env i p s = Some (Inr e, s') \<and> vlan_tag e = Inr (Some (sriov_vlan_id env))"
  using assms by (auto simp: check_interface_def bnd_Inr_iff run_key_Inr_iff validate_vlan_Inr_iff)

lemma dedicated_cpus_Inr_iff:
  "get_dedicated_cpus_from_numa_node env node dedicated = Inr cpus \<longleftrightarrow>
   (\<exists>topology ids. cpu_topology (cfg env) = Some topology \<and> map_of topology node = Some ids \<and> cpus = dedicated \<inter> set ids)"
  by (auto simp: get_dedicated_cpus_from_numa_node_def split: option.splits)

section \<open>Properties\<close>

text \<open>What a passing run of the common procedure has seen.\<close>

lemma two_servers_run:
  fixes env :: "('w, 'h, 'm) sriov_env_scheme" and s s' :: "'w test"
  assumes "two_servers_procedure env allowed flavor port_a port_b image_id s = Some (Inr (), s')"
  shows "\<exists>server_a a host server_b b sm dedicated topology ids pins_b cpus t1 t2 (t3 :: 'w test) (t4 :: 'w test) t5 t6 t7 t8.
    create_affinity_server env flavor port_a None image_id s = Some (Inr server_a, t1) \<and> map_of server_a ''id'' = Some a \<and>
    external (get_host_for_server env a) t1 = Some (Inr host, t2) \<and>
    create_affinity_server env flavor port_b (Some a) image_id t2 = Some (Inr server_b, t3) \<and> map_of server_b ''id'' = Some b \<and>
    NovaServiceManager env host ''nova-compute'' t3 = Some (Inr sm, t4) \<and>
    get_cpu_dedicated_set env sm t4 = Some (Inr dedicated, t5) \<and>
    cpu_topology (cfg env) = Some topology \<and> map_of topology (str_option (physnet_numa_affinity env)) = Some ids \<and>
    get_pinning_as_set env a t5 = Some (Inr (dedicated \<inter> set ids), t6) \<and>
    get_pinning_as_set env b t6 = Some (Inr pins_b, t7) \<and> allowed dedicated = Inr cpus \<and> pins_b \<subseteq> cpus \<and>
    dedicated \<inter> set ids \<inter> pins_b = {} \<and>
    check_interface env (server_a, port_a) t7 = Some (Inr (), t8) \<and>
    check_interface env (server_b, port_b) t8 = Some (Inr (), s')"
proof -
  obtain server_a a host server_b b sm dedicated pins_a pins_b cpus v v' and t1 t2 t3 t4 t5 t6 t7 t8 t9 :: "'w test" where
    run: "create_affinity_server env flavor port_a None image_id s = Some (Inr server_a, t1)" "map_of server_a ''id'' = Some a"
      "external (get_host_for_server env a) t1 = Some (Inr host, t2)"
      "create_affinity_server env flavor port_b (Some a) image_id t2 = Some (Inr server_b, t3)" "map_of server_b ''id'' = Some b"
      "NovaServiceManager env host ''nova-compute'' t3 = Some (Inr sm, t4)"
      "get_cpu_dedicated_set env sm t4 = Some (Inr dedicated, t5)"
    and a: "get_pinning_as_set env a t5 = Some (Inr pins_a, t6)"
      "get_dedicated_cpus_from_numa_node env (str_option (physnet_numa_affinity env)) dedicated = Inr pins_a"
    and b: "get_pinning_as_set env b t6 = Some (Inr pins_b, t7)" "allowed dedicated = Inr cpus" "pins_b \<subseteq> cpus"
      "pins_a \<inter> pins_b = {}"
    and ports: "check_interface env (server_a, port_a) t7 = Some (Inr v, t8)"
      "check_interface env (server_b, port_b) t8 = Some (Inr v', t9)" "ret () t9 = Some (Inr (), s')"
    using assms unfolding two_servers_procedure_def forM.simps
    by (elim bnd_InrE seqp_InrE)
      (unfold check_Inr_iff run_key_Inr_iff, unfold run_of_result prod.inject option.inject, elim conjE, hypsubst,
        rule that, assumption+)
  from a(2) obtain topology ids where ids: "cpu_topology (cfg env) = Some topology"
    "map_of topology (str_option (physnet_numa_affinity env)) = Some ids" and pins: "pins_a = dedicated \<inter> set ids"
    unfolding dedicated_cpus_Inr_iff by blast
  have last: "check_interface env (server_a, port_a) t7 = Some (Inr (), t8)"
    "check_interface env (server_b, port_b) t8 = Some (Inr (), s')"
    using ports by (simp_all add: ret_def)
  show ?thesis
    by (rule exI conjI run ids a(1) [unfolded pins] b [unfolded pins] last)+
qed

text \<open>C13. A passing test of the policy \<^verbatim>\<open>preferred\<close> proves where both servers run. The first is pinned to exactly
  the dedicated CPUs of the NUMA node that the physical network belongs to; the second is pinned to
  dedicated CPUs outside that node, although the test only compares its CPUs with the dedicated
  ones and those of the first server; and the interface of each has the configured VLAN tag.\<close>

theorem affinity_preferred_sound:
  fixes env :: "('w, 'h, 'm) sriov_env_scheme" and s s' :: "'w test"
  assumes "preferred_test_procedure env flavor port_a port_b image_id s = Some (Inr (), s')"
  shows "\<exists>a b pa pb host sm dedicated topology ids pins_b e_a e_b (t1 :: 'w test) t2 (t3 :: 'w test) t4 t5 t6 t7 t8.
    external (get_host_for_server env a) t1 = Some (Inr host, t2) \<and>
    NovaServiceManager env host ''nova-compute'' t3 = Some (Inr sm, t4) \<and>
    get_cpu_dedicated_set env sm t4 = Some (Inr dedicated, t5) \<and> cpu_topology (cfg env) = Some topology \<and>
    map_of topology (str_option (physnet_numa_affinity env)) = Some ids \<and>
    get_pinning_as_set env a t5 = Some (Inr (dedicated \<inter> set ids), t6) \<and>
    get_pinning_as_set env b t6 = Some (Inr pins_b, t7) \<and> pins_b \<subseteq> dedicated - set ids \<and>
    map_of port_a ''id'' = Some pa \<and> get_xml_interface_device env a pa t7 = Some (Inr e_a, t8) \<and>
    map_of port_b ''id'' = Some pb \<and> get_xml_interface_device env b pb t8 = Some (Inr e_b, s') \<and>
    vlan_tag e_a = Inr (Some (sriov_vlan_id env)) \<and> vlan_tag e_b = Inr (Some (sriov_vlan_id env))"
proof -
  obtain server_a a host server_b b sm dedicated topology ids pins_b cpus and t1 t2 t3 t4 t5 t6 t7 t8 :: "'w test" where
    run: "map_of server_a ''id'' = Some a" "external (get_host_for_server env a) t1 = Some (Inr host, t2)"
      "NovaServiceManager env host ''nova-compute'' t3 = Some (Inr sm, t4)"
      "get_cpu_dedicated_set env sm t4 = Some (Inr dedicated, t5)" "cpu_topology (cfg env) = Some topology"
      "map_of topology (str_option (physnet_numa_affinity env)) = Some ids"
      "get_pinning_as_set env a t5 = Some (Inr (dedicated \<inter> set ids), t6)"
      "get_pinning_as_set env b t6 = Some (Inr pins_b, t7)" "map_of server_b ''id'' = Some b"
    and pins: "Inr dedicated = (Inr cpus :: int set result)" "pins_b \<subseteq> cpus" "dedicated \<inter> set ids \<inter> pins_b = {}"
    and ports: "check_interface env (server_a, port_a) t7 = Some (Inr (), t8)"
      "check_interface env (server_b, port_b) t8 = Some (Inr (), s')"
    using two_servers_run [OF assms [unfolded preferred_test_procedure_def]]
    by (elim exE conjE) (rule that, assumption+)
  have b: "pins_b \<subseteq> dedicated - set ids" using pins by auto
  obtain pa e_a where pa: "map_of port_a ''id'' = Some pa" "get_xml_interface_device env a pa t7 = Some (Inr e_a, t8)"
    "vlan_tag e_a = Inr (Some (sriov_vlan_id env))"
    using check_interface_Inr [OF ports(1)] run(1) by auto
  obtain pb e_b where pb: "map_of port_b ''id'' = Some pb" "get_xml_interface_device env b pb t8 = Some (Inr e_b, s')"
    "vlan_tag e_b = Inr (Some (sriov_vlan_id env))"
    using check_interface_Inr [OF ports(2)] run(9) by auto
  show ?thesis
    by (rule exI conjI run b pa pb)+
qed

text \<open>Two NUMA nodes of two CPUs; the servers are named after their ports.\<close>

definition affinity_domain :: "bool \<Rightarrow> xml" where
  "affinity_domain first = Elem ''domain'' [] None
     [Elem ''cputune'' [] None
        [Elem ''vcpupin'' [(''vcpu'', ''0''), (''cpuset'', if first then ''0-1'' else ''2-3'')] None []],
      Elem ''devices'' [] None
        [Elem ''interface'' [(''type'', ''hostdev'')] None
           [Elem ''mac'' [(''address'', if first then ''a'' else ''b'')] None [],
            Elem ''vlan'' [] None [Elem ''tag'' [(''id'', ''100'')] None []]]]]"

definition affinity_env :: "(unit, unit) sriov_env" where
  "affinity_env = api_env.extend (idle_api\<lparr>
     cfg := (cfg (idle_api :: (unit, unit) api_env))\<lparr>cpu_topology := Some [(''0'', [0, 1]), (''1'', [2, 3])]\<rparr>,
     tempest_create_test_server := (\<lambda>kw w. (Inr [(''id'', if map_of kw ''scheduler_hints'' = None then ''a'' else ''b'')], w)),
     get_host_for_server := (\<lambda>i w. (Inr ''c1'', w)),
     show_server := (\<lambda>i w. (Inr [(''OS-EXT-SRV-ATTR:host'', ''c1''), (''OS-EXT-SRV-ATTR:instance_name'', i)], w)),
     show_port := (\<lambda>p w. (Inr [(''binding:vnic_type'', JStr ''direct''), (''mac_address'', JStr p)], w)),
     ssh_exec := (\<lambda>a u k c w. (Inr (if c = ''sudo crudini --get nova.conf compute cpu_dedicated_set'' then ''0-3'' else c), w)),
     et_fromstring := (\<lambda>t. Inr (affinity_domain (last t = CHR ''a'')))\<rparr>)
     \<lparr>sriov_vlan_id = 100, sriov_physnet = ''sriov'', sriov_vnic_type = ''direct'', physnet_numa_affinity = Some 0,
      dedicated_cpus_per_numa = 2, socket_topology = [], socket_affinity = None, sriov_hotplug = True,
      live_migrate_back_and_forth = False\<rparr>"

definition affinity_state :: "cleanup list \<Rightarrow> unit test" where
  "affinity_state cs = \<lparr>nodes_cache = Some [(''c1'', \<lparr>hd_services = Some [(''libvirt'', []),
     (''nova-compute'', [(''config_path'', ''nova.conf'')])],
     hd_cpu_dedicated_set = None, hd_cpu_shared_set = None\<rparr>)], cleanups = cs, world = ()\<rparr>"

lemma affinity_xml:
  assumes "i \<in> {''a'', ''b''}"
  shows "get_server_xml affinity_env i (affinity_state cs) = Some (Inr (affinity_domain (i = ''a'')), affinity_state cs)"
  using assms
  by (auto simp: get_server_xml_def affinity_env_def idle_api_def affinity_state_def bnd_def prog_simps py_key_def
      VirshXMLClient_def run_SSHClient get_host_details_def require_section_cases get_ctlplane_address_def
      default_conf_def dumpxml_def execute_def in_container_def ssh_client.defs sriov_env.defs api_env.defs
      full_command_def)

lemma affinity_pins:
  assumes "i \<in> {''a'', ''b''}"
  shows "get_pinning_as_set affinity_env i (affinity_state cs) =
    Some (Inr (if i = ''a'' then {0, 1} else {2, 3}), affinity_state cs)"
proof -
  have read: "parse_cpu_spec ''0-1'' = Inr {0, 1}" "parse_cpu_spec ''2-3'' = Inr {2, 3}"
    by code_simp+
  show ?thesis
    using assms
    by (auto simp: get_pinning_as_set_def bnd_def affinity_xml of_result_def findall_pins pins_def affinity_domain_def
      pin_cpus_def attr_def read)
qed

lemma affinity_interface:
  assumes "i \<in> {''a'', ''b''}"
  shows "check_interface affinity_env ([(''id'', i)], [(''id'', i)]) (affinity_state cs) = Some (Inr (), affinity_state cs)"
proof -
  have tag: "vlan_tag (Elem ''interface'' as t [m, Elem ''vlan'' [] None [Elem ''tag'' [(''id'', ''100'')] None []]]) =
      Inr (Some 100)" if "xml_tag m \<noteq> ''vlan''" for as t m
  proof -
    have "py_int ''100'' = Some 100" by code_simp
    then show ?thesis using that by (simp add: vlan_tag_Inr_Some vlan_tags_def attr_def)
  qed
  have port: "external (show_port affinity_env i) (affinity_state cs) =
      Some (Inr [(''binding:vnic_type'', JStr ''direct''), (''mac_address'', JStr i)], affinity_state cs)"
    by (simp add: prog_simps affinity_env_def affinity_state_def sriov_env.defs api_env.defs)
  have vlan: "sriov_vlan_id affinity_env = 100"
    by (simp add: affinity_env_def sriov_env.defs api_env.defs)
  have kind: "get_expected_xml_interface_type [(''binding:vnic_type'', JStr ''direct''), (''mac_address'', JStr i)] =
      Inr (Some ''hostdev'')"
    by (simp add: get_expected_xml_interface_type_def json_key_def VNIC_MAPPING_DICT_def)
  show ?thesis
    using assms
    by (auto simp: check_interface_def bnd_def seqp_def of_result_def py_key_def get_xml_interface_device_def port kind
        affinity_xml json_key_def Let_def findall_interface_path interfaces_def has_mac_def affinity_domain_def attr_def
        fmt_def fmt_value_def check_def ret_def py_nth_def validate_port_xml_vlan_tag_def tag vlan)
qed

lemma affinity_manager:
  "\<exists>sm. NovaServiceManager affinity_env ''c1'' ''nova-compute'' (affinity_state cs) = Some (Inr sm, affinity_state cs) \<and>
    get_cpu_dedicated_set affinity_env sm (affinity_state cs) = Some (Inr {0, 1, 2, 3}, affinity_state cs)"
proof -
  have read: "parse_cpu_spec ''0-3'' = Inr {0, 1, 2, 3}" "py_strip ''0-3'' = ''0-3''"
    by code_simp+
  show ?thesis
    by (simp add: NovaServiceManager_def new_manager_def bnd_def run_SSHClient get_host_details_def prog_simps
        affinity_env_def idle_api_def affinity_state_def default_conf_def get_ctlplane_address_def require_section_cases
        ssh_client.defs get_cpu_dedicated_set_def get_conf_opt_def try_except_def execute_def sriov_env.defs api_env.defs
        full_command_def fmt_def truthy_def read)
qed

theorem affinity_preferred_sound_witness:
  "preferred_test_procedure affinity_env [(''id'', ''f'')] [(''id'', ''a'')] [(''id'', ''b'')] ''img'' (affinity_state []) =
     Some (Inr (), affinity_state [AdminDeleteServer ''b'', AdminDeleteServer ''a'']) \<and>
   (\<exists>a b dedicated ids pins_b (t5 :: unit test) t6 t7.
     get_pinning_as_set affinity_env a t5 = Some (Inr (dedicated \<inter> set ids), t6) \<and>
     get_pinning_as_set affinity_env b t6 = Some (Inr pins_b, t7) \<and> pins_b \<subseteq> dedicated - set ids)"
proof -
  let ?cs = "[AdminDeleteServer ''b'', AdminDeleteServer ''a'']"
  have boot: "create_affinity_server affinity_env [(''id'', ''f'')] [(''id'', p)] same ''img'' (affinity_state cs) =
      Some (Inr [(''id'', if same = None then ''a'' else ''b'')],
        affinity_state (AdminDeleteServer (if same = None then ''a'' else ''b'') # cs))" for p same cs
    by (simp add: create_affinity_server_def create_test_server_def addCleanup_def bnd_def seqp_def prog_simps py_key_def
        affinity_env_def affinity_state_def sriov_env.defs api_env.defs split: option.split)
  have host: "external (get_host_for_server affinity_env i) (affinity_state cs) = Some (Inr ''c1'', affinity_state cs)" for i cs
    by (simp add: prog_simps affinity_env_def affinity_state_def sriov_env.defs api_env.defs)
  have node: "get_dedicated_cpus_from_numa_node affinity_env (str_option (physnet_numa_affinity affinity_env)) {0, 1, 2, 3} =
      Inr {0, 1}"
  proof -
    have "py_str 0 = ''0''" by code_simp
    then show ?thesis
      by (simp add: get_dedicated_cpus_from_numa_node_def affinity_env_def str_option_def sriov_env.defs api_env.defs)
  qed
  obtain sm where sm: "NovaServiceManager affinity_env ''c1'' ''nova-compute'' (affinity_state ?cs) = Some (Inr sm, affinity_state ?cs)"
    "get_cpu_dedicated_set affinity_env sm (affinity_state ?cs) = Some (Inr {0, 1, 2, 3}, affinity_state ?cs)"
    using affinity_manager [of ?cs] by blast
  have "preferred_test_procedure affinity_env [(''id'', ''f'')] [(''id'', ''a'')] [(''id'', ''b'')] ''img'' (affinity_state []) =
     Some (Inr (), affinity_state ?cs)"
    by (simp add: preferred_test_procedure_def two_servers_procedure_def bnd_def seqp_def boot host sm node of_result_def
        py_key_def affinity_pins affinity_interface check_def ret_def)
  moreover from affinity_preferred_sound [OF this]
  have "\<exists>a b dedicated ids pins_b (t5 :: unit test) t6 t7.
     get_pinning_as_set affinity_env a t5 = Some (Inr (dedicated \<inter> set ids), t6) \<and>
     get_pinning_as_set affinity_env b t6 = Some (Inr pins_b, t7) \<and> pins_b \<subseteq> dedicated - set ids"
    by (elim exE conjE) (rule exI conjI | assumption)+
  ultimately show ?thesis ..
qed

end
