(* ===== verification/Sriov_Migration.thy ===== *)
theory Sriov_Migration
  imports Sriov
begin

text \<open>
  \<^verbatim>\<open>SRIOVMigration\<close> of \<^verbatim>\<open>whitebox_tempest_plugin/api/compute/test_sriov.py\<close>: a server with an SR-IOV port is migrated
  while it runs. The loop that waits until Nova's database has exactly one allocated PCI device is an
  instance of the contract of polling loops. On deployments without hot plugging it is given a pattern
  where the query needs a status, and no test passes.
\<close>

section \<open>Definitions\<close>

definition migration_setUp :: "('w, 'h, 'm) sriov_env_scheme \<Rightarrow> ('w test, api_object) prog" where
  "migration_setUp env =
     bnd (create_net_from_physical_network env (JInt (sriov_vlan_id env)) (sriov_physnet env)) (\<lambda>network.
     bnd (key network ''id'') (\<lambda>network_id.
     seqp (create_subnet_of env network_id) (ret network)))"

text \<open>
  One turn of the loop, from the last count seen. A query that did not return would be a turn that never
  ends; queries do return (\<open>returns_pci_status_count\<close>).
\<close>

definition allocation_step ::
  "('w, 'h, 'm) api_env_scheme \<times> string \<times> int \<Rightarrow> json option \<times> ('c, 'w) proc \<Rightarrow>
   (unit result \<times> ('c, 'w) proc) + (json option \<times> ('c, 'w) proc)" where
  "allocation_step = (\<lambda>(env, pci_device_status_regex, start_time) (pci_allocated_count, s).
     (if clock env (world s) - start_time \<le> services_timeout env
      then (case get_pci_status_count env pci_device_status_regex None s of
          None \<Rightarrow> Inr (pci_allocated_count, s)
        | Some (Inl e, s1) \<Rightarrow> Inl (Inl e, s1)
        | Some (Inr n, s1) \<Rightarrow>
            (if n = JInt 1 then Inl (Inr (), s1)
             else if services_interval env + 1 < 0 then Inl (Inl ValueError, s1)
             else Inr (Some n, s1\<lparr>world := sleep env (services_interval env + 1) (world s1)\<rparr>)))
      else (case pci_allocated_count of
          None \<Rightarrow> Inl (Inl UnboundLocalError, s)
        | Some n \<Rightarrow> Inl (Inl TimeoutException, s))))"

definition validate_pci_allocation ::
  "('w, 'h, 'm) api_env_scheme \<Rightarrow> string \<Rightarrow> (('c, 'w) proc, unit) prog" where
  "validate_pci_allocation env pci_device_status_regex =
     (\<lambda>s. iterate (allocation_step (env, pci_device_status_regex, clock env (world s))) (None, s))"

text \<open>What is looked at after each of the two migrations.\<close>

definition check_migrated ::
  "('w, 'h, 'm) sriov_env_scheme \<Rightarrow> api_object \<Rightarrow> api_object \<Rightarrow> string \<Rightarrow> string \<Rightarrow> string \<Rightarrow> (('c, 'w) proc, unit) prog" where
  "check_migrated env server port server_id port_id pci_device_status_regex =
     seqp (check_interface env (server, port))
     (seqp (verify_neutron_port_binding env server_id port_id)
     (validate_pci_allocation env pci_device_status_regex))"

definition base_test_live_migration ::
  "('w, 'h, 'm) sriov_env_scheme \<Rightarrow> api_object \<Rightarrow> string \<Rightarrow> ('w test, unit) prog" where
  "base_test_live_migration env network vnic_type =
     (let pci_device_status_regex = (if sriov_hotplug env then ''allocated'' else ''allocated|claimed'')
      in bnd (create_flavor env None None None None None [] []) (\<lambda>flavor.
         bnd (create_port_from_vnic_type env network vnic_type None) (\<lambda>port.
         bnd (key flavor ''id'') (\<lambda>flavor_id.
         bnd (key port ''id'') (\<lambda>port_id.
         bnd (create_test_server env [(''flavor'', flavor_id),
           (''networks'', fmt_json env (JList [JDict [(''port'', JStr port_id)]])), (''wait_until'', ''ACTIVE'')]) (\<lambda>server.
         bnd (key server ''id'') (\<lambda>server_id.
         bnd (external (get_host_for_server env server_id)) (\<lambda>host.
         seqp (live_migrate env Admin server_id ''ACTIVE'' None)
         (seqp (check_migrated env server port server_id port_id pci_device_status_regex)
         (if live_migrate_back_and_forth env
          then seqp (live_migrate env Admin server_id ''ACTIVE'' (Some host))
               (check_migrated env server port server_id port_id pci_device_status_regex)
          else ret ()))))))))))"

definition test_sriov_direct_live_migration where
  "test_sriov_direct_live_migration env network = base_test_live_migration env network ''direct''"

definition test_sriov_macvtap_live_migration where
  "test_sriov_macvtap_live_migration env network = base_test_live_migration env network ''macvtap''"

section \<open>The query\<close>

definition count_query :: "string \<Rightarrow> string" where
  "count_query status = ''select COUNT(*) from pci_devices WHERE status = \"'' @ status @ ''\"''"

text \<open>
  The database counts: if executing the query for a status and fetching succeed, the answer is the number
  of rows of \<^verbatim>\<open>pci_devices\<close> with this status when the query was executed. \<open>statuses w\<close> are the statuses of
  the rows.
\<close>

definition counts_rows :: "('w, 'h, 'm) api_env_scheme \<Rightarrow> ('w \<Rightarrow> string list) \<Rightarrow> string \<Rightarrow> bool" where
  "counts_rows env statuses status \<longleftrightarrow> (\<forall>c w w1 w2 rows.
     cursor_execute env c (count_query status) w = (Inr (), w1) \<longrightarrow> cursor_fetchall env c w1 = (Inr rows, w2) \<longrightarrow>
     rows = [[(''COUNT(*)'', JInt (int (count_list (statuses w) status)))]])"

text \<open>No call of the database sets the clock back.\<close>

definition database_forward :: "('w, 'h, 'm) api_env_scheme \<Rightarrow> bool" where
  "database_forward env \<longleftrightarrow> (\<forall>a u k b l. never_back env (open_tunnel env a u k b l)) \<and>
     (\<forall>t. never_back env (close_tunnel env t)) \<and> (\<forall>h p u pw d. never_back env (connect env h p u pw d)) \<and>
     (\<forall>c. never_back env (open_cursor env c)) \<and> (\<forall>c. never_back env (close_cursor env c)) \<and>
     (\<forall>c. never_back env (commit_conn env c)) \<and> (\<forall>c. never_back env (close_conn env c)) \<and>
     (\<forall>c q. never_back env (cursor_execute env c q)) \<and> (\<forall>c. never_back env (cursor_fetchall env c))"

lemma status_count_read:
  fixes s s' :: "('c, 'w) proc"
  assumes db: "counts_rows env statuses status"
    and run: "get_pci_status_count env status None s = Some (Inr n, s')"
  shows "\<exists>w. n = JInt (int (count_list (statuses w) status))"
proof -
  obtain data t where data: "with_cm (cursor env (DatabaseClient env) (nova_cell1_db_name (cfg env)) False) (\<lambda>c.
      seqp (external (cursor_execute env c (count_query status))) (external (cursor_fetchall env c))) s = Some (Inr data, t)"
    and n: "bind_res (py_nth data 0) (\<lambda>row. json_key row ''COUNT(*)'') = Inr n"
    using run by (auto simp: get_pci_status_count_def Let_def truthy_def count_query_def bnd_Inr_iff run_of_result)
  then obtain c and t1 t2 :: "('c, 'w) proc" where "seqp (external (cursor_execute env c (count_query status))) (external (cursor_fetchall env c)) t1 =
      Some (Inr data, t2)"
    using with_cm_Inr [OF data] by blast
  then obtain w1 w2 where "cursor_execute env c (count_query status) (world t1) = (Inr (), w1)"
    and "cursor_fetchall env c w1 = (Inr data, w2)"
    by (auto simp: seqp_Inr_iff external_def split: prod.splits)
  then have "data = [[(''COUNT(*)'', JInt (int (count_list (statuses (world t1)) status)))]]"
    using db unfolding counts_rows_def by blast
  with n show ?thesis by (auto simp: py_nth_def json_key_def)
qed

lemma returns_pci_status_count: "always_returns (get_pci_status_count env status pci_address)"
  unfolding get_pci_status_count_def with_cursor by (intro returns_intros)

lemma keeps_clock:
  assumes "never_back env f"
  shows "keeps (\<lambda>s. t \<le> clock env (world s)) (external f)"
  unfolding keeps_def
proof (intro allI impI)
  fix s r s'
  assume "t \<le> clock env (world s)" and "external f s = Some (r, s')"
  with never_backD [OF assms, of "world s"] show "t \<le> clock env (world s')"
    by (auto simp: external_def split: prod.splits)
qed

lemma keeps_pci_status_count:
  assumes "database_forward env"
  shows "keeps (\<lambda>s. t \<le> clock env (world s)) (get_pci_status_count env status pci_address)"
  unfolding get_pci_status_count_def with_cursor
  by (intro keeps_intros keeps_clock) (use assms in \<open>simp_all add: database_forward_def\<close>)

section \<open>The loop\<close>

definition allocation_clock_ok :: "('w, 'h, 'm) api_env_scheme \<Rightarrow> bool" where
  "allocation_clock_ok env \<longleftrightarrow> sleep_advances env \<and> 0 \<le> services_interval env \<and> database_forward env"

lemma allocation_step_Inr:
  assumes "allocation_step (env, status, t0) (seen, s) = Inr (seen', s')"
  shows "\<exists>n s1. clock env (world s) - t0 \<le> services_timeout env \<and> get_pci_status_count env status None s = Some (Inr n, s1) \<and>
    n \<noteq> JInt 1 \<and> seen' = Some n \<and> s' = s1\<lparr>world := sleep env (services_interval env + 1) (world s1)\<rparr>"
proof -
  obtain r s1 where "get_pci_status_count env status None s = Some (r, s1)"
    using always_returnsD [OF returns_pci_status_count] by blast
  with assms show ?thesis
    by (cases r) (auto simp: allocation_step_def split: if_splits option.splits)
qed

lemma allocation_progress:
  assumes ok: "allocation_clock_ok env" and st: "allocation_step (env, status, t0) (seen, s) = Inr (seen', s')"
  shows "nat (services_timeout env + 1 - (clock env (world s') - t0)) < nat (services_timeout env + 1 - (clock env (world s) - t0))"
proof -
  obtain n s1 where time: "clock env (world s) - t0 \<le> services_timeout env"
    and n: "get_pci_status_count env status None s = Some (Inr n, s1)"
    and s': "s' = s1\<lparr>world := sleep env (services_interval env + 1) (world s1)\<rparr>"
    using allocation_step_Inr [OF st] by blast
  have "clock env (world s) \<le> clock env (world s1)"
    using keepsD [OF keeps_pci_status_count _ n, of "clock env (world s)"] ok by (simp add: allocation_clock_ok_def)
  moreover have "clock env (world s1) + (services_interval env + 1) \<le> clock env (world s')"
    using ok sleep_advancesD [of env "services_interval env + 1" "world s1"] by (simp add: allocation_clock_ok_def s')
  ultimately show ?thesis
    using time ok by (simp add: allocation_clock_ok_def)
qed

interpretation allocation_poll: polling "\<lambda>(env, status, t0). allocation_clock_ok env" allocation_step
  "\<lambda>(env, status, t0) (seen, s). nat (services_timeout env + 1 - (clock env (world s) - t0))"
proof (unfold_locales, goal_cases)
  case (1 p x y)
  then show ?case by (cases p; cases x; cases y) (simp only: prod.case allocation_progress)
qed

lemma allocation_step_Inl:
  assumes "allocation_step (env, status, t0) (seen, s) = Inl (r, s')"
  shows "(r = Inr () \<and> get_pci_status_count env status None s = Some (Inr (JInt 1), s')) \<or>
    (\<exists>e. r = Inl e \<and> get_pci_status_count env status None s = Some (Inl e, s')) \<or>
    (r = Inl ValueError \<and> services_interval env < - 1) \<or>
    (s' = s \<and> services_timeout env < clock env (world s) - t0 \<and>
      r = Inl (if seen = None then UnboundLocalError else TimeoutException))"
  using assms by (auto simp: allocation_step_def split: if_splits option.splits prod.splits sum.splits)

text \<open>After the first turn a count has been seen.\<close>

lemma allocation_run:
  assumes ok: "allocation_clock_ok env" and time: "0 \<le> services_timeout env"
  shows "\<exists>r s'. validate_pci_allocation env status s = Some (r, s') \<and>
    (case r of
       Inr _ \<Rightarrow> (\<exists>t. get_pci_status_count env status None t = Some (Inr (JInt 1), s'))
     | Inl e \<Rightarrow> (\<exists>t. get_pci_status_count env status None t = Some (Inl e, s')) \<or>
         e = TimeoutException \<and> services_timeout env < clock env (world s') - clock env (world s))"
proof -
  let ?step = "allocation_step (env, status, clock env (world s))"
  let ?I = "\<lambda>(seen, t). seen \<noteq> None \<or> clock env (world t) = clock env (world s)"
  obtain r s' where run: "iterate ?step (None, s) = Some (r, s')"
    using allocation_poll.returns [of "(env, status, clock env (world s))" "(None, s)"] ok by auto
  have "\<exists>y. ?I y \<and> ?step y = Inl (r, s')"
    by (rule iterate_invariant [OF run]) (auto dest!: allocation_step_Inr)
  then obtain seen t where inv: "seen \<noteq> None \<or> clock env (world t) = clock env (world s)"
    and "?step (seen, t) = Inl (r, s')"
    by auto
  from allocation_step_Inl [OF this(2)] inv ok time run show ?thesis
    by (auto simp: validate_pci_allocation_def allocation_clock_ok_def split: if_splits)
qed

section \<open>Properties\<close>

text \<open>C27. The wait for the allocation always returns if the clock runs and the database answers. It returns normally
  only after a query was answered with one, when one row of the table had the given status; otherwise
  it passes on an exception of the last query, or times out, and then the timeout has passed.\<close>

theorem allocation_wait_outcome:
  assumes clock: "allocation_clock_ok env" and timeout: "0 \<le> services_timeout env"
    and db: "counts_rows env statuses status"
  shows "\<exists>r s'. validate_pci_allocation env status s = Some (r, s') \<and>
    (case r of
       Inr _ \<Rightarrow> (\<exists>t w. get_pci_status_count env status None t = Some (Inr (JInt 1), s') \<and> count_list (statuses w) status = 1)
     | Inl e \<Rightarrow> (\<exists>t. get_pci_status_count env status None t = Some (Inl e, s')) \<or>
         e = TimeoutException \<and> services_timeout env < clock env (world s') - clock env (world s))"
proof -
  obtain r s' where run: "validate_pci_allocation env status s = Some (r, s')"
    and outcome: "case r of
       Inr _ \<Rightarrow> (\<exists>t. get_pci_status_count env status None t = Some (Inr (JInt 1), s'))
     | Inl e \<Rightarrow> (\<exists>t. get_pci_status_count env status None t = Some (Inl e, s')) \<or>
         e = TimeoutException \<and> services_timeout env < clock env (world s') - clock env (world s)"
    using allocation_run [OF clock timeout] by blast
  show ?thesis
  proof (cases r)
    case (Inl e)
    with run outcome show ?thesis by auto
  next
    case (Inr u)
    then obtain t where t: "get_pci_status_count env status None t = Some (Inr (JInt 1), s')" using outcome by auto
    with status_count_read [OF db t] run Inr show ?thesis by auto
  qed
qed

text \<open>The statuses that Nova gives a PCI device.\<close>

definition nova_statuses :: "string set" where
  "nova_statuses = {''available'', ''claimed'', ''allocated'', ''removed'', ''deleted'', ''unavailable'', ''unclaimable''}"

lemma validate_pci_allocation_Inr:
  assumes db: "counts_rows env statuses status"
    and run: "validate_pci_allocation env status s = Some (Inr u, s')"
  shows "\<exists>w. status \<in> set (statuses w)"
proof -
  let ?step = "allocation_step (env, status, clock env (world s))"
  have "\<exists>y. True \<and> ?step y = Inl (Inr u, s')"
    by (rule iterate_invariant [OF run [unfolded validate_pci_allocation_def]]) simp_all
  then obtain seen t where "?step (seen, t) = Inl (Inr u, s')" by auto
  then have "get_pci_status_count env status None t = Some (Inr (JInt 1), s')"
    using allocation_step_Inl [of env status "clock env (world s)" seen t "Inr u" s'] by auto
  from status_count_read [OF db this] obtain w where "count_list (statuses w) status = 1" by auto
  then show ?thesis by (metis count_notin zero_neq_one)
qed

lemma base_test_waits:
  assumes "base_test_live_migration env network vnic_type s = Some (Inr (), s')"
  shows "\<exists>(t :: 'w test) u t'. validate_pci_allocation (env :: ('w, 'h, 'm) sriov_env_scheme)
    (if sriov_hotplug env then ''allocated'' else ''allocated|claimed'') t = Some (Inr u, t')"
  using assms unfolding base_test_live_migration_def Let_def check_migrated_def
  by (elim bnd_InrE seqp_InrE) (intro exI, assumption)

text \<open>C12. Without hot plugging no test of live migration passes, whatever the deployment does. The status that is
  looked for is then \<^verbatim>\<open>allocated|claimed\<close>, meant as a pattern; the query compares for equality, and Nova never
  gives a device this status.\<close>

theorem migration_without_hotplug_fails:
  fixes env :: "('w, 'h, 'm) sriov_env_scheme" and s s' :: "'w test"
  assumes db: "counts_rows env statuses ''allocated|claimed''" and nova: "\<And>w. set (statuses w) \<subseteq> nova_statuses"
    and unplugged: "\<not> sriov_hotplug env"
  shows "test_sriov_direct_live_migration env network s \<noteq> Some (Inr (), s') \<and>
    test_sriov_macvtap_live_migration env network s \<noteq> Some (Inr (), s')"
proof -
  have False if pass: "base_test_live_migration env network vnic_type s = Some (Inr (), s')" for vnic_type
  proof -
    obtain t t' :: "'w test" where run: "validate_pci_allocation env ''allocated|claimed'' t = Some (Inr (), t')"
      using base_test_waits [OF pass] unplugged by auto
    from validate_pci_allocation_Inr [OF db run] obtain w where "''allocated|claimed'' \<in> set (statuses w)" ..
    with nova [of w] show False by (auto simp: nova_statuses_def)
  qed
  then show ?thesis
    unfolding test_sriov_direct_live_migration_def test_sriov_macvtap_live_migration_def by blast
qed

text \<open>
  A deployment in which the migration works: the server moves from one host to the other and its device
  is the only allocated one. The outside world is the server's host, the time and the query that was
  executed last.
\<close>

definition device_rows :: "string \<Rightarrow> json_object list" where
  "device_rows q = (if hd q = CHR ''S''
     then [[(''address'', JStr ''0000:05:00.1''), (''status'', JStr ''allocated''), (''dev_type'', JStr ''type-VF'')]]
     else [[(''COUNT(*)'', JInt (if q = count_query ''allocated'' then 1 else 0))]])"

definition unplugged_env :: "(string \<times> int \<times> string, unit) sriov_env" where
  "unplugged_env = api_env.extend (idle_api\<lparr>
     clock := (\<lambda>(h, t, q). t), sleep := (\<lambda>n (h, t, q). (h, t + n, q)), services_timeout := 1, services_interval := 0,
     tempest_create_flavor := (\<lambda>r v d n p kw w. (Inr [(''id'', ''f'')], w)),
     tempest_create_test_server := (\<lambda>kw w. (Inr [(''id'', ''vm'')], w)),
     create_port := (\<lambda>n p w. (Inr [(''id'', ''port'')], w)),
     get_host_for_server := (\<lambda>i w. (Inr (fst w), w)),
     live_migrate_server := (\<lambda>i b h w. (Inr (), ''b'', snd w)),
     show_server := (\<lambda>i w. (Inr [(''OS-EXT-SRV-ATTR:host'', fst w), (''OS-EXT-SRV-ATTR:instance_name'', ''instance-1'')], w)),
     show_port := (\<lambda>p w. (Inr [(''binding:vnic_type'', JStr ''direct''), (''mac_address'', JStr ''a''),
       (''binding:profile'', JDict [(''pci_slot'', JStr ''0000:05:00.1'')])], w)),
     cursor_execute := (\<lambda>c q (h, t, _). (Inr (), h, t, q)),
     cursor_fetchall := (\<lambda>c w. (Inr (device_rows (snd (snd w))), w)),
     et_fromstring := (\<lambda>t. Inr (affinity_domain True))\<rparr>)
     \<lparr>sriov_vlan_id = 100, sriov_physnet = ''sriov'', sriov_vnic_type = ''direct'', physnet_numa_affinity = None,
      dedicated_cpus_per_numa = 0, socket_topology = [], socket_affinity = None, sriov_hotplug = False,
      live_migrate_back_and_forth = False\<rparr>"

definition unplugged_state :: "cleanup list \<Rightarrow> string \<Rightarrow> int \<Rightarrow> string \<Rightarrow> (string \<times> int \<times> string) test" where
  "unplugged_state cs h t q = \<lparr>nodes_cache = Some (map (\<lambda>n. (n, \<lparr>hd_services = Some [(''libvirt'', [])],
     hd_cpu_dedicated_set = None, hd_cpu_shared_set = None\<rparr>)) [''a'', ''b'']), cleanups = cs, world = (h, t, q)\<rparr>"

lemmas unplugged_defs = unplugged_env_def idle_api_def unplugged_state_def sriov_env.defs api_env.defs

lemma unplugged_ok:
  "counts_rows unplugged_env (\<lambda>w. [''allocated'']) status" "allocation_clock_ok unplugged_env" "0 \<le> services_timeout unplugged_env"
  by (auto simp: counts_rows_def allocation_clock_ok_def sleep_advances_def database_forward_def never_back_def unplugged_defs
      device_rows_def count_query_def split: if_splits)

lemma unplugged_count:
  "get_pci_status_count unplugged_env status None (unplugged_state cs h t q) =
    Some (Inr (JInt (if status = ''allocated'' then 1 else 0)), unplugged_state cs h t (count_query status))"
  by (simp add: get_pci_status_count_def Let_def cursor_def connected_def with_cm_def bnd_def seqp_def prog_simps
      try_finally_def unplugged_defs truthy_def default_conf_def device_rows_def count_query_def py_nth_def json_key_def)

lemma unplugged_xml:
  "get_server_xml unplugged_env i (unplugged_state cs ''b'' t q) = Some (Inr (affinity_domain True), unplugged_state cs ''b'' t q)"
  by (simp add: get_server_xml_def unplugged_defs bnd_def prog_simps py_key_def VirshXMLClient_def run_SSHClient
      get_host_details_def require_section_cases get_ctlplane_address_def default_conf_def dumpxml_def execute_def
      in_container_def ssh_client.defs)

lemma unplugged_interface:
  "check_interface unplugged_env ([(''id'', ''vm'')], [(''id'', ''port'')]) (unplugged_state cs ''b'' t q) =
   Some (Inr (), unplugged_state cs ''b'' t q)"
proof -
  let ?port = "[(''binding:vnic_type'', JStr ''direct''), (''mac_address'', JStr ''a''),
       (''binding:profile'', JDict [(''pci_slot'', JStr ''0000:05:00.1'')])]"
  have port: "external (show_port unplugged_env p) (unplugged_state cs ''b'' t q) = Some (Inr ?port, unplugged_state cs ''b'' t q)" for p
    by (simp add: prog_simps unplugged_defs)
  have kind: "get_expected_xml_interface_type ?port = Inr (Some ''hostdev'')"
    by (simp add: get_expected_xml_interface_type_def json_key_def VNIC_MAPPING_DICT_def)
  have "py_int ''100'' = Some 100" by code_simp
  then have tag: "vlan_tag (Elem ''interface'' as x [Elem ''mac'' bs y [],
      Elem ''vlan'' [] None [Elem ''tag'' [(''id'', ''100'')] None []]]) = Inr (Some 100)" for as x bs y
    by (simp add: vlan_tag_Inr_Some vlan_tags_def attr_def)
  have vlan: "sriov_vlan_id unplugged_env = 100" by (simp add: unplugged_defs)
  show ?thesis
    by (simp add: check_interface_def bnd_def seqp_def of_result_def py_key_def get_xml_interface_device_def port kind
        unplugged_xml json_key_def Let_def findall_interface_path interfaces_def has_mac_def affinity_domain_def attr_def
        fmt_def fmt_value_def check_def ret_def py_nth_def validate_port_xml_vlan_tag_def tag vlan)
qed

lemma unplugged_binding:
  "\<exists>q'. verify_neutron_port_binding unplugged_env ''vm'' ''port'' (unplugged_state cs h t q) =
   Some (Inr (), unplugged_state cs h t q')"
proof -
  let ?device = "[(''address'', JStr ''0000:05:00.1''), (''status'', JStr ''allocated''), (''dev_type'', JStr ''type-VF'')]"
  have attribute: "get_port_attribute unplugged_env ''port'' ''binding:profile'' (unplugged_state cs h t q) =
      Some (Inr (Some (JDict [(''pci_slot'', JStr ''0000:05:00.1'')])), unplugged_state cs h t q)"
    "get_port_attribute unplugged_env ''port'' ''binding:vnic_type'' (unplugged_state cs h t q) =
      Some (Inr (Some (JStr ''direct'')), unplugged_state cs h t q)" for q
    by (simp_all add: get_port_attribute_def unplugged_defs bnd_def prog_simps)
  have rows: "\<exists>q'. search_pci_devices unplugged_env ''instance_uuid'' ''vm'' (unplugged_state cs h t q) =
      Some (Inr [?device], unplugged_state cs h t q')"
    by (simp add: search_pci_devices_def Let_def cursor_def connected_def with_cm_def bnd_def seqp_def prog_simps
        try_finally_def unplugged_defs truthy_def default_conf_def device_rows_def)
  then obtain q' where q': "search_pci_devices unplugged_env ''instance_uuid'' ''vm'' (unplugged_state cs h t q) =
      Some (Inr [?device], unplugged_state cs h t q')" ..
  have "verify_pci_device (Some (JDict [(''pci_slot'', JStr ''0000:05:00.1'')])) (Some (JStr ''direct'')) ?device t =
      Some (Inr (), t)" for t :: "(string \<times> int \<times> string) test"
    by (simp add: verify_pci_device_def bnd_def seqp_def of_result_def json_key_def check_def pci_slot_def ret_def)
  then show ?thesis
    by (intro exI [of _ q']) (simp add: verify_neutron_port_binding_def bnd_def attribute q' seqp_def ret_def)
qed

lemma unplugged_wait:
  "validate_pci_allocation unplugged_env ''allocated|claimed'' (unplugged_state cs h t q) =
     Some (Inl TimeoutException, unplugged_state cs h (t + 2) (count_query ''allocated|claimed''))"
  "validate_pci_allocation unplugged_env ''allocated'' (unplugged_state cs h t q) =
     Some (Inr (), unplugged_state cs h t (count_query ''allocated''))"
proof -
  have clock: "clock unplugged_env (world (unplugged_state cs h t q)) = t"
    and slept: "(unplugged_state cs h t q)\<lparr>world := sleep unplugged_env 1 (world (unplugged_state cs h t q))\<rparr> =
      unplugged_state cs h (t + 1) q"
    and options: "services_timeout unplugged_env = 1" "services_interval unplugged_env = 0" for t q
    by (simp_all add: unplugged_defs)
  have turn: "allocation_step (unplugged_env, ''allocated|claimed'', t0) (seen, unplugged_state cs h t q) =
      (if t - t0 \<le> 1 then Inr (Some (JInt 0), unplugged_state cs h (t + 1) (count_query ''allocated|claimed''))
       else Inl (Inl (if seen = None then UnboundLocalError else TimeoutException), unplugged_state cs h t q))" for t0 seen t q
    by (simp add: allocation_step_def clock slept options unplugged_count split: option.split)
  show "validate_pci_allocation unplugged_env ''allocated|claimed'' (unplugged_state cs h t q) =
     Some (Inl TimeoutException, unplugged_state cs h (t + 2) (count_query ''allocated|claimed''))"
    unfolding validate_pci_allocation_def clock
    by (subst iterate.simps, simp add: turn, subst iterate.simps, simp add: turn, subst iterate.simps,
      simp add: turn add.commute)
  show "validate_pci_allocation unplugged_env ''allocated'' (unplugged_state cs h t q) =
     Some (Inr (), unplugged_state cs h t (count_query ''allocated''))"
    unfolding validate_pci_allocation_def clock
    by (subst iterate.simps) (simp add: allocation_step_def clock options unplugged_count)
qed

theorem allocation_wait_outcome_witness:
  "validate_pci_allocation unplugged_env ''allocated'' (unplugged_state [] ''b'' 0 []) =
     Some (Inr (), unplugged_state [] ''b'' 0 (count_query ''allocated'')) \<and>
   (\<exists>t. get_pci_status_count unplugged_env ''allocated'' None (t :: (string \<times> int \<times> string) test) =
     Some (Inr (JInt 1), unplugged_state [] ''b'' 0 (count_query ''allocated''))) \<and> count_list [''allocated''] ''allocated'' = 1"
  using allocation_wait_outcome [OF unplugged_ok(2,3,1), of "''allocated''" "unplugged_state [] ''b'' 0 []"]
  by (auto simp: unplugged_wait)

theorem migration_without_hotplug_fails_witness:
  "(\<exists>s'. test_sriov_direct_live_migration unplugged_env [(''id'', ''net'')] (unplugged_state [] ''a'' 0 []) =
     Some (Inl TimeoutException, s')) \<and>
   test_sriov_macvtap_live_migration unplugged_env [(''id'', ''net'')] (unplugged_state [] ''a'' 0 []) \<noteq>
     Some (Inr (), unplugged_state [] ''b'' 0 [])"
proof
  let ?cs = "[AdminDeleteServer ''vm'', DeletePort ''port'']"
  obtain q where q: "verify_neutron_port_binding unplugged_env ''vm'' ''port'' (unplugged_state ?cs ''b'' 0 []) =
      Some (Inr (), unplugged_state ?cs ''b'' 0 q)"
    using unplugged_binding by blast
  have flavor: "create_flavor unplugged_env None None None None None [] [] (unplugged_state cs h t q) =
      Some (Inr [(''id'', ''f'')], unplugged_state cs h t q)" for cs h t q
    by (simp add: create_flavor_def Let_def bnd_def seqp_def prog_simps unplugged_defs)
  have port: "create_port_from_vnic_type unplugged_env [(''id'', ''net'')] v None (unplugged_state cs h t q) =
      Some (Inr [(''id'', ''port'')], unplugged_state (DeletePort ''port'' # cs) h t q)" for v cs h t q
    by (simp add: create_port_from_vnic_type_def Let_def bnd_def seqp_def prog_simps py_key_def addCleanup_def unplugged_defs)
  have server: "create_test_server unplugged_env kw (unplugged_state cs h t q) =
      Some (Inr [(''id'', ''vm'')], unplugged_state (AdminDeleteServer ''vm'' # cs) h t q)" for kw cs h t q
    by (simp add: create_test_server_def bnd_def seqp_def prog_simps py_key_def addCleanup_def unplugged_defs)
  have host: "external (get_host_for_server unplugged_env i) (unplugged_state cs h t q) = Some (Inr h, unplugged_state cs h t q)"
    for i cs h t q
    by (simp add: prog_simps unplugged_defs)
  have moved: "live_migrate unplugged_env Admin ''vm'' ''ACTIVE'' None (unplugged_state cs ''a'' t q) =
      Some (Inr (), unplugged_state cs ''b'' t q)" for cs t q
    by (simp add: live_migrate_def truthy_def bnd_def seqp_def prog_simps unplugged_defs)
  have options: "\<not> sriov_hotplug unplugged_env" "\<not> live_migrate_back_and_forth unplugged_env"
    by (simp_all add: unplugged_defs)
  show "\<exists>s'. test_sriov_direct_live_migration unplugged_env [(''id'', ''net'')] (unplugged_state [] ''a'' 0 []) =
     Some (Inl TimeoutException, s')"
    by (simp add: test_sriov_direct_live_migration_def base_test_live_migration_def Let_def check_migrated_def options bnd_def
        seqp_def flavor port of_result_def py_key_def server host moved unplugged_interface q unplugged_wait)
  have "set [''allocated''] \<subseteq> nova_statuses" by (simp add: nova_statuses_def)
  from migration_without_hotplug_fails [OF unplugged_ok(1) this options(1)]
  show "test_sriov_macvtap_live_migration unplugged_env [(''id'', ''net'')] (unplugged_state [] ''a'' 0 []) \<noteq>
     Some (Inr (), unplugged_state [] ''b'' 0 [])"
    by simp
qed

end
