(* ===== verification/Spec2Isabelle.thy ===== *)
theory Spec2Isabelle
  imports Hardware Conf Utils Waiters Clients Service_Manager Host_Clients Database Xml
    Compute_Base All_Computes Cleanups Server_Checks Numa_Helper Cpu_Pinning Evacuation
    Vgpu Live_Migration Cpu_State Pci_Passthrough Sriov Sriov_Migration
begin

text \<open>
  A verification library for the whitebox Tempest plugin, a set of tests that look inside an
  OpenStack deployment: they create servers through the REST APIs and compare what they asked for
  with libvirt's XML, Nova's database and the files of the compute hosts. All paths below are
  relative to \<^verbatim>\<open>src/whitebox_tempest_plugin\<close>.

  \<^bold>\<open>The parts and how they interact.\<close> A test inherits from \<^verbatim>\<open>BaseWhiteboxComputeTest\<close>
  (\<^verbatim>\<open>api/compute/base.py\<close>). Its operations call Tempest's clients, register clean-ups, and use the
  plugin's own clients (\<^verbatim>\<open>services/clients.py\<close>), which run commands on the hosts over SSH. The service
  managers among these change configuration files with \<^verbatim>\<open>crudini\<close>, restart services, and wait with
  \<^verbatim>\<open>common/waiters.py\<close> until Nova has noticed. The clients find a host with \<^verbatim>\<open>utils.py\<close>, which reads the
  host descriptions once and resolves control plane addresses. What the hosts print is read with
  \<^verbatim>\<open>hardware.py\<close> and \<^verbatim>\<open>numa_helper.py\<close>. Everything is controlled by the options of \<^verbatim>\<open>config.py\<close>.

  \<^bold>\<open>The model.\<close> A program is a function from a state to an optional pair of a result and a new state
  (\<^verbatim>\<open>WB_Prelude\<close>). A result is an exception or a value; no result at all is a loop that never ends. The
  state holds the cache of host descriptions, the registered clean-ups and the outside world, whose
  type is a parameter. Everything outside the plugin is a field of an environment record that is
  passed to the operations: \<open>sys_env\<close> (configuration, SSH, clock), \<open>nova_env\<close> (service and migration
  lists), \<open>db_env\<close> (\<^verbatim>\<open>pymysql\<close>, \<^verbatim>\<open>sshtunnel\<close>), \<open>api_env\<close> (Tempest's clients, \<^verbatim>\<open>ET.fromstring\<close>), and
  for the test modules \<open>pinning_env\<close>, \<open>evacuation_env\<close>, \<open>vgpu_env\<close>, \<open>passthrough_env\<close> and \<open>sriov_env\<close>. What
  a theorem needs of them is a named condition on the record (\<open>store_ok\<close>, \<open>service_ok\<close>, \<open>api_ok\<close>,
  \<open>placement_ok\<close>, \<open>truthful_hosts\<close>, \<open>listing_takes_time\<close>, ...), and its witness is a concrete deployment that meets it. Python's integers are \<open>int\<close>, strings are lists of characters,
  dictionaries are association lists, JSON and XML documents are datatypes.

  \<^bold>\<open>The theories.\<close>

  \<^item> \<^verbatim>\<open>WB_Prelude\<close>: results, programs, \<^verbatim>\<open>try\<close> statements, context managers and exit stacks, loops; the
    rules for running programs (\<open>prog_simps\<close>), keeping invariants (\<open>keeps_intros\<close>) and returning
    (\<open>returns_intros\<close>); the locale \<open>polling\<close>, the contract of a loop that waits.
  \<^item> \<^verbatim>\<open>PyStr\<close>: the methods of strings that the code uses, and \<^verbatim>\<open>int\<close> and \<^verbatim>\<open>str\<close>.
  \<^item> \<^verbatim>\<open>Hardware\<close> (\<^verbatim>\<open>hardware.py\<close>): CPU specifications denote sets of CPUs independently of the order of
    their rules; printing and reading are inverse; the locale \<open>cpu_notation\<close>. PCI addresses.
  \<^item> \<^verbatim>\<open>Conf\<close> (\<^verbatim>\<open>config.py\<close>, \<^verbatim>\<open>plugin.py\<close>): the declared options and their well-formedness.
  \<^item> \<^verbatim>\<open>Utils\<close> (\<^verbatim>\<open>utils.py\<close>, \<^verbatim>\<open>exceptions.py\<close>): normalising JSON, \<^verbatim>\<open>multicontext\<close>, host descriptions.
  \<^item> \<^verbatim>\<open>Waiters\<close> (\<^verbatim>\<open>common/waiters.py\<close>): the three loops return under a running clock, with the outcomes
    they promise; each one is an interpretation of \<open>polling\<close>.
  \<^item> \<^verbatim>\<open>Clients\<close>, \<^verbatim>\<open>Host_Clients\<close>, \<^verbatim>\<open>Database\<close> (\<^verbatim>\<open>services/clients.py\<close>): the commands the clients run and
    what they read from the output; the resources of a database cursor are released.
  \<^item> \<^verbatim>\<open>Option_Store\<close>, \<^verbatim>\<open>Service_Manager\<close> (\<^verbatim>\<open>services/clients.py\<close>): the contract of a store of options with
    a temporary change (locales \<open>option_store\<close> and \<open>managed_store\<close>), kept by \<^verbatim>\<open>config_options\<close>; a
    stopped service is started again.
  \<^item> \<^verbatim>\<open>Xml\<close>: elements and the paths that \<^verbatim>\<open>find\<close> and \<^verbatim>\<open>findall\<close> are given.
  \<^item> \<^verbatim>\<open>Compute_Base\<close> (\<^verbatim>\<open>api/compute/base.py\<close>): all operations of the base class. \<^verbatim>\<open>All_Computes\<close>: a
    change of the configuration of all compute hosts is undone on all of them if all could be entered, and
    otherwise on all but the one that failed. \<^verbatim>\<open>Cleanups\<close>: a test leaves of the resources that it creates
    with the base class what it found (locale \<open>undo_log\<close>); flavors are left to Tempest, and an
    encryption type for a volume type that was there before is not cleaned up. \<^verbatim>\<open>Server_Checks\<close>: what the operations
    that look at a running server tell a test.
  \<^item> \<^verbatim>\<open>Numa_Helper\<close> (\<^verbatim>\<open>api/compute/numa_helper.py\<close>): pins as unions of CPU sets.
  \<^item> \<^verbatim>\<open>Cpu_Pinning\<close> (\<^verbatim>\<open>api/compute/test_cpu_pinning.py\<close>): the helpers of the pinning tests and the tests of
    the thread policies. A passing test for \<^verbatim>\<open>isolate\<close> proves that no two vCPUs share a core, and the
    checks are exact although each turn of their loop changes the table of siblings.
  \<^item> \<^verbatim>\<open>Evacuation\<close> (\<^verbatim>\<open>api/compute/test_server_evacuation.py\<close>): all evacuation tests. They compose managers,
    waiters, domains and migrations; each one returns, and leaves no compute service down, provided
    that Nova reports the stopped service as down in time and that time passes.
  \<^item> \<^verbatim>\<open>Live_Migration\<close> (\<^verbatim>\<open>api/compute/test_live_migration.py\<close>) and \<^verbatim>\<open>Cpu_State\<close> (\<^verbatim>\<open>api/compute/test_cpu_state_mgmt.py\<close>): all
    tests. What a passing test proves: other CPUs on the new host, which a reboot keeps; the same cache
    mode of the root disk; dedicated CPUs other than CPU 0 that are off-line exactly while no server
    needs them. These theorems, like those on \<^verbatim>\<open>isolate\<close> and on Placement, follow the run of the test from
    its first state to its last one.
  \<^item> \<^verbatim>\<open>Vgpu\<close> (\<^verbatim>\<open>api/compute/test_vgpu.py\<close>): the helpers that walk Placement's trees of providers; the inventories
    and usages they report, and the outcome of a cold migration.
  \<^item> \<^verbatim>\<open>Pci_Passthrough\<close> (\<^verbatim>\<open>api/compute/test_pci_passthrough.py\<close>): all tests. The device of a domain is recognised
    exactly, and Placement counts one device of one provider while the server exists.
  \<^item> \<^verbatim>\<open>Sriov\<close>, \<^verbatim>\<open>Sriov_Migration\<close> (\<^verbatim>\<open>api/compute/test_sriov.py\<close>): the helpers of the base class, the tests of NUMA
    affinity and of live migration. A passing test of the policy \<^verbatim>\<open>preferred\<close> proves that the second
    server runs outside the NUMA node of the network. The wait for the allocation is a further instance
    of \<open>polling\<close>; without hot plugging it cannot succeed.

  \<^bold>\<open>Loops.\<close> No fuel is used. A \<^verbatim>\<open>while\<close> loop is \<open>iterate\<close> of one turn, a partial function whose value
  \<open>None\<close> means that the loop does not end; that the waiters return is proved from the progress of
  the clock, with a bound on the number of turns. The loop of \<^verbatim>\<open>_wait_for_domain_shutdown\<close> never sleeps.
  It returns if listing the domains again and again lets the clock pass every bound
  (\<open>listing_takes_time\<close>), and it is stated exactly when it does not.

  \<^bold>\<open>Not modelled.\<close> The remaining test modules, the scenarios of \<^verbatim>\<open>test_cpu_pinning.py\<close> other than those of the
  thread policies, those of \<^verbatim>\<open>test_vgpu.py\<close>, and the tests of \<^verbatim>\<open>test_sriov.py\<close> that attach and detach ports: they
  order calls of modelled operations, of Tempest and of guests, and compare the results with values
  of one deployment. The decorators and class methods that only decide whether a test is skipped.
  The parsers of XML, YAML and JSON texts, the REST services, SSH and the database, which are
  parameters. Log messages, the texts of exceptions that nothing reads, the tokenizer of XML paths
  (a path is given by its steps), packaging and the descriptions of jobs. Nested keyword arguments of a
  server (its networks and scheduler hints) are passed on in printed form.
\<close>

end
